(* ===== verification/Prelude.thy ===== *)
theory Prelude
  imports Main "HOL-Library.AList" "HOL-Library.Multiset"
begin

text \<open>
  What the component theories share: names of types, the hash map of the standard
  library with its laws as a locale, the walk over a registry of guards that stops at
  the first rejection, the stable sort by a numeric rank, the decimal text of a natural
  number, and the collections of simplification rules.
\<close>

named_theorems guard_simps \<open>definitions of the guards, checks and gates of a registry\<close>
named_theorems store_simps \<open>definitions of operations on a store\<close>

subsection \<open>Names of types\<close>

text \<open>
  A \<open>Uuid\<close> is only compared, and a \<open>DateTime<Utc>\<close> only compared and
  mapped to its date, so both are opaque numbers; the code's calls of
  \<open>Uuid::new_v4\<close> and \<open>Utc::now\<close> are arguments of the definitions that make them.
\<close>

type_synonym uuid = nat
type_synonym timestamp = int

subsection \<open>Results\<close>

text \<open>
  \<open>Result<T, E>\<close> is a sum with the error on the left; \<open>and_then\<close> is the operator \<open>?\<close>. A
  \<open>Result<(), E>\<close> is an optional error.
\<close>

abbreviation Ok :: "'a \<Rightarrow> 'e + 'a" where
  "Ok \<equiv> Inr"

abbreviation Err :: "'e \<Rightarrow> 'e + 'a" where
  "Err \<equiv> Inl"

definition and_then :: "'e + 'a \<Rightarrow> ('a \<Rightarrow> 'e + 'b) \<Rightarrow> 'e + 'b" where
  "and_then r f = (case r of Inl e \<Rightarrow> Err e | Inr x \<Rightarrow> f x)"

definition ok_or :: "'e \<Rightarrow> 'a option \<Rightarrow> 'e + 'a" where
  "ok_or e x = (case x of Some v \<Rightarrow> Ok v | None \<Rightarrow> Err e)"

lemma and_then_simps [simp]:
  "and_then (Inl e) f = Inl e" "and_then (Inr x) f = f x"
  by (simp_all add: and_then_def)

lemma ok_or_simps [simp]: "ok_or e (Some v) = Inr v" "ok_or e None = Inl e"
  by (simp_all add: ok_or_def)

lemma and_then_Ok: "and_then r f = Inr y \<longleftrightarrow> (\<exists>x. r = Inr x \<and> f x = Inr y)"
  by (cases r) simp_all

lemma ok_or_Ok: "ok_or e x = Inr v \<longleftrightarrow> x = Some v"
  by (cases x) simp_all

subsection \<open>Hash maps\<close>

text \<open>
  \<open>HashMap\<close> is an association list with distinct keys. The order of the list stands for
  the order in which \<open>keys\<close> and \<open>values\<close> iterate, which the standard library leaves
  unspecified; no property depends on it.
\<close>

type_synonym ('k, 'v) hmap = "('k \<times> 'v) list"

definition hm_empty :: "('k, 'v) hmap" where
  "hm_empty = []"

definition hm_get :: "('k, 'v) hmap \<Rightarrow> 'k \<Rightarrow> 'v option" where
  "hm_get m k = map_of m k"

definition hm_insert :: "'k \<Rightarrow> 'v \<Rightarrow> ('k, 'v) hmap \<Rightarrow> ('k, 'v) hmap" where
  "hm_insert k v m = AList.update k v m"

definition hm_remove :: "'k \<Rightarrow> ('k, 'v) hmap \<Rightarrow> ('k, 'v) hmap" where
  "hm_remove k m = AList.delete k m"

definition hm_keys :: "('k, 'v) hmap \<Rightarrow> 'k list" where
  "hm_keys m = map fst m"

definition hm_values :: "('k, 'v) hmap \<Rightarrow> 'v list" where
  "hm_values m = map snd m"

definition hm_wf :: "('k, 'v) hmap \<Rightarrow> bool" where
  "hm_wf m \<longleftrightarrow> distinct (map fst m)"

text \<open>
  What a client relies on: the interface of a map, and the facts that follow from its laws.
\<close>

locale hash_map =
  fixes empty :: "'m"
    and get :: "'m \<Rightarrow> 'k \<Rightarrow> 'v option"
    and ins :: "'k \<Rightarrow> 'v \<Rightarrow> 'm \<Rightarrow> 'm"
    and rem :: "'k \<Rightarrow> 'm \<Rightarrow> 'm"
    and keys :: "'m \<Rightarrow> 'k list"
    and wf :: "'m \<Rightarrow> bool"
  assumes get_empty: "get empty k = None"
    and get_ins: "get (ins k v m) k' = (if k' = k then Some v else get m k')"
    and get_rem: "get (rem k m) k' = (if k' = k then None else get m k')"
    and set_keys: "set (keys m) = {k. get m k \<noteq> None}"
    and distinct_keys: "wf m \<Longrightarrow> distinct (keys m)"
    and wf_empty: "wf empty"
    and wf_ins: "wf m \<Longrightarrow> wf (ins k v m)"
    and wf_rem: "wf m \<Longrightarrow> wf (rem k m)"
begin

lemma get_ins_same: "get (ins k v m) k = Some v"
  by (simp add: get_ins)

lemma get_ins_other: "k' \<noteq> k \<Longrightarrow> get (ins k v m) k' = get m k'"
  by (simp add: get_ins)

lemma get_rem_same: "get (rem k m) k = None"
  by (simp add: get_rem)

lemma keys_ins: "set (keys (ins k v m)) = insert k (set (keys m))"
  by (auto simp: set_keys get_ins)

lemma keys_rem: "set (keys (rem k m)) = set (keys m) - {k}"
  by (auto simp: set_keys get_rem)

lemma length_keys_rem:
  assumes "wf m" and "get m k \<noteq> None"
  shows "length (keys m) = Suc (length (keys (rem k m)))"
proof -
  have "length (keys m) = card (set (keys m))"
    using assms(1) by (simp add: distinct_keys distinct_card)
  also have "\<dots> = Suc (card (set (keys m) - {k}))"
    using assms(2) by (intro card.remove) (simp, subst set_keys, simp)
  also have "\<dots> = Suc (length (keys (rem k m)))"
    using assms(1) by (simp add: keys_rem wf_rem distinct_keys distinct_card flip: keys_rem)
  finally show ?thesis .
qed

end

interpretation hm: hash_map hm_empty hm_get hm_insert hm_remove hm_keys hm_wf
proof unfold_locales
  fix m :: "('k, 'v) hmap" and k k' :: 'k and v :: 'v
  show "hm_get hm_empty k = (None :: 'v option)"
    by (simp add: hm_get_def hm_empty_def)
  show "hm_get (hm_insert k v m) k' = (if k' = k then Some v else hm_get m k')"
    by (simp add: hm_get_def hm_insert_def update_conv')
  show "hm_get (hm_remove k m) k' = (if k' = k then None else hm_get m k')"
    by (simp add: hm_get_def hm_remove_def delete_conv')
  show "set (hm_keys m) = {k. hm_get m k \<noteq> None}"
    by (auto simp: hm_keys_def hm_get_def map_of_eq_None_iff)
  show "hm_wf m \<Longrightarrow> distinct (hm_keys m)"
    by (simp add: hm_wf_def hm_keys_def)
  show "hm_wf (hm_empty :: ('k, 'v) hmap)"
    by (simp add: hm_wf_def hm_empty_def)
  show "hm_wf m \<Longrightarrow> hm_wf (hm_insert k v m)"
    by (simp add: hm_wf_def hm_insert_def distinct_update)
  show "hm_wf m \<Longrightarrow> hm_wf (hm_remove k m)"
    by (simp add: hm_wf_def hm_remove_def distinct_delete)
qed

lemmas hm_simps [simp] = hm.get_empty hm.get_ins hm.get_rem hm.wf_empty hm.wf_ins hm.wf_rem

lemma hm_values_get: "hm_wf m \<Longrightarrow> v \<in> set (hm_values m) \<longleftrightarrow> (\<exists>k. hm_get m k = Some v)"
  by (auto simp: hm_values_def hm_get_def hm_wf_def dest: map_of_SomeD) force

lemma hm_sum_insert:
  "sum_list (map f (hm_values (hm_insert k v m))) =
     sum_list (map f (hm_values m)) + f v - (case hm_get m k of Some w \<Rightarrow> f w | None \<Rightarrow> (0 :: 'n :: ab_group_add))"
proof -
  have "sum_list (map (f \<circ> snd) (AList.update k v m)) =
      sum_list (map (f \<circ> snd) m) + f v - (case map_of m k of Some w \<Rightarrow> f w | None \<Rightarrow> 0)"
    by (induction m) (auto simp: algebra_simps)
  then show ?thesis by (simp add: hm_values_def hm_insert_def hm_get_def)
qed

lemma hm_keys_iff: "k \<in> set (hm_keys m) \<longleftrightarrow> hm_get m k \<noteq> None"
  by (simp add: hm.set_keys)

subsection \<open>Registries of guards\<close>

text \<open>
  The checks of the risk engine, the gates of the allocator, the filters of the selector and
  the rules of the scale manager are all walked in registration order until one of them
  answers.
\<close>

fun first_some :: "('g \<Rightarrow> 'r option) \<Rightarrow> 'g list \<Rightarrow> 'r option" where
  "first_some f [] = None"
| "first_some f (g # gs) = (case f g of Some r \<Rightarrow> Some r | None \<Rightarrow> first_some f gs)"

lemma first_some_None: "first_some f gs = None \<longleftrightarrow> (\<forall>g \<in> set gs. f g = None)"
  by (induction gs) (auto split: option.splits)

lemma first_some_Some:
  "first_some f gs = Some r \<Longrightarrow>
    \<exists>ps g ss. gs = ps @ g # ss \<and> (\<forall>p \<in> set ps. f p = None) \<and> f g = Some r"
proof (induction gs)
  case Nil
  then show ?case by simp
next
  case (Cons g gs)
  show ?case
  proof (cases "f g")
    case None
    with Cons obtain ps h ss where "gs = ps @ h # ss" "\<forall>p \<in> set ps. f p = None" "f h = Some r"
      by auto
    with None have "g # gs = (g # ps) @ h # ss" "\<forall>p \<in> set (g # ps). f p = None" "f h = Some r"
      by auto
    then show ?thesis by blast
  next
    case (Some r')
    with Cons.prems show ?thesis by (intro exI [of _ "[]"]) auto
  qed
qed

lemma first_some_member: "first_some f gs = Some r \<Longrightarrow> \<exists>g \<in> set gs. f g = Some r"
  using first_some_Some by fastforce

lemma first_some_append:
  "first_some f (gs @ hs) = (case first_some f gs of None \<Rightarrow> first_some f hs | Some r \<Rightarrow> Some r)"
  by (induction gs) (auto split: option.splits)

subsection \<open>Stable descending sort by a rank\<close>

text \<open>\<open>sort_by_key\<close> with \<open>Reverse\<close>: a stable sort, the largest rank first.\<close>

definition sort_desc :: "('a \<Rightarrow> nat) \<Rightarrow> 'a list \<Rightarrow> 'a list" where
  "sort_desc rank xs = sort_key (\<lambda>x. - int (rank x)) xs"

lemma mset_sort_desc [simp]: "mset (sort_desc rank xs) = mset xs"
  by (simp add: sort_desc_def)

lemma set_sort_desc [simp]: "set (sort_desc rank xs) = set xs"
  by (simp add: sort_desc_def)

lemma length_sort_desc [simp]: "length (sort_desc rank xs) = length xs"
  by (simp add: sort_desc_def)

lemma sorted_sort_desc: "sorted_wrt (\<lambda>a b. rank b \<le> rank a) (sort_desc rank xs)"
proof -
  have "sorted (map (\<lambda>x. - int (rank x)) (sort_desc rank xs))"
    by (simp add: sort_desc_def)
  then show ?thesis
    unfolding sorted_map by (rule sorted_wrt_mono_rel [rotated]) auto
qed

lemma stable_sort_desc:
  "filter (\<lambda>x. rank x = r) (sort_desc rank xs) = filter (\<lambda>x. rank x = r) xs"
proof -
  have "filter (\<lambda>x. - int (rank x) = - int r) (sort_key (\<lambda>x. - int (rank x)) xs)
      = filter (\<lambda>x. - int (rank x) = - int r) xs"
    by (rule sort_key_stable)
  then show ?thesis by (simp add: sort_desc_def)
qed

subsection \<open>Decimal text of a natural number\<close>

fun digits_rev :: "nat \<Rightarrow> char list" where
  "digits_rev n =
     (let d = ''0123456789'' ! (n mod 10) in if n < 10 then [d] else d # digits_rev (n div 10))"

declare digits_rev.simps [simp del]

definition show_nat :: "nat \<Rightarrow> string" where
  "show_nat n = rev (digits_rev n)"

lemma show_nat_nonempty: "show_nat n \<noteq> []"
  by (subst show_nat_def, subst digits_rev.simps) (simp add: Let_def)

subsection \<open>Filters\<close>

lemma set_map_filter: "set (List.map_filter f xs) = {y. \<exists>x \<in> set xs. f x = Some y}"
  by (force simp: List.map_filter_def)

subsection \<open>JSON values\<close>

text \<open>
  A \<open>serde_json::Value\<close> over scalars \<open>'s\<close>: null, booleans, numbers and strings. The keys of an object
  are distinct. \<open>json_get\<close> is \<open>Value::get\<close> of a key.
\<close>

datatype 's json = JScalar 's | JArray "'s json list" | JObject "(string \<times> 's json) list"

fun json_get :: "'s json \<Rightarrow> string \<Rightarrow> 's json option" where
  "json_get (JObject kvs) k = map_of kvs k"
| "json_get _ k = None"

text \<open>\<open>as_f64\<close>, given the number that a scalar is.\<close>

fun json_f64 :: "('s \<Rightarrow> 'f option) \<Rightarrow> 's json \<Rightarrow> 'f option" where
  "json_f64 num (JScalar s) = num s"
| "json_f64 num _ = None"

end
