(* ===== verification/F64.thy ===== *)
theory F64
  imports Prelude Complex_Main "HOL-Library.Log_Nat"
begin

text \<open>
  Rust's \<open>f64\<close>: IEEE 754 binary64 with round to nearest, ties to even. A finite value is
  the rational number it denotes; the two zeros are one value, so a division by zero is the
  one by \<open>+0.0\<close>. Comparisons with NaN are false, as \<open>PartialOrd\<close> has them.
\<close>

datatype f64 = NaN | PInf | NInf | Fin rat

subsection \<open>Rounding\<close>

text \<open>The nearest integer, ties to even.\<close>

definition rhe :: "rat \<Rightarrow> int" where
  "rhe x = (let f = \<lfloor>x\<rfloor>; d = x - of_int f in
     if d < 1 / 2 then f else if 1 / 2 < d then f + 1 else if even f then f else f + 1)"

text \<open>The binary exponent \<open>\<lfloor>log 2 x\<rfloor>\<close> of a positive rational.\<close>

definition binexp :: "rat \<Rightarrow> int" where
  "binexp x = (let (a, b) = quotient_of x; e = bitlen a - bitlen b in
     if 2 powi e \<le> x then e else e - 1)"

text \<open>53 significant bits, the smallest unit \<open>2 ^ -1074\<close>, infinity from \<open>2 ^ 1024\<close> on.\<close>

definition unit_exp :: "rat \<Rightarrow> int" where
  "unit_exp x = max (binexp x - 52) (- 1074)"

definition to_grid :: "rat \<Rightarrow> rat" where
  "to_grid x = of_int (rhe (x / 2 powi unit_exp x)) * 2 powi unit_exp x"

definition round_pos :: "rat \<Rightarrow> f64" where
  "round_pos x = (let r = to_grid x in if 2 ^ 1024 \<le> r then PInf else Fin r)"

fun f64_neg :: "f64 \<Rightarrow> f64" where
  "f64_neg NaN = NaN"
| "f64_neg PInf = NInf"
| "f64_neg NInf = PInf"
| "f64_neg (Fin r) = Fin (- r)"

definition round64 :: "rat \<Rightarrow> f64" where
  "round64 x = (if x = 0 then Fin 0 else if 0 < x then round_pos x else f64_neg (round_pos (- x)))"

subsection \<open>Comparisons\<close>

fun f64_lt :: "f64 \<Rightarrow> f64 \<Rightarrow> bool" where
  "f64_lt NaN b = False"
| "f64_lt a NaN = False"
| "f64_lt a NInf = False"
| "f64_lt NInf b = True"
| "f64_lt PInf b = False"
| "f64_lt (Fin x) PInf = True"
| "f64_lt (Fin x) (Fin y) = (x < y)"

fun f64_le :: "f64 \<Rightarrow> f64 \<Rightarrow> bool" where
  "f64_le NaN b = False"
| "f64_le a NaN = False"
| "f64_le NInf b = True"
| "f64_le a PInf = True"
| "f64_le PInf b = False"
| "f64_le (Fin x) NInf = False"
| "f64_le (Fin x) (Fin y) = (x \<le> y)"

abbreviation f64_ge :: "f64 \<Rightarrow> f64 \<Rightarrow> bool" where
  "f64_ge a b \<equiv> f64_le b a"

abbreviation f64_gt :: "f64 \<Rightarrow> f64 \<Rightarrow> bool" where
  "f64_gt a b \<equiv> f64_lt b a"

subsection \<open>Arithmetic\<close>

fun f64_add :: "f64 \<Rightarrow> f64 \<Rightarrow> f64" where
  "f64_add (Fin x) (Fin y) = round64 (x + y)"
| "f64_add NaN b = NaN"
| "f64_add a NaN = NaN"
| "f64_add PInf NInf = NaN"
| "f64_add NInf PInf = NaN"
| "f64_add PInf b = PInf"
| "f64_add NInf b = NInf"
| "f64_add a b = b"

definition f64_sub :: "f64 \<Rightarrow> f64 \<Rightarrow> f64" where
  "f64_sub a b = f64_add a (f64_neg b)"

definition signed_inf :: "rat \<Rightarrow> f64" where
  "signed_inf s = (if s = 0 then NaN else if 0 < s then PInf else NInf)"

fun f64_sgn :: "f64 \<Rightarrow> rat" where
  "f64_sgn NaN = 0"
| "f64_sgn PInf = 1"
| "f64_sgn NInf = - 1"
| "f64_sgn (Fin x) = sgn x"

fun f64_mul :: "f64 \<Rightarrow> f64 \<Rightarrow> f64" where
  "f64_mul (Fin x) (Fin y) = round64 (x * y)"
| "f64_mul NaN b = NaN"
| "f64_mul a NaN = NaN"
| "f64_mul a b = signed_inf (f64_sgn a * f64_sgn b)"

fun f64_div :: "f64 \<Rightarrow> f64 \<Rightarrow> f64" where
  "f64_div (Fin x) (Fin y) = (if y = 0 then signed_inf (sgn x) else round64 (x / y))"
| "f64_div NaN b = NaN"
| "f64_div a NaN = NaN"
| "f64_div (Fin x) b = Fin 0"
| "f64_div a (Fin y) = (if y = 0 then a else signed_inf (f64_sgn a * sgn y))"
| "f64_div a b = NaN"

fun f64_abs :: "f64 \<Rightarrow> f64" where
  "f64_abs NaN = NaN"
| "f64_abs (Fin x) = Fin \<bar>x\<bar>"
| "f64_abs a = PInf"

text \<open>\<open>f64::max\<close> and \<open>f64::min\<close> return the other operand when one is NaN.\<close>

definition f64_max :: "f64 \<Rightarrow> f64 \<Rightarrow> f64" where
  "f64_max a b = (if a = NaN then b else if b = NaN then a else if f64_lt a b then b else a)"

definition f64_min :: "f64 \<Rightarrow> f64 \<Rightarrow> f64" where
  "f64_min a b = (if a = NaN then b else if b = NaN then a else if f64_lt b a then b else a)"

fun f64_floor :: "f64 \<Rightarrow> f64" where
  "f64_floor (Fin x) = Fin (of_int \<lfloor>x\<rfloor>)"
| "f64_floor a = a"

fun is_finite :: "f64 \<Rightarrow> bool" where
  "is_finite (Fin x) = True"
| "is_finite a = False"

text \<open>The cast \<open>as i64\<close> saturates and takes NaN to 0.\<close>

fun f64_to_i64 :: "f64 \<Rightarrow> int" where
  "f64_to_i64 NaN = 0"
| "f64_to_i64 PInf = 2 ^ 63 - 1"
| "f64_to_i64 NInf = - (2 ^ 63)"
| "f64_to_i64 (Fin x) =
     max (- (2 ^ 63)) (min (2 ^ 63 - 1) (if 0 \<le> x then \<lfloor>x\<rfloor> else \<lceil>x\<rceil>))"

subsection \<open>Text with a fixed number of decimals\<close>

text \<open>\<open>format!("{:.n}", x)\<close>: the value rounded half to even at \<open>n\<close> decimals.\<close>

definition show_fixed :: "nat \<Rightarrow> rat \<Rightarrow> string" where
  "show_fixed n a = (let m = nat (rhe (a * 10 ^ n)); fp = show_nat (m mod 10 ^ n) in
     show_nat (m div 10 ^ n) @
     (if n = 0 then [] else CHR ''.'' # replicate (n - length fp) (CHR ''0'') @ fp))"

fun fmt_f64 :: "nat \<Rightarrow> f64 \<Rightarrow> string" where
  "fmt_f64 n NaN = ''NaN''"
| "fmt_f64 n PInf = ''inf''"
| "fmt_f64 n NInf = ''-inf''"
| "fmt_f64 n (Fin r) = (if r < 0 then ''-'' else '''') @ show_fixed n \<bar>r\<bar>"

subsection \<open>Laws of rounding\<close>

lemma rhe_cases: "rhe x = \<lfloor>x\<rfloor> \<and> x - of_int \<lfloor>x\<rfloor> \<le> 1 / 2 \<or> rhe x = \<lfloor>x\<rfloor> + 1 \<and> 1 / 2 \<le> x - of_int \<lfloor>x\<rfloor>"
  by (auto simp: rhe_def Let_def)

lemma rhe_of_int [simp]: "rhe (of_int k) = k"
  by (simp add: rhe_def)

lemma rhe_mono: "x \<le> y \<Longrightarrow> rhe x \<le> rhe y"
proof -
  assume le: "x \<le> y"
  then have fl: "\<lfloor>x\<rfloor> \<le> \<lfloor>y\<rfloor>" by (rule floor_mono)
  show ?thesis
  proof (cases "\<lfloor>x\<rfloor> = \<lfloor>y\<rfloor>")
    case True
    with le show ?thesis by (auto simp: rhe_def Let_def)
  next
    case False
    with fl have "\<lfloor>x\<rfloor> + 1 \<le> \<lfloor>y\<rfloor>" by simp
    moreover have "rhe x \<le> \<lfloor>x\<rfloor> + 1" "\<lfloor>y\<rfloor> \<le> rhe y"
      using rhe_cases [of x] rhe_cases [of y] by auto
    ultimately show ?thesis by linarith
  qed
qed

lemma rhe_error: "\<bar>of_int (rhe x) - x\<bar> \<le> 1 / 2"
proof -
  have "of_int \<lfloor>x\<rfloor> \<le> x" "x < of_int \<lfloor>x\<rfloor> + 1" by linarith+
  then show ?thesis using rhe_cases [of x] by (auto simp: abs_le_iff)
qed

lemma powi_le_iff [simp]: "(2 :: rat) powi a \<le> 2 powi b \<longleftrightarrow> a \<le> b"
  by (meson one_less_numeral_iff power_int_increasing power_int_strict_increasing
      linorder_not_le semiring_norm(76) less_imp_le_nat one_le_numeral)

lemma powi_pos [simp]: "0 < (2 :: rat) powi a"
  by simp

lemma bitlen_rat:
  assumes "0 < a"
  shows "2 powi (bitlen a - 1) \<le> (of_int a :: rat)" and "(of_int a :: rat) < 2 powi bitlen a"
proof -
  have b: "2 ^ nat (bitlen a - 1) \<le> a" "a < 2 ^ nat (bitlen a)"
    using bitlen_bounds [OF assms] by auto
  have p: "0 < bitlen a"
    using b(2) assms by (cases "0 < bitlen a") auto
  have "(of_int (2 ^ nat (bitlen a - 1)) :: rat) \<le> of_int a"
    using b(1) by (simp only: of_int_le_iff)
  with p show "2 powi (bitlen a - 1) \<le> (of_int a :: rat)"
    by (simp add: power_int_def)
  have "(of_int a :: rat) < of_int (2 ^ nat (bitlen a))"
    using b(2) by (simp only: of_int_less_iff)
  with p show "(of_int a :: rat) < 2 powi bitlen a"
    by (simp add: power_int_def)
qed

lemma binexp_bounds:
  assumes "0 < x"
  shows "2 powi binexp x \<le> x" and "x < 2 powi (binexp x + 1)"
proof -
  obtain a b where q: "quotient_of x = (a, b)" by force
  then have x: "x = of_int a / of_int b" and b: "0 < b"
    by (simp_all add: quotient_of_div quotient_of_denom_pos)
  with assms have a: "0 < a" by (simp add: zero_less_divide_iff)
  let ?e = "bitlen a - bitlen b"
  have "x < 2 powi bitlen a / 2 powi (bitlen b - 1)"
    unfolding x using a b bitlen_rat [OF a] bitlen_rat [OF b]
    by (intro frac_less) auto
  also have "\<dots> = 2 powi (?e + 1)"
    by (simp flip: power_int_diff add: algebra_simps)
  finally have up: "x < 2 powi (?e + 1)" .
  have "2 powi (bitlen a - 1) / 2 powi bitlen b \<le> x"
    unfolding x using a b bitlen_rat [OF a] bitlen_rat [OF b]
    by (intro frac_le) auto
  then have lo: "2 powi (?e - 1) \<le> x"
    by (simp flip: power_int_diff add: algebra_simps)
  show "2 powi binexp x \<le> x"
    using lo by (simp add: binexp_def q Let_def)
  show "x < 2 powi (binexp x + 1)"
    using up by (simp add: binexp_def q Let_def)
qed

lemma binexp_ge:
  assumes "0 < x" and "2 powi e \<le> x"
  shows "e \<le> binexp x"
proof -
  have "(2 :: rat) powi e < 2 powi (binexp x + 1)"
    using assms binexp_bounds(2) [of x] by linarith
  then have "\<not> binexp x + 1 \<le> e" by (simp flip: powi_le_iff)
  then show ?thesis by simp
qed

lemma binexp_mono: "0 < x \<Longrightarrow> x \<le> y \<Longrightarrow> binexp x \<le> binexp y"
  using binexp_ge [of y "binexp x"] binexp_bounds(1) [of x] by linarith

lemma rhe_powi: "0 \<le> k \<Longrightarrow> rhe (2 powi k) = 2 ^ nat k"
proof -
  assume "0 \<le> k"
  then have "(2 :: rat) powi k = of_int (2 ^ nat k)" by (simp add: power_int_def)
  then show ?thesis by (simp only: rhe_of_int)
qed

lemma to_grid_pos:
  assumes "0 < x"
  shows "0 \<le> to_grid x"
proof -
  have "rhe (of_int 0) \<le> rhe (x / 2 powi unit_exp x)"
    using assms by (intro rhe_mono) simp
  then show ?thesis using rhe_of_int [of 0] by (simp add: to_grid_def)
qed

text \<open>Rounding is exact on a multiple of the unit.\<close>

lemma to_grid_le_powi:
  assumes "x \<le> 2 powi e" and "unit_exp x \<le> e"
  shows "to_grid x \<le> 2 powi e"
proof -
  let ?u = "unit_exp x"
  have "rhe (x / 2 powi ?u) \<le> rhe (2 powi e / 2 powi ?u)"
    using assms(1) by (intro rhe_mono divide_right_mono) auto
  also have "\<dots> = 2 ^ nat (e - ?u)"
    using assms(2) by (simp flip: power_int_diff add: rhe_powi)
  finally have "(of_int (rhe (x / 2 powi ?u)) :: rat) \<le> of_int (2 ^ nat (e - ?u))"
    by (simp only: of_int_le_iff)
  also have "\<dots> = 2 powi (e - ?u)"
    using assms(2) by (simp add: power_int_def)
  finally have "to_grid x \<le> 2 powi (e - ?u) * 2 powi ?u"
    unfolding to_grid_def by (rule mult_right_mono) simp
  then show ?thesis by (simp flip: power_int_add)
qed

lemma to_grid_ge_powi:
  assumes "2 powi e \<le> x" and "unit_exp x \<le> e"
  shows "2 powi e \<le> to_grid x"
proof -
  let ?u = "unit_exp x"
  have "(2 :: int) ^ nat (e - ?u) = rhe (2 powi e / 2 powi ?u)"
    using assms(2) by (simp flip: power_int_diff add: rhe_powi)
  also have "\<dots> \<le> rhe (x / 2 powi ?u)"
    using assms(1) by (intro rhe_mono divide_right_mono) auto
  finally have "(of_int (2 ^ nat (e - ?u)) :: rat) \<le> of_int (rhe (x / 2 powi ?u))"
    by (simp only: of_int_le_iff)
  then have "(2 :: rat) powi (e - ?u) \<le> of_int (rhe (x / 2 powi ?u))"
    using assms(2) by (simp add: power_int_def)
  then have "(2 :: rat) powi (e - ?u) * 2 powi ?u \<le> to_grid x"
    unfolding to_grid_def by (rule mult_right_mono) simp
  then show ?thesis by (simp flip: power_int_add)
qed

lemma to_grid_mono:
  assumes "0 < x" and "x \<le> y"
  shows "to_grid x \<le> to_grid y"
proof (cases "unit_exp x = unit_exp y")
  case True
  have "rhe (x / 2 powi unit_exp y) \<le> rhe (y / 2 powi unit_exp y)"
    using assms by (intro rhe_mono divide_right_mono) auto
  then show ?thesis
    by (simp add: to_grid_def True mult_right_mono)
next
  case False
  have be: "binexp x \<le> binexp y" using assms by (rule binexp_mono)
  with False have uy: "unit_exp y = binexp y - 52" and ux: "unit_exp x < unit_exp y"
    and lt: "binexp x < binexp y"
    by (auto simp: unit_exp_def max_def split: if_splits)
  have "x < 2 powi (binexp x + 1)" using assms(1) by (rule binexp_bounds)
  also have "\<dots> \<le> 2 powi binexp y" using lt by simp
  finally have "to_grid x \<le> 2 powi binexp y"
    using ux uy by (intro to_grid_le_powi) simp_all
  also have "\<dots> \<le> to_grid y"
    using assms uy binexp_bounds(1) [of y] by (intro to_grid_ge_powi) simp_all
  finally show ?thesis .
qed

lemma round_pos_cases:
  "0 < x \<Longrightarrow> round_pos x = PInf \<or> (\<exists>r. round_pos x = Fin r \<and> 0 \<le> r)"
  by (simp add: round_pos_def Let_def to_grid_pos)

lemma round_pos_mono: "0 < x \<Longrightarrow> x \<le> y \<Longrightarrow> f64_le (round_pos x) (round_pos y)"
  using to_grid_mono [of x y] by (simp add: round_pos_def Let_def)

lemma round64_zero [simp]: "round64 0 = Fin 0"
  by (simp add: round64_def)

lemma round64_neg: "round64 (- x) = f64_neg (round64 x)"
  by (cases "round_pos x"; cases "round_pos (- x)") (auto simp: round64_def)

lemma round64_not_NaN [simp]: "round64 x \<noteq> NaN"
  by (auto simp: round64_def round_pos_def Let_def)

lemma f64_le_neg: "f64_le (f64_neg a) (f64_neg b) = f64_le b a"
  by (cases a; cases b) auto

lemma f64_NaN_cmp [simp]:
  "\<not> f64_lt x NaN" "\<not> f64_lt NaN x" "\<not> f64_le x NaN" "\<not> f64_le NaN x"
  by (cases x; simp)+

lemma f64_le_inf [simp]: "f64_le a PInf \<longleftrightarrow> a \<noteq> NaN" "f64_le NInf a \<longleftrightarrow> a \<noteq> NaN"
  by (cases a; simp)+

lemma f64_le_refl [simp]: "f64_le a a \<longleftrightarrow> a \<noteq> NaN"
  by (cases a) auto

lemma f64_le_trans: "f64_le a b \<Longrightarrow> f64_le b c \<Longrightarrow> f64_le a c"
  by (cases a; cases b; cases c) auto

lemma f64_le_total: "a \<noteq> NaN \<Longrightarrow> b \<noteq> NaN \<Longrightarrow> f64_le a b \<or> f64_le b a"
  by (cases a; cases b) auto

lemma f64_lt_le_not_le: "f64_lt a b \<longleftrightarrow> f64_le a b \<and> \<not> f64_le b a"
  by (cases a; cases b) auto

lemma f64_not_le: "a \<noteq> NaN \<Longrightarrow> b \<noteq> NaN \<Longrightarrow> \<not> f64_le a b \<longleftrightarrow> f64_lt b a"
  by (cases a; cases b) auto

lemma f64_not_lt: "a \<noteq> NaN \<Longrightarrow> b \<noteq> NaN \<Longrightarrow> \<not> f64_lt a b \<longleftrightarrow> f64_le b a"
  by (cases a; cases b) auto

lemma round64_nonneg: "0 \<le> x \<Longrightarrow> f64_le (Fin 0) (round64 x)"
  using round_pos_cases [of x] by (auto simp: round64_def)

lemma round64_mono:
  assumes "x \<le> y"
  shows "f64_le (round64 x) (round64 y)"
proof -
  consider "0 < x" | "y < 0" | "x \<le> 0" "0 \<le> y" by linarith
  then show ?thesis
  proof cases
    case 1
    with assms show ?thesis by (simp add: round64_def round_pos_mono)
  next
    case 2
    with assms show ?thesis
      by (simp add: round64_def f64_le_neg round_pos_mono)
  next
    case 3
    have "f64_le (Fin 0) (round64 (- x))" using 3 by (intro round64_nonneg) simp
    then have "f64_le (round64 x) (Fin 0)"
      by (simp add: round64_neg) (metis f64_le_neg f64_neg.simps(4) minus_zero round64_neg minus_minus)
    moreover have "f64_le (Fin 0) (round64 y)" using 3 by (intro round64_nonneg)
    ultimately show ?thesis by (rule f64_le_trans)
  qed
qed

text \<open>A number of at most 53 significant bits is not rounded.\<close>

lemma to_grid_exact:
  assumes x: "x = of_int m * 2 powi e" and "0 < m" "m < 2 ^ 53" "- 1074 \<le> e"
  shows "to_grid x = x"
proof -
  have pos: "0 < x" using assms by simp
  have "(of_int m :: rat) < of_int (2 ^ 53)" using assms(3) by (simp only: of_int_less_iff)
  then have "x < 2 powi 53 * 2 powi e" unfolding x by simp
  also have "\<dots> = 2 powi (53 + e)" by (simp add: power_int_add)
  finally have "(2 :: rat) powi binexp x < 2 powi (53 + e)"
    using binexp_bounds(1) [OF pos] by linarith
  then have "\<not> 53 + e \<le> binexp x" by (simp flip: powi_le_iff)
  with assms(4) have u: "unit_exp x \<le> e" by (simp add: unit_exp_def)
  let ?k = "nat (e - unit_exp x)"
  have "(2 :: rat) powi e = 2 ^ ?k * 2 powi unit_exp x"
    using u by (simp flip: power_int_add power_int_of_nat)
  with x have "x = of_int (m * 2 ^ ?k) * 2 powi unit_exp x" by (metis mult.assoc of_int_mult
      of_int_numeral of_int_power)
  moreover have "(2 :: rat) powi unit_exp x \<noteq> 0" by simp
  ultimately have d: "x / 2 powi unit_exp x = of_int (m * 2 ^ ?k)"
    by (metis nonzero_mult_div_cancel_right)
  have "to_grid x = x / 2 powi unit_exp x * 2 powi unit_exp x"
    unfolding to_grid_def by (simp only: d rhe_of_int)
  then show ?thesis by simp
qed

lemma round64_exact_pos:
  assumes "x = of_int m * 2 powi e" "0 < m" "m < 2 ^ 53" "- 1074 \<le> e" "x < 2 ^ 1024"
  shows "round64 x = Fin x"
  using assms to_grid_exact [OF assms(1-4)] by (simp add: round64_def round_pos_def Let_def)

lemma round64_dyadic:
  assumes "\<bar>m\<bar> < 2 ^ 53" "k \<le> 1074"
  shows "round64 (of_int m / 2 ^ k) = Fin (of_int m / 2 ^ k)"
proof -
  have pos: "round64 (of_int n / 2 ^ k) = Fin (of_int n / 2 ^ k)" if n: "0 < n" "n < 2 ^ 53" for n
  proof (rule round64_exact_pos)
    show "of_int n / 2 ^ k = (of_int n :: rat) * 2 powi (- int k)"
      by (simp add: power_int_minus field_simps)
    have "(of_int n :: rat) / 2 ^ k \<le> of_int n / 1"
      using n by (intro divide_left_mono) auto
    also have "(of_int n :: rat) < of_int (2 ^ 53)" using n by (simp only: of_int_less_iff)
    finally show "(of_int n :: rat) / 2 ^ k < 2 ^ 1024" by simp
  qed (use n assms in auto)
  consider "m = 0" | "0 < m" | "m < 0" by linarith
  then show ?thesis
  proof cases
    case 3
    with pos [of "- m"] assms have "round64 (- (of_int m / 2 ^ k)) = Fin (- (of_int m / 2 ^ k))"
      by simp
    then show ?thesis
      by (cases "round64 (of_int m / 2 ^ k)") (simp_all add: round64_neg)
  qed (use pos assms in auto)
qed

lemma round64_int: "\<bar>m\<bar> < 2 ^ 53 \<Longrightarrow> round64 (of_int m) = Fin (of_int m)"
  using round64_dyadic [of m 0] by simp

lemma round64_numeral [simp]:
  "(numeral n :: int) < 2 ^ 53 \<Longrightarrow> round64 (numeral n) = Fin (numeral n)"
  using round64_int [of "numeral n"] by simp

lemma round64_one [simp]: "round64 1 = Fin 1"
  using round64_int [of 1] by simp

lemma round64_neg_numeral [simp]:
  "(numeral n :: int) < 2 ^ 53 \<Longrightarrow> round64 (- numeral n) = Fin (- numeral n)"
  using round64_int [of "- numeral n"] by simp

lemma round64_pos_imp: "f64_lt (Fin 0) (round64 x) \<Longrightarrow> 0 < x"
  using round64_mono [of x 0] by (cases "x \<le> 0") (auto simp: f64_lt_le_not_le)

lemma f64_lt_trans: "f64_lt a b \<Longrightarrow> f64_lt b c \<Longrightarrow> f64_lt a c"
  by (cases a; cases b; cases c) auto

lemma f64_le_lt_trans: "f64_le a b \<Longrightarrow> f64_lt b c \<Longrightarrow> f64_lt a c"
  by (cases a; cases b; cases c) auto

lemma f64_lt_le_trans: "f64_lt a b \<Longrightarrow> f64_le b c \<Longrightarrow> f64_lt a c"
  by (cases a; cases b; cases c) auto

lemma f64_min_le1: "a \<noteq> NaN \<Longrightarrow> f64_le (f64_min a b) a"
  by (cases a; cases b) (auto simp: f64_min_def)

lemma f64_min_le2: "b \<noteq> NaN \<Longrightarrow> f64_le (f64_min a b) b"
  by (cases a; cases b) (auto simp: f64_min_def)

lemma f64_max_ge2: "b \<noteq> NaN \<Longrightarrow> f64_le b (f64_max a b)"
  by (cases a; cases b) (auto simp: f64_max_def)

lemmas f64_order = f64_le_trans f64_lt_trans f64_le_lt_trans f64_lt_le_trans

end
