(* ===== verification/Decimals.thy ===== *)
theory Decimals
  imports F64
begin

text \<open>
  \<open>Decimal\<close> of the crate \<open>rust_decimal\<close>. The crate is not part of the repository, so its
  behaviour is a parameter: a value is the rational number it denotes, and a record holds what
  the code calls. \<open>d_rnd\<close> is the rounding of an exact sum, difference, product or quotient to
  a value of the type; comparison, negation, \<open>abs\<close>, \<open>min\<close> and \<open>max\<close> are exact. The crate
  panics when a result exceeds its 96 bit mantissa or a divisor is zero: a division whose
  divisor the code does not guard is modelled where it occurs, an overflow is outside the
  model.
\<close>

type_synonym dec = rat

record dlib =
  d_rnd :: "rat \<Rightarrow> dec"                 \<comment> \<open>rounding of an arithmetic result\<close>
  d_show :: "dec \<Rightarrow> string"             \<comment> \<open>\<open>to_string\<close> and \<open>{}\<close>\<close>
  d_to_f64 :: "dec \<Rightarrow> f64 option"       \<comment> \<open>\<open>ToPrimitive::to_f64\<close>\<close>
  d_parse :: "string \<Rightarrow> dec option"     \<comment> \<open>\<open>Decimal::from_str\<close>\<close>
  d_of_f32 :: "rat \<Rightarrow> dec option"       \<comment> \<open>\<open>Decimal::from_f32_retain\<close> of a finite \<open>f32\<close>\<close>
  d_of_f64 :: "f64 \<Rightarrow> dec option"       \<comment> \<open>\<open>Decimal::from_f64\<close>\<close>

definition d_add :: "dlib \<Rightarrow> dec \<Rightarrow> dec \<Rightarrow> dec" where
  "d_add D a b = d_rnd D (a + b)"

definition d_sub :: "dlib \<Rightarrow> dec \<Rightarrow> dec \<Rightarrow> dec" where
  "d_sub D a b = d_rnd D (a - b)"

definition d_mul :: "dlib \<Rightarrow> dec \<Rightarrow> dec \<Rightarrow> dec" where
  "d_mul D a b = d_rnd D (a * b)"

definition d_div :: "dlib \<Rightarrow> dec \<Rightarrow> dec \<Rightarrow> dec" where
  "d_div D a b = d_rnd D (a / b)"

text \<open>
  The conversions the risk modules share: \<open>to_f64().unwrap_or(0.0)\<close>, and back through the
  text with eight decimals.
\<close>

definition decimal_to_f64 :: "dlib \<Rightarrow> dec \<Rightarrow> f64" where
  "decimal_to_f64 D x = (case d_to_f64 D x of Some f \<Rightarrow> f | None \<Rightarrow> Fin 0)"

definition f64_to_decimal :: "dlib \<Rightarrow> f64 \<Rightarrow> dec" where
  "f64_to_decimal D f = (if \<not> is_finite f then 0
     else case d_parse D (fmt_f64 8 f) of Some x \<Rightarrow> x | None \<Rightarrow> 0)"

text \<open>\<open>iter().sum()\<close> folds from zero.\<close>

definition d_sum :: "dlib \<Rightarrow> dec list \<Rightarrow> dec" where
  "d_sum D xs = foldl (d_add D) 0 xs"

text \<open>
  The documented rounding: to the nearest representable value, so it is monotone, symmetric
  and leaves a representable value alone.
\<close>

locale decimal_rounding =
  fixes rnd :: "rat \<Rightarrow> rat"
  assumes rnd_mono: "x \<le> y \<Longrightarrow> rnd x \<le> rnd y"
    and rnd_neg: "rnd (- x) = - rnd x"
    and rnd_idem: "rnd (rnd x) = rnd x"
begin

lemma rnd_zero: "rnd 0 = 0"
  using rnd_neg [of 0] by simp

lemma rnd_nonneg: "0 \<le> x \<Longrightarrow> 0 \<le> rnd x"
  using rnd_mono [of 0 x] by (simp add: rnd_zero)

lemma rnd_nonpos: "x \<le> 0 \<Longrightarrow> rnd x \<le> 0"
  using rnd_mono [of x 0] by (simp add: rnd_zero)

lemma rnd_pos_imp: "0 < rnd x \<Longrightarrow> 0 < x"
  using rnd_nonpos [of x] by (cases "x \<le> 0") auto

lemma rnd_le_rep: "x \<le> y \<Longrightarrow> rnd y = y \<Longrightarrow> rnd x \<le> y"
  using rnd_mono [of x y] by simp

lemma rnd_ge_rep: "y \<le> x \<Longrightarrow> rnd y = y \<Longrightarrow> y \<le> rnd x"
  using rnd_mono [of y x] by simp

lemma rnd_abs: "\<bar>rnd x\<bar> = rnd \<bar>x\<bar>"
  using rnd_nonneg [of x] rnd_nonpos [of x] by (auto simp: abs_if rnd_neg)

end

text \<open>A lawful library: its rounding obeys the laws.\<close>

definition lawful :: "dlib \<Rightarrow> bool" where
  "lawful D \<longleftrightarrow> decimal_rounding (d_rnd D)"

lemma lawfulD: "lawful D \<Longrightarrow> decimal_rounding (d_rnd D)"
  by (simp add: lawful_def)

lemmas lawful_mono = decimal_rounding.rnd_mono [OF lawfulD]
lemmas lawful_zero = decimal_rounding.rnd_zero [OF lawfulD]
lemmas lawful_neg = decimal_rounding.rnd_neg [OF lawfulD]
lemmas lawful_idem = decimal_rounding.rnd_idem [OF lawfulD]
lemmas lawful_nonneg = decimal_rounding.rnd_nonneg [OF lawfulD]
lemmas lawful_nonpos = decimal_rounding.rnd_nonpos [OF lawfulD]
lemmas lawful_pos_imp = decimal_rounding.rnd_pos_imp [OF lawfulD]
lemmas lawful_le_rep = decimal_rounding.rnd_le_rep [OF lawfulD]
lemmas lawful_ge_rep = decimal_rounding.rnd_ge_rep [OF lawfulD]
lemmas lawful_abs = decimal_rounding.rnd_abs [OF lawfulD]

text \<open>Arithmetic of a run in which no result has to be rounded.\<close>

definition exact :: "dlib \<Rightarrow> bool" where
  "exact D \<longleftrightarrow> (\<forall>x. d_rnd D x = x)"

text \<open>
  A rounding of bounded error: the type keeps 28 decimals or 28 significant digits,
  whichever is coarser, so the error of a result is at most \<open>u\<close> on numbers below one and \<open>u\<close>
  times the result above.
\<close>

definition precise :: "dlib \<Rightarrow> rat \<Rightarrow> bool" where
  "precise D u \<longleftrightarrow> (\<forall>x. \<bar>d_rnd D x - x\<bar> \<le> u * (1 + \<bar>x\<bar>))"

lemma preciseD: "precise D u \<Longrightarrow> \<bar>d_rnd D x - x\<bar> \<le> u * (1 + \<bar>x\<bar>)"
  by (simp add: precise_def)

lemma precise_upper: "precise D u \<Longrightarrow> 0 \<le> x \<Longrightarrow> d_rnd D x \<le> x + u * (1 + x)"
  using preciseD [of D u x] by simp

lemma exact_precise: "exact D \<Longrightarrow> precise D 0"
  by (simp add: exact_def precise_def)

text \<open>
  The rounding of the type's usual range: 28 decimals, the nearest multiple, half away from
  zero. It is the instance of the laws, and with a parser of plain decimal text the library
  the witnesses run on.
\<close>

definition rnd28 :: "rat \<Rightarrow> rat" where
  "rnd28 x = sgn x * (of_int \<lfloor>\<bar>x\<bar> * 10 ^ 28 + 1 / 2\<rfloor> / 10 ^ 28)"

interpretation rnd28: decimal_rounding rnd28
proof unfold_locales
  define g where "g x = (of_int \<lfloor>\<bar>x\<bar> * 10 ^ 28 + 1 / 2\<rfloor> :: rat) / 10 ^ 28" for x :: rat
  have g: "rnd28 x = sgn x * g x" for x by (simp add: rnd28_def g_def)
  have g_nonneg: "0 \<le> g x" for x
  proof -
    have "0 \<le> \<bar>x\<bar> * 10 ^ 28 + 1 / 2" by (intro add_nonneg_nonneg mult_nonneg_nonneg) auto
    then show ?thesis by (simp add: g_def)
  qed
  have g_mono: "g x \<le> g y" if "\<bar>x\<bar> \<le> \<bar>y\<bar>" for x y
    using that unfolding g_def
    by (intro divide_right_mono) (simp_all add: floor_mono)
  have half: "\<lfloor>1 / 2 :: rat\<rfloor> = 0" by (simp add: floor_eq_iff)
  have g_idem: "g (g x) = g x" for x
    using g_nonneg [of x] by (simp add: g_def half)
  have g_abs: "g (s * g x) = g x" if "\<bar>s\<bar> = 1" for s x
  proof -
    have "g (s * g x) = g (g x)" using that by (simp add: g_def abs_mult)
    with g_idem show ?thesis by simp
  qed
  show "rnd28 (- x) = - rnd28 x" for x by (simp add: rnd28_def sgn_minus)
  show "rnd28 x \<le> rnd28 y" if le: "x \<le> y" for x y
  proof -
    consider "0 < x" | "y < 0" | "x \<le> 0" "0 \<le> y" by linarith
    then show ?thesis
    proof cases
      case 3
      then have "rnd28 x \<le> 0" "0 \<le> rnd28 y"
        using g_nonneg [of x] g_nonneg [of y] by (auto simp: g sgn_if)
      then show ?thesis by simp
    qed (use le g_mono [of x y] g_mono [of y x] in \<open>auto simp: g\<close>)
  qed
  show "rnd28 (rnd28 x) = rnd28 x" for x
  proof (cases "x = 0 \<or> g x = 0")
    case True
    then show ?thesis by (auto simp: g)
  next
    case False
    then have "sgn (sgn x * g x) = sgn x" "\<bar>sgn x\<bar> = 1"
      using g_nonneg [of x] by (auto simp: sgn_mult sgn_if)
    with g_abs show ?thesis by (simp add: g)
  qed
qed

subsection \<open>Sums and differences on a grid\<close>

text \<open>
  Prices and quantities are multiples of a smallest step. Where every multiple of the step
  is a value of the type, sums and differences of such numbers are exact.
\<close>

definition on_grid :: "rat \<Rightarrow> rat \<Rightarrow> bool" where
  "on_grid u x \<longleftrightarrow> (\<exists>k. x = of_int k * u)"

definition grid :: "dlib \<Rightarrow> rat \<Rightarrow> bool" where
  "grid D u \<longleftrightarrow> (\<forall>k. d_rnd D (of_int k * u) = of_int k * u)"

named_theorems grid_intros \<open>closure of the grid\<close>

lemma on_grid_zero [simp, grid_intros]: "on_grid u 0"
  by (auto simp: on_grid_def intro: exI [of _ 0])

lemma on_grid_add [grid_intros]: "on_grid u a \<Longrightarrow> on_grid u b \<Longrightarrow> on_grid u (a + b)"
  unfolding on_grid_def by (metis of_int_add distrib_right)

lemma on_grid_neg [grid_intros]: "on_grid u a \<Longrightarrow> on_grid u (- a)"
  unfolding on_grid_def by (metis of_int_minus mult_minus_left)

lemma on_grid_sub [grid_intros]: "on_grid u a \<Longrightarrow> on_grid u b \<Longrightarrow> on_grid u (a - b)"
  using on_grid_add [of u a "- b"] on_grid_neg [of u b] by simp

lemma on_grid_abs [grid_intros]: "on_grid u a \<Longrightarrow> on_grid u \<bar>a\<bar>"
  by (simp add: abs_if on_grid_neg)

lemma on_grid_min [grid_intros]: "on_grid u a \<Longrightarrow> on_grid u b \<Longrightarrow> on_grid u (min a b)"
  by (simp add: min_def)

lemma on_grid_one: "on_grid 1 (of_int k)"
  by (simp add: on_grid_def)

lemma grid_rnd: "grid D u \<Longrightarrow> on_grid u x \<Longrightarrow> d_rnd D x = x"
  by (auto simp: grid_def on_grid_def)

lemma grid_add: "grid D u \<Longrightarrow> on_grid u a \<Longrightarrow> on_grid u b \<Longrightarrow> d_add D a b = a + b"
  by (simp add: d_add_def grid_rnd on_grid_add)

lemma grid_sub: "grid D u \<Longrightarrow> on_grid u a \<Longrightarrow> on_grid u b \<Longrightarrow> d_sub D a b = a - b"
  by (simp add: d_sub_def grid_rnd on_grid_sub)

lemma on_grid_sum [grid_intros]: "(\<And>x. x \<in> set xs \<Longrightarrow> on_grid u x) \<Longrightarrow> on_grid u (sum_list xs)"
  by (induction xs) (simp_all add: on_grid_add)

lemma grid_foldl_add:
  "grid D u \<Longrightarrow> on_grid u a \<Longrightarrow> (\<And>x. x \<in> set xs \<Longrightarrow> on_grid u x) \<Longrightarrow>
    foldl (d_add D) a xs = a + sum_list xs"
  by (induction xs arbitrary: a) (simp_all add: grid_add on_grid_add)

lemma grid_sum: "grid D u \<Longrightarrow> (\<And>x. x \<in> set xs \<Longrightarrow> on_grid u x) \<Longrightarrow> d_sum D xs = sum_list xs"
  by (simp add: d_sum_def grid_foldl_add)

lemma exact_grid: "exact D \<Longrightarrow> grid D u"
  by (simp add: exact_def grid_def)

lemma exact_simps:
  "exact D \<Longrightarrow> d_add D a b = a + b" "exact D \<Longrightarrow> d_sub D a b = a - b"
  "exact D \<Longrightarrow> d_mul D a b = a * b" "exact D \<Longrightarrow> d_div D a b = a / b"
  by (simp_all add: exact_def d_add_def d_sub_def d_mul_def d_div_def)

lemma exact_sum: "exact D \<Longrightarrow> d_sum D xs = sum_list xs"
proof -
  assume e: "exact D"
  have "foldl (d_add D) a xs = a + sum_list xs" for a
    using e by (induction xs arbitrary: a) (simp_all add: exact_simps)
  then show ?thesis by (simp add: d_sum_def)
qed

lemma exact_lawful: "exact D \<Longrightarrow> lawful D"
  by (simp add: exact_def lawful_def decimal_rounding_def)

subsection \<open>Libraries the witnesses run on\<close>

text \<open>Plain decimal text: an optional sign, digits, and digits after a point.\<close>

definition digit_of :: "char \<Rightarrow> nat option" where
  "digit_of c = map_of (zip ''0123456789'' [0..<10]) c"

fun digits_value :: "nat \<Rightarrow> string \<Rightarrow> nat option" where
  "digits_value n [] = Some n"
| "digits_value n (c # cs) =
     (case digit_of c of Some d \<Rightarrow> digits_value (n * 10 + d) cs | None \<Rightarrow> None)"

definition parse_unsigned :: "string \<Rightarrow> rat option" where
  "parse_unsigned s = (let ip = takeWhile (\<lambda>c. c \<noteq> CHR ''.'') s; fp = drop (Suc (length ip)) s in
     map_option (\<lambda>n. of_nat n / 10 ^ length fp) (digits_value 0 (ip @ fp)))"

definition parse_plain :: "string \<Rightarrow> rat option" where
  "parse_plain s = (case s of
     c # cs \<Rightarrow> if c = CHR ''-'' then map_option uminus (parse_unsigned cs) else parse_unsigned s
   | [] \<Rightarrow> None)"

text \<open>The first keeps every result exact, the second rounds at 28 decimals.\<close>

definition exact_lib :: dlib where
  "exact_lib = \<lparr>d_rnd = (\<lambda>x. x), d_show = (\<lambda>x. fmt_f64 8 (Fin x)),
     d_to_f64 = (\<lambda>x. Some (round64 x)), d_parse = parse_plain, d_of_f32 = Some,
     d_of_f64 = (\<lambda>f. case f of Fin x \<Rightarrow> Some x | _ \<Rightarrow> None)\<rparr>"

definition lib28 :: dlib where
  "lib28 = exact_lib\<lparr>d_rnd := rnd28\<rparr>"

lemma exact_exact_lib [simp]: "exact exact_lib"
  by (simp add: exact_def exact_lib_def)

lemma lib_simps [simp]:
  "d_rnd exact_lib x = x" "d_to_f64 exact_lib x = Some (round64 x)" "d_parse exact_lib = parse_plain"
  "d_of_f32 exact_lib = Some" "d_to_f64 lib28 x = Some (round64 x)"
  "d_parse lib28 = parse_plain" "d_of_f32 lib28 = Some"
  "d_of_f64 exact_lib (Fin x) = Some x" "d_of_f64 lib28 (Fin x) = Some x"
  by (simp_all add: exact_lib_def lib28_def)

lemma exact_lib_arith [simp]:
  "d_add exact_lib a b = a + b" "d_sub exact_lib a b = a - b" "d_mul exact_lib a b = a * b"
  "d_div exact_lib a b = a / b"
  by (simp_all add: d_add_def d_sub_def d_mul_def d_div_def)

lemma parse_quarter: "parse_plain (fmt_f64 8 (Fin (1 / 4))) = Some (1 / 4)"
proof -
  have "rhe 25000000 = 25000000" using rhe_of_int [of 25000000] by simp
  then have "fmt_f64 8 (Fin (1 / 4)) = ''0.25000000''"
    by (simp add: show_fixed_def show_nat_def digits_rev.simps)
  moreover have "parse_plain ''0.25000000'' = Some (1 / 4)"
    by (simp add: parse_plain_def parse_unsigned_def digit_of_def upt_rec)
  ultimately show ?thesis by (simp only:)
qed

lemma lawful_lib28 [simp]: "lawful lib28"
  by (simp add: lawful_def lib28_def rnd28.decimal_rounding_axioms)

lemma rnd28_error: "\<bar>rnd28 x - x\<bar> \<le> 1 / 10 ^ 28"
proof -
  define k where "k = \<lfloor>\<bar>x\<bar> * 10 ^ 28 + 1 / 2\<rfloor>"
  have "\<bar>of_int k - \<bar>x\<bar> * 10 ^ 28\<bar> \<le> 1" unfolding k_def by linarith
  then have "\<bar>of_int k / 10 ^ 28 - \<bar>x\<bar>\<bar> \<le> 1 / 10 ^ 28"
    by (simp add: abs_le_iff field_simps)
  moreover have "rnd28 x = sgn x * (of_int k / 10 ^ 28)" by (simp add: rnd28_def k_def)
  ultimately show ?thesis by (auto simp: sgn_if abs_if split: if_splits)
qed

lemma precise_lib28 [simp]: "precise lib28 (1 / 10 ^ 28)"
  unfolding precise_def
proof
  fix x :: rat
  have "d_rnd lib28 x = rnd28 x" by (simp add: lib28_def)
  moreover have "1 / 10 ^ 28 \<le> 1 / 10 ^ 28 * (1 + \<bar>x\<bar>)" by simp
  ultimately show "\<bar>d_rnd lib28 x - x\<bar> \<le> 1 / 10 ^ 28 * (1 + \<bar>x\<bar>)"
    using rnd28_error [of x] by (simp only:)
qed

lemma rnd28_grid: "rnd28 (of_int k * (1 / 10 ^ 28)) = of_int k * (1 / 10 ^ 28)"
proof -
  have "\<lfloor>1 / 2 :: rat\<rfloor> = 0" by (simp add: floor_eq_iff)
  then show ?thesis by (cases "k = 0") (auto simp: rnd28_def sgn_if abs_if zero_less_mult_iff)
qed

lemma grid_lib28: "grid lib28 (1 / 10 ^ 28)"
proof -
  have "d_rnd lib28 = rnd28" by (simp add: lib28_def)
  then show ?thesis unfolding grid_def by (simp only: rnd28_grid) blast
qed

lemma grid_coarser:
  assumes "grid D u" and "u' = of_int k * u"
  shows "grid D u'"
  unfolding grid_def
proof
  fix j
  have "of_int j * u' = of_int (j * k) * u" using assms(2) by simp
  with assms(1) show "d_rnd D (of_int j * u') = of_int j * u'"
    by (metis grid_def)
qed

lemma grid_lib28_one [simp]: "grid lib28 1"
  by (rule grid_coarser [OF grid_lib28, of _ "10 ^ 28"]) simp

end
