(* ===== verification/PositionStore.thy ===== *)
theory PositionStore
  imports Decimals
begin

text \<open>
  \<open>qtss-risk/src/live_position_store.rs\<close>: the broker-filled positions in memory. A store
  holds the positions by id and, by tick key, the ids a tick of that key concerns. Each
  method is one definition on the state of the store; the two maps of the code sit behind
  locks that each method takes and releases, and the model runs the methods one at a time.
  The lemmas show that the index and the positions agree after every method, and that the
  store implements a map from ids to positions without an index.
\<close>

subsection \<open>Data\<close>

datatype position_mode = DryMode | LiveMode

datatype position_side = Buy | Sell

datatype market_segment = Spot | Futures | Margin | Options

fun segment_as_str :: "market_segment \<Rightarrow> string" where
  "segment_as_str Spot = ''spot''"
| "segment_as_str Futures = ''futures''"
| "segment_as_str Margin = ''margin''"
| "segment_as_str Options = ''options''"

fun can_liquidate :: "market_segment \<Rightarrow> bool" where
  "can_liquidate Futures = True"
| "can_liquidate Margin = True"
| "can_liquidate Options = True"
| "can_liquidate Spot = False"

definition to_ascii_lowercase :: "string \<Rightarrow> string" where
  "to_ascii_lowercase s =
     map (\<lambda>c. let n = of_char c :: nat in
            if 65 \<le> n \<and> n \<le> 90 then char_of (n + 32) else c) s"

definition segment_parse :: "string \<Rightarrow> market_segment option" where
  "segment_parse s = (let t = to_ascii_lowercase s in
     if t = ''spot'' then Some Spot
     else if t = ''futures'' \<or> t = ''perp'' \<or> t = ''perpetual'' then Some Futures
     else if t = ''margin'' then Some Margin
     else if t = ''options'' then Some Options
     else None)"

record tp_leg =
  leg_price :: dec
  leg_qty :: dec
  leg_filled :: dec

record live_position =
  lp_id :: uuid
  lp_setup_id :: "uuid option"
  lp_mode :: position_mode
  lp_exchange :: string
  lp_segment :: market_segment
  lp_symbol :: string
  lp_side :: position_side
  lp_leverage :: nat
  lp_entry_avg :: dec
  lp_qty_filled :: dec
  lp_qty_remaining :: dec
  lp_current_sl :: "dec option"
  lp_tp_ladder :: "tp_leg list"
  lp_liquidation_price :: "dec option"
  lp_maint_margin_ratio :: "dec option"
  lp_funding_rate_next :: "dec option"
  lp_last_mark :: "dec option"
  lp_last_tick_at :: "timestamp option"
  lp_opened_at :: timestamp

record tick_key =
  tk_mode :: position_mode
  tk_exchange :: string
  tk_segment :: market_segment
  tk_symbol :: string

definition key_of :: "live_position \<Rightarrow> tick_key" where
  "key_of p = \<lparr>tk_mode = lp_mode p, tk_exchange = lp_exchange p, tk_segment = lp_segment p,
     tk_symbol = lp_symbol p\<rparr>"

record position_store =
  by_id :: "(uuid, live_position) hmap"
  by_tick :: "(tick_key, uuid list) hmap"

subsection \<open>Operations\<close>

definition store_new :: position_store where
  "store_new = \<lparr>by_id = hm_empty, by_tick = hm_empty\<rparr>"

definition upsert :: "position_store \<Rightarrow> live_position \<Rightarrow> position_store" where
  "upsert s p = (let key = key_of p; pid = lp_id p;
       m = hm_insert pid p (by_id s);
       entry = (case hm_get (by_tick s) key of Some ids \<Rightarrow> ids | None \<Rightarrow> []);
       entry' = (if pid \<in> set entry then entry else entry @ [pid])
     in s\<lparr>by_id := m, by_tick := hm_insert key entry' (by_tick s)\<rparr>)"

definition set_mark :: "dec \<Rightarrow> timestamp \<Rightarrow> live_position \<Rightarrow> live_position" where
  "set_mark price ts p = p\<lparr>lp_last_mark := Some price, lp_last_tick_at := Some ts\<rparr>"

text \<open>The loop over the ids: each one still present gets the mark.\<close>

fun mark_ids ::
  "dec \<Rightarrow> timestamp \<Rightarrow> uuid list \<Rightarrow> (uuid, live_position) hmap \<Rightarrow> (uuid, live_position) hmap"
where
  "mark_ids price ts [] m = m"
| "mark_ids price ts (pid # ids) m =
     mark_ids price ts ids
       (case hm_get m pid of Some p \<Rightarrow> hm_insert pid (set_mark price ts p) m | None \<Rightarrow> m)"

definition update_mark ::
  "position_store \<Rightarrow> tick_key \<Rightarrow> dec \<Rightarrow> timestamp \<Rightarrow> position_store \<times> uuid list"
where
  "update_mark s key price ts =
     (let ids = (case hm_get (by_tick s) key of Some ids \<Rightarrow> ids | None \<Rightarrow> []) in
      if ids = [] then (s, ids) else (s\<lparr>by_id := mark_ids price ts ids (by_id s)\<rparr>, ids))"

definition store_get :: "position_store \<Rightarrow> uuid \<Rightarrow> live_position option" where
  "store_get s pid = hm_get (by_id s) pid"

definition store_remove :: "position_store \<Rightarrow> uuid \<Rightarrow> position_store" where
  "store_remove s pid =
     (case hm_get (by_id s) pid of
        None \<Rightarrow> s\<lparr>by_id := hm_remove pid (by_id s)\<rparr>
      | Some p \<Rightarrow>
          (let key = key_of p; s' = s\<lparr>by_id := hm_remove pid (by_id s)\<rparr> in
           case hm_get (by_tick s) key of
             None \<Rightarrow> s'
           | Some v \<Rightarrow>
               (let v' = filter (\<lambda>x. x \<noteq> pid) v in
                s'\<lparr>by_tick := (if v' = [] then hm_remove key (hm_insert key v' (by_tick s))
                              else hm_insert key v' (by_tick s))\<rparr>)))"

definition open_count :: "position_store \<Rightarrow> nat" where
  "open_count s = length (hm_keys (by_id s))"

definition tick_keys :: "position_store \<Rightarrow> tick_key list" where
  "tick_keys s = hm_keys (by_tick s)"

definition all_ids :: "position_store \<Rightarrow> uuid list" where
  "all_ids s = hm_keys (by_id s)"

subsection \<open>The parsed segment names\<close>

lemma segment_parse_as_str: "segment_parse (segment_as_str g) = Some g"
  by (cases g) (simp_all add: segment_parse_def to_ascii_lowercase_def)

subsection \<open>The index and the positions agree\<close>

definition indexed :: "position_store \<Rightarrow> tick_key \<Rightarrow> uuid set" where
  "indexed s k = (case hm_get (by_tick s) k of Some ids \<Rightarrow> set ids | None \<Rightarrow> {})"

definition store_inv :: "position_store \<Rightarrow> bool" where
  "store_inv s \<longleftrightarrow> hm_wf (by_id s) \<and> hm_wf (by_tick s)
     \<and> (\<forall>k ids. hm_get (by_tick s) k = Some ids \<longrightarrow> ids \<noteq> [] \<and> distinct ids)
     \<and> (\<forall>pid p. store_get s pid = Some p \<longrightarrow> lp_id p = pid)
     \<and> (\<forall>k pid. pid \<in> indexed s k \<longleftrightarrow> (\<exists>p. store_get s pid = Some p \<and> key_of p = k))"

lemma store_invD:
  assumes "store_inv s"
  shows "hm_wf (by_id s)" and "hm_wf (by_tick s)"
    and "hm_get (by_tick s) k = Some ids \<Longrightarrow> ids \<noteq> []"
    and "hm_get (by_tick s) k = Some ids \<Longrightarrow> distinct ids"
    and "store_get s pid = Some p \<Longrightarrow> lp_id p = pid"
    and "pid \<in> indexed s k \<longleftrightarrow> (\<exists>p. store_get s pid = Some p \<and> key_of p = k)"
  using assms by (auto simp: store_inv_def)

lemma store_inv_new: "store_inv store_new"
  by (simp add: store_inv_def store_new_def store_get_def indexed_def)

text \<open>Replacing a position keeps its tick key, as a fill or a scale of it does.\<close>

definition key_stable :: "position_store \<Rightarrow> live_position \<Rightarrow> bool" where
  "key_stable s p \<longleftrightarrow> (\<forall>q. store_get s (lp_id p) = Some q \<longrightarrow> key_of q = key_of p)"

lemma store_get_upsert [simp]:
  "store_get (upsert s p) pid = (if pid = lp_id p then Some p else store_get s pid)"
  by (simp add: store_get_def upsert_def Let_def)

lemma indexed_upsert:
  "indexed (upsert s p) k = (if k = key_of p then insert (lp_id p) (indexed s k) else indexed s k)"
  by (auto simp: indexed_def upsert_def Let_def split: option.splits)

lemma by_tick_upsert:
  "hm_get (by_tick (upsert s p)) k = Some ids \<Longrightarrow>
    hm_get (by_tick s) k = Some ids \<or>
    (\<exists>es. ids = es @ [lp_id p] \<and> lp_id p \<notin> set es \<and>
      (es = [] \<or> hm_get (by_tick s) k = Some es))"
  by (auto simp: upsert_def Let_def split: option.splits if_splits)

lemma upsert_inv:
  assumes inv: "store_inv s" and st: "key_stable s p"
  shows "store_inv (upsert s p)"
  unfolding store_inv_def
proof (intro conjI allI impI)
  show "hm_wf (by_id (upsert s p))" "hm_wf (by_tick (upsert s p))"
    using inv by (simp_all add: upsert_def Let_def store_invD)
  fix k ids
  assume "hm_get (by_tick (upsert s p)) k = Some ids"
  from by_tick_upsert [OF this] show "ids \<noteq> []" "distinct ids"
    using store_invD(3,4) [OF inv, of k] by auto
next
  fix pid q
  assume "store_get (upsert s p) pid = Some q"
  then show "lp_id q = pid" using inv by (auto simp: store_invD split: if_splits)
next
  fix k pid
  show "pid \<in> indexed (upsert s p) k \<longleftrightarrow> (\<exists>q. store_get (upsert s p) pid = Some q \<and> key_of q = k)"
    using st store_invD(6) [OF inv, of pid k] by (auto simp: indexed_upsert key_stable_def)
qed

lemma get_mark_ids [simp]:
  "hm_get (mark_ids price ts ids m) pid =
    (if pid \<in> set ids then map_option (set_mark price ts) (hm_get m pid) else hm_get m pid)"
proof (induction ids arbitrary: m)
  case (Cons i ids)
  have "set_mark price ts (set_mark price ts p) = set_mark price ts p" for p
    by (simp add: set_mark_def)
  then show ?case by (auto simp: Cons.IH split: option.splits)
qed simp

lemma wf_mark_ids: "hm_wf m \<Longrightarrow> hm_wf (mark_ids price ts ids m)"
  by (induction ids arbitrary: m) (auto split: option.splits)

lemma set_mark_simps [simp]:
  "key_of (set_mark price ts p) = key_of p" "lp_id (set_mark price ts p) = lp_id p"
  "lp_last_mark (set_mark price ts p) = Some price"
  by (simp_all add: set_mark_def key_of_def)

lemma by_tick_update_mark [simp]: "by_tick (fst (update_mark s k price ts)) = by_tick s"
  by (simp add: update_mark_def Let_def)

lemma ids_update_mark: "set (snd (update_mark s k price ts)) = indexed s k"
  by (simp add: update_mark_def Let_def indexed_def split: option.split)

lemma store_get_update_mark:
  "store_get (fst (update_mark s k price ts)) pid =
    (if pid \<in> indexed s k then map_option (set_mark price ts) (store_get s pid) else store_get s pid)"
  by (auto simp: update_mark_def Let_def indexed_def store_get_def split: option.split)

lemma update_mark_inv:
  assumes inv: "store_inv s"
  shows "store_inv (fst (update_mark s k price ts))"
proof -
  have "hm_wf (by_id (fst (update_mark s k price ts)))"
    using store_invD(1) [OF inv] by (simp add: update_mark_def Let_def wf_mark_ids)
  moreover have "indexed (fst (update_mark s k price ts)) k' = indexed s k'" for k'
    by (simp add: indexed_def)
  ultimately show ?thesis
    using inv unfolding store_inv_def
    by (auto simp: store_get_update_mark split: if_splits)
qed

lemma store_get_remove [simp]:
  "store_get (store_remove s pid) i = (if i = pid then None else store_get s i)"
  by (auto simp: store_remove_def store_get_def Let_def split: option.splits)

lemma indexed_remove:
  assumes inv: "store_inv s"
  shows "indexed (store_remove s pid) k = indexed s k - {pid}"
proof (cases "store_get s pid")
  case None
  then have "pid \<notin> indexed s k" using store_invD(6) [OF inv] by simp
  with None show ?thesis by (simp add: store_remove_def store_get_def indexed_def)
next
  case (Some p)
  define kp where "kp = key_of p"
  have rem: "indexed (store_remove s pid) k = (if k = kp then indexed s k - {pid} else indexed s k)"
    using Some
    by (cases "hm_get (by_tick s) kp")
      (auto simp: store_remove_def store_get_def indexed_def Let_def kp_def [symmetric] filter_empty_conv)
  have "k \<noteq> kp \<Longrightarrow> pid \<notin> indexed s k"
    using store_invD(6) [OF inv, of pid k] Some by (simp add: kp_def)
  with rem show ?thesis by auto
qed

lemma by_tick_remove:
  "hm_get (by_tick (store_remove s pid)) k = Some ids \<Longrightarrow>
    hm_get (by_tick s) k = Some ids \<or>
    (\<exists>v. hm_get (by_tick s) k = Some v \<and> ids = filter (\<lambda>x. x \<noteq> pid) v \<and> ids \<noteq> [])"
  by (auto simp: store_remove_def Let_def split: option.splits if_splits)

lemma remove_inv:
  assumes inv: "store_inv s"
  shows "store_inv (store_remove s pid)"
  unfolding store_inv_def
proof (intro conjI allI impI)
  show "hm_wf (by_id (store_remove s pid))" "hm_wf (by_tick (store_remove s pid))"
    using store_invD(1,2) [OF inv]
    by (simp_all add: store_remove_def Let_def split: option.splits)
  fix k ids
  assume "hm_get (by_tick (store_remove s pid)) k = Some ids"
  from by_tick_remove [OF this] show "ids \<noteq> []" "distinct ids"
    using store_invD(3) [OF inv, of k] store_invD(4) [OF inv, of k] by fastforce+
next
  fix i p
  assume "store_get (store_remove s pid) i = Some p"
  then show "lp_id p = i" using inv by (auto simp: store_invD split: if_splits)
next
  fix k i
  show "i \<in> indexed (store_remove s pid) k \<longleftrightarrow>
      (\<exists>p. store_get (store_remove s pid) i = Some p \<and> key_of p = k)"
    using store_invD(6) [OF inv, of i k] by (auto simp: indexed_remove [OF inv])
qed

subsection \<open>What a client of the store relies on\<close>

text \<open>
  The store as its clients see it: a map from ids to positions, and a tick that marks every
  position of its key and returns the ids of those.
\<close>

locale tick_store =
  fixes inv :: "'s \<Rightarrow> bool"
    and view :: "'s \<Rightarrow> uuid \<Rightarrow> live_position option"
    and mark :: "'s \<Rightarrow> tick_key \<Rightarrow> dec \<Rightarrow> timestamp \<Rightarrow> 's \<times> uuid list"
  assumes mark_inv: "inv s \<Longrightarrow> inv (fst (mark s k x t))"
    and mark_view: "inv s \<Longrightarrow> view (fst (mark s k x t)) i =
      map_option (\<lambda>p. if key_of p = k then set_mark x t p else p) (view s i)"
    and mark_ids: "inv s \<Longrightarrow> set (snd (mark s k x t)) = {i. \<exists>p. view s i = Some p \<and> key_of p = k}"
    and mark_distinct: "inv s \<Longrightarrow> distinct (snd (mark s k x t))"
    and view_id: "inv s \<Longrightarrow> view s i = Some p \<Longrightarrow> lp_id p = i"
begin

text \<open>A walk over the returned ids finds every position of the key, marked, and no other.\<close>

lemma marked_view:
  assumes "inv s" and "i \<in> set (snd (mark s k x t))"
  shows "\<exists>p. view s i = Some p \<and> key_of p = k \<and> view (fst (mark s k x t)) i = Some (set_mark x t p)"
proof -
  from assms obtain p where "view s i = Some p" "key_of p = k"
    using mark_ids [of s k x t] by auto
  with assms(1) show ?thesis by (simp add: mark_view)
qed

lemma fan_out:
  assumes "inv s"
  shows "set (List.map_filter (\<lambda>i. map_option f (view (fst (mark s k x t)) i)) (snd (mark s k x t)))
    = {f (set_mark x t p) | p i. view s i = Some p \<and> key_of p = k}" (is "?L = ?R")
proof (intro set_eqI iffI)
  fix y
  assume "y \<in> ?L"
  then obtain i where "i \<in> set (snd (mark s k x t))"
    and "map_option f (view (fst (mark s k x t)) i) = Some y"
    by (auto simp: List.map_filter_def)
  with marked_view [OF assms] show "y \<in> ?R" by fastforce
next
  fix y
  assume "y \<in> ?R"
  then obtain p i where p: "view s i = Some p" "key_of p = k" and y: "y = f (set_mark x t p)"
    by auto
  with assms have "i \<in> set (snd (mark s k x t))" by (auto simp: mark_ids)
  moreover have "view (fst (mark s k x t)) i = Some (set_mark x t p)"
    using assms p by (simp add: mark_view)
  ultimately show "y \<in> ?L" unfolding y by (force simp: List.map_filter_def)
qed

lemma fan_out_length:
  assumes "inv s"
  shows "length (List.map_filter (\<lambda>i. map_option f (view (fst (mark s k x t)) i)) (snd (mark s k x t)))
    = card {i. \<exists>p. view s i = Some p \<and> key_of p = k}"
proof -
  have "filter (\<lambda>i. view (fst (mark s k x t)) i \<noteq> None) (snd (mark s k x t)) = snd (mark s k x t)"
    using marked_view [OF assms] by (intro filter_True) fastforce
  then have "length (List.map_filter (\<lambda>i. map_option f (view (fst (mark s k x t)) i)) (snd (mark s k x t)))
      = length (snd (mark s k x t))"
    by (simp add: List.map_filter_def comp_def)
  also have "\<dots> = card (set (snd (mark s k x t)))"
    using mark_distinct [OF assms] by (simp add: distinct_card)
  finally show ?thesis using mark_ids [OF assms] by simp
qed

end

interpretation ts: tick_store store_inv store_get update_mark
proof unfold_locales
  fix s k x t i p
  assume inv: "store_inv s"
  show "store_inv (fst (update_mark s k x t))" using inv by (rule update_mark_inv)
  show "store_get (fst (update_mark s k x t)) i =
      map_option (\<lambda>p. if key_of p = k then set_mark x t p else p) (store_get s i)"
    using store_invD(6) [OF inv, of i k]
    by (cases "store_get s i") (auto simp: store_get_update_mark)
  show "set (snd (update_mark s k x t)) = {i. \<exists>p. store_get s i = Some p \<and> key_of p = k}"
    using store_invD(6) [OF inv] by (auto simp: ids_update_mark)
  show "distinct (snd (update_mark s k x t))"
    using store_invD(4) [OF inv] by (auto simp: update_mark_def Let_def split: option.split)
  show "store_get s i = Some p \<Longrightarrow> lp_id p = i" using inv by (rule store_invD)
qed

subsection \<open>Runs of the store\<close>

datatype store_op = Upsert live_position | Mark tick_key dec timestamp | Remove uuid

fun store_step :: "position_store \<Rightarrow> store_op \<Rightarrow> position_store" where
  "store_step s (Upsert p) = upsert s p"
| "store_step s (Mark k x t) = fst (update_mark s k x t)"
| "store_step s (Remove i) = store_remove s i"

text \<open>The same operations on a plain map, without an index.\<close>

fun map_step :: "(uuid \<rightharpoonup> live_position) \<Rightarrow> store_op \<Rightarrow> (uuid \<rightharpoonup> live_position)" where
  "map_step m (Upsert p) = m(lp_id p \<mapsto> p)"
| "map_step m (Mark k x t) =
     (\<lambda>i. map_option (\<lambda>p. if key_of p = k then set_mark x t p else p) (m i))"
| "map_step m (Remove i) = m(i := None)"

fun op_ok :: "(uuid \<rightharpoonup> live_position) \<Rightarrow> store_op \<Rightarrow> bool" where
  "op_ok m (Upsert p) = (case m (lp_id p) of None \<Rightarrow> True | Some q \<Rightarrow> key_of q = key_of p)"
| "op_ok m op = True"

fun ops_ok :: "(uuid \<rightharpoonup> live_position) \<Rightarrow> store_op list \<Rightarrow> bool" where
  "ops_ok m [] = True"
| "ops_ok m (x # xs) = (op_ok m x \<and> ops_ok (map_step m x) xs)"

lemma store_step_refines:
  assumes "store_inv s" and "op_ok (store_get s) x"
  shows "store_inv (store_step s x)" and "store_get (store_step s x) = map_step (store_get s) x"
  using assms
  by (cases x; auto simp: fun_eq_iff ts.mark_view update_mark_inv remove_inv key_stable_def
      intro!: upsert_inv split: option.splits)+

lemma store_run_refines:
  assumes "store_inv s" and "ops_ok (store_get s) xs"
  shows "store_inv (foldl store_step s xs) \<and>
    store_get (foldl store_step s xs) = foldl map_step (store_get s) xs"
  using assms
proof (induction xs arbitrary: s)
  case (Cons x xs)
  then have "store_inv (store_step s x)" "store_get (store_step s x) = map_step (store_get s) x"
    using store_step_refines by auto
  with Cons show ?case by simp
qed simp

definition sample_position :: "uuid \<Rightarrow> market_segment \<Rightarrow> live_position" where
  "sample_position i g = \<lparr>lp_id = i, lp_setup_id = None, lp_mode = DryMode,
     lp_exchange = ''binance'', lp_segment = g, lp_symbol = ''BTCUSDT'', lp_side = Buy,
     lp_leverage = 10, lp_entry_avg = 100, lp_qty_filled = 1, lp_qty_remaining = 1,
     lp_current_sl = Some 95, lp_tp_ladder = [], lp_liquidation_price = Some 90,
     lp_maint_margin_ratio = Some (5 / 1000), lp_funding_rate_next = None,
     lp_last_mark = None, lp_last_tick_at = None, lp_opened_at = 0\<rparr>"

text \<open>
  C3. The store refines a plain map from ids to positions: after any run of \<open>upsert\<close>,
  \<open>update_mark\<close> and \<open>remove\<close> on a fresh store in which a replaced position keeps its tick
  key, every lookup gives what the map gives, and the tick index lists exactly the positions
  of each key, without duplicates or empty entries.
\<close>

theorem store_refines_map:
  assumes "ops_ok Map.empty xs"
  shows "store_get (foldl store_step store_new xs) = foldl map_step Map.empty xs
    \<and> store_inv (foldl store_step store_new xs)"
proof -
  have "store_get store_new = Map.empty"
    by (simp add: store_get_def store_new_def fun_eq_iff)
  with assms show ?thesis
    using store_run_refines [OF store_inv_new, of xs] by simp
qed

theorem store_refines_map_witness:
  "store_get (foldl store_step store_new
      [Upsert (sample_position 7 Futures), Mark (key_of (sample_position 7 Futures)) 101 5,
       Remove 8]) 7 = Some (set_mark 101 5 (sample_position 7 Futures))"
  by (subst store_refines_map [THEN conjunct1]) (simp_all add: sample_position_def)

text \<open>
  C21. A tick touches the positions of its key and nothing else: with the index in
  agreement, \<open>update_mark\<close> returns each id of the key once, gives those positions the price
  and the time as their last mark, and leaves every other position and the index alone.
\<close>

theorem update_mark_exact:
  assumes "store_inv s"
  shows "distinct (snd (update_mark s k x t))
    \<and> set (snd (update_mark s k x t)) = {i. \<exists>p. store_get s i = Some p \<and> key_of p = k}
    \<and> (\<forall>i. store_get (fst (update_mark s k x t)) i =
         map_option (\<lambda>p. if key_of p = k then set_mark x t p else p) (store_get s i))
    \<and> by_tick (fst (update_mark s k x t)) = by_tick s"
  using ts.mark_distinct [OF assms] ts.mark_ids [OF assms] ts.mark_view [OF assms] by simp

theorem update_mark_exact_witness:
  "snd (update_mark (upsert store_new (sample_position 7 Spot)) (key_of (sample_position 7 Spot)) 3 4)
    = [7] \<and>
   by_tick (fst (update_mark (upsert store_new (sample_position 7 Spot))
      (key_of (sample_position 7 Spot)) 3 4)) = by_tick (upsert store_new (sample_position 7 Spot))"
proof -
  have "store_inv (upsert store_new (sample_position 7 Spot))"
    by (intro upsert_inv store_inv_new)
      (simp add: key_stable_def store_get_def store_new_def)
  from update_mark_exact [OF this, of "key_of (sample_position 7 Spot)" 3 4]
  show ?thesis by (simp add: update_mark_def upsert_def store_new_def sample_position_def Let_def)
qed

text \<open>
  C33. \<open>upsert\<close> does not move an index entry: when a position is replaced by one of the
  same id under another tick key, a tick of the old key still marks it, although the
  store's documentation says that ticks of one venue must not update the other.
\<close>

theorem stale_index_after_key_change:
  assumes "lp_id q = lp_id p" and "key_of q \<noteq> key_of p"
  shows "store_get (fst (update_mark (upsert (upsert store_new p) q) (key_of p) x t)) (lp_id q)
    = Some (set_mark x t q)"
  using assms
  by (simp add: store_get_update_mark indexed_upsert)

theorem stale_index_after_key_change_witness:
  "store_get (fst (update_mark
      (upsert (upsert store_new (sample_position 7 Spot)) (sample_position 7 Futures))
      (key_of (sample_position 7 Spot)) 3 4)) 7 = Some (set_mark 3 4 (sample_position 7 Futures))"
  using stale_index_after_key_change [of "sample_position 7 Futures" "sample_position 7 Spot" 3 4]
  by (simp add: sample_position_def key_of_def)

end
