(* ===== verification/LiquidationGuard.thy ===== *)
theory LiquidationGuard
  imports PositionStore
begin

text \<open>
  \<open>qtss-risk/src/liquidation_guard.rs\<close>: how close a live position is to its liquidation
  price, the action that follows, and the row that is persisted for it.
\<close>

datatype liq_severity = LiqSafe | LiqWarn | LiqCritical | LiqBreach

datatype liq_action = ActNone | ActAlert | ActAddMargin | ActScaleOut | ActPanicClose

record liq_config =
  warn_distance_pct :: dec
  critical_distance_pct :: dec
  panic_close_distance_pct :: dec
  min_add_margin_headroom :: dec

definition liq_config_default :: liq_config where
  "liq_config_default = \<lparr>warn_distance_pct = 8 / 100, critical_distance_pct = 4 / 100,
     panic_close_distance_pct = 15 / 1000, min_add_margin_headroom = 0\<rparr>"

record margin_context =
  free_margin :: "dec option"

record liq_assessment =
  la_severity :: liq_severity
  la_action :: liq_action
  la_mark :: dec
  la_liquidation :: dec
  la_distance_pct :: dec

definition critical_action :: "margin_context \<Rightarrow> liq_config \<Rightarrow> liq_action" where
  "critical_action margin cfg = (case free_margin margin of
     Some free \<Rightarrow> if min_add_margin_headroom cfg \<le> free \<and> 0 < free then ActAddMargin else ActScaleOut
   | None \<Rightarrow> ActScaleOut)"

fun pick_action :: "liq_severity \<Rightarrow> margin_context \<Rightarrow> liq_config \<Rightarrow> liq_action" where
  "pick_action LiqSafe margin cfg = ActNone"
| "pick_action LiqWarn margin cfg = ActAlert"
| "pick_action LiqBreach margin cfg = ActPanicClose"
| "pick_action LiqCritical margin cfg = critical_action margin cfg"

definition severity_of :: "liq_config \<Rightarrow> dec \<Rightarrow> liq_severity" where
  "severity_of cfg distance_pct =
     (if distance_pct \<le> panic_close_distance_pct cfg then LiqBreach
      else if distance_pct \<le> critical_distance_pct cfg then LiqCritical
      else if distance_pct \<le> warn_distance_pct cfg then LiqWarn
      else LiqSafe)"

definition assess_with_margin ::
  "dlib \<Rightarrow> live_position \<Rightarrow> liq_config \<Rightarrow> margin_context \<Rightarrow> liq_assessment option"
where
  "assess_with_margin D p cfg margin =
     (if \<not> can_liquidate (lp_segment p) then None
      else case lp_last_mark p of None \<Rightarrow> None | Some mark \<Rightarrow>
      (case lp_liquidation_price p of None \<Rightarrow> None | Some liq \<Rightarrow>
        if mark \<le> 0 \<or> liq \<le> 0 then None
        else let diff = (if mark < liq then d_sub D liq mark else d_sub D mark liq);
               distance_pct = d_div D diff mark;
               severity = severity_of cfg distance_pct;
               action = pick_action severity margin cfg
             in Some \<lparr>la_severity = severity, la_action = action, la_mark = mark,
                  la_liquidation = liq, la_distance_pct = distance_pct\<rparr>))"

definition assess :: "dlib \<Rightarrow> live_position \<Rightarrow> liq_config \<Rightarrow> liq_assessment option" where
  "assess D p cfg = assess_with_margin D p cfg \<lparr>free_margin = None\<rparr>"

fun severity_db_tag :: "liq_severity \<Rightarrow> string option" where
  "severity_db_tag LiqSafe = None"
| "severity_db_tag LiqWarn = Some ''warn''"
| "severity_db_tag LiqCritical = Some ''high''"
| "severity_db_tag LiqBreach = Some ''breach''"

fun action_db_tag :: "liq_action \<Rightarrow> string" where
  "action_db_tag ActNone = ''none''"
| "action_db_tag ActAlert = ''alert''"
| "action_db_tag ActAddMargin = ''add_margin''"
| "action_db_tag ActScaleOut = ''scale_out''"
| "action_db_tag ActPanicClose = ''panic_close''"

record liq_event_dto =
  ev_position_id :: uuid
  ev_severity :: string
  ev_action :: string
  ev_mark_price :: dec
  ev_liquidation_price :: dec
  ev_distance_pct :: dec
  ev_margin_ratio :: "dec option"
  ev_free_margin :: "dec option"

definition from_assessment ::
  "uuid \<Rightarrow> live_position \<Rightarrow> liq_assessment \<Rightarrow> margin_context \<Rightarrow> liq_event_dto option"
where
  "from_assessment i p a margin = (case severity_db_tag (la_severity a) of
     None \<Rightarrow> None
   | Some severity \<Rightarrow> Some \<lparr>ev_position_id = i, ev_severity = severity,
       ev_action = action_db_tag (la_action a), ev_mark_price = la_mark a,
       ev_liquidation_price = la_liquidation a, ev_distance_pct = la_distance_pct a,
       ev_margin_ratio = lp_maint_margin_ratio p, ev_free_margin = free_margin margin\<rparr>)"

subsection \<open>The severity ladder\<close>

fun severity_rank :: "liq_severity \<Rightarrow> nat" where
  "severity_rank LiqSafe = 0"
| "severity_rank LiqWarn = 1"
| "severity_rank LiqCritical = 2"
| "severity_rank LiqBreach = 3"

lemma severity_of_antimono: "d \<le> d' \<Longrightarrow> severity_rank (severity_of cfg d') \<le> severity_rank (severity_of cfg d)"
  by (auto simp: severity_of_def)

lemma assess_with_margin_SomeE:
  assumes "assess_with_margin D p cfg margin = Some a"
  obtains mark liq where "can_liquidate (lp_segment p)" "lp_last_mark p = Some mark"
    "lp_liquidation_price p = Some liq" "0 < mark" "0 < liq"
    "la_distance_pct a = d_div D (if mark < liq then d_sub D liq mark else d_sub D mark liq) mark"
    "la_severity a = severity_of cfg (la_distance_pct a)"
    "la_action a = pick_action (la_severity a) margin cfg"
    "la_mark a = mark" "la_liquidation a = liq"
  using assms
  by (auto simp: assess_with_margin_def Let_def not_le split: if_splits option.splits)

lemma assess_distance:
  assumes "grid D u" "on_grid u m" "on_grid u liq"
    and "lp_last_mark p = Some m" "lp_liquidation_price p = Some liq"
    and "assess_with_margin D p cfg margin = Some a"
  shows "0 < m" and "0 < liq" and "la_distance_pct a = d_rnd D (\<bar>liq - m\<bar> / m)"
    and "la_severity a = severity_of cfg (la_distance_pct a)"
  using assms
  by (auto simp: assess_with_margin_def Let_def not_le d_div_def grid_sub split: if_splits)

lemma pick_action_iff:
  "pick_action s m cfg = ActNone \<longleftrightarrow> s = LiqSafe"
  "pick_action s m cfg = ActPanicClose \<longleftrightarrow> s = LiqBreach"
  "pick_action s m cfg = ActAlert \<longleftrightarrow> s = LiqWarn"
  by (cases s; simp add: critical_action_def split: option.split)+

text \<open>
  C8. The guard never relaxes as the market moves toward liquidation: of two marks of one
  position on the same side of its liquidation price, the nearer one gets a severity at
  least as high, for any thresholds and any lawful rounding.
\<close>

theorem severity_monotone_towards_liquidation:
  assumes law: "lawful D" and g: "grid D u" and on: "on_grid u m1" "on_grid u m2" "on_grid u liq"
    and liq: "lp_liquidation_price p = Some liq"
    and near: "liq \<le> m1 \<and> m1 \<le> m2 \<or> m2 \<le> m1 \<and> m1 \<le> liq"
    and a1: "assess_with_margin D (p\<lparr>lp_last_mark := Some m1\<rparr>) cfg margin1 = Some a1"
    and a2: "assess_with_margin D (p\<lparr>lp_last_mark := Some m2\<rparr>) cfg margin2 = Some a2"
  shows "severity_rank (la_severity a2) \<le> severity_rank (la_severity a1)"
proof -
  note d1 = assess_distance [OF g on(1,3) _ _ a1, simplified, OF liq]
    and d2 = assess_distance [OF g on(2,3) _ _ a2, simplified, OF liq]
  note pos = d1(1,2) and pos2 = d2(1)
  have "\<bar>liq - m1\<bar> / m1 \<le> \<bar>liq - m2\<bar> / m2"
  proof (cases "liq \<le> m1 \<and> m1 \<le> m2")
    case True
    then have "liq / m2 \<le> liq / m1" using pos by (intro divide_left_mono) auto
    with True pos pos2 show ?thesis by (simp add: diff_divide_distrib)
  next
    case False
    with near have "m2 \<le> m1" "m1 \<le> liq" by auto
    moreover from this have "liq / m1 \<le> liq / m2" using pos pos2 by (intro divide_left_mono) auto
    ultimately show ?thesis using pos pos2 by (simp add: diff_divide_distrib)
  qed
  then have "la_distance_pct a1 \<le> la_distance_pct a2"
    unfolding d1(3) d2(3) by (rule lawful_mono [OF law])
  then show ?thesis unfolding d1(4) d2(4) by (rule severity_of_antimono)
qed

theorem severity_monotone_towards_liquidation_witness:
  "\<exists>a1 a2. assess_with_margin exact_lib ((sample_position 7 Futures)\<lparr>lp_last_mark := Some 91\<rparr>)
      liq_config_default \<lparr>free_margin = None\<rparr> = Some a1
    \<and> assess_with_margin exact_lib ((sample_position 7 Futures)\<lparr>lp_last_mark := Some 200\<rparr>)
      liq_config_default \<lparr>free_margin = None\<rparr> = Some a2
    \<and> la_severity a1 = LiqBreach \<and> severity_rank (la_severity a2) \<le> severity_rank (la_severity a1)"
proof -
  let ?p = "sample_position 7 Futures" and ?m = "\<lparr>free_margin = None\<rparr>"
  obtain a1 where a1: "assess_with_margin exact_lib (?p\<lparr>lp_last_mark := Some 91\<rparr>) liq_config_default ?m = Some a1"
    and b1: "la_severity a1 = LiqBreach"
    by (simp add: assess_with_margin_def sample_position_def Let_def exact_simps severity_of_def
        liq_config_default_def)
  obtain a2 where a2: "assess_with_margin exact_lib (?p\<lparr>lp_last_mark := Some 200\<rparr>) liq_config_default ?m = Some a2"
    by (simp add: assess_with_margin_def sample_position_def Let_def)
  have "on_grid 1 (91 :: rat)" "on_grid 1 (200 :: rat)" "on_grid 1 (90 :: rat)"
    using on_grid_one [of 91] on_grid_one [of 200] on_grid_one [of 90] by simp_all
  with a1 a2 b1 show ?thesis
    using severity_monotone_towards_liquidation [of exact_lib 1 91 200 90 ?p liq_config_default ?m a1 ?m a2]
    by (auto simp: exact_lawful exact_grid sample_position_def)
qed

text \<open>
  C22. What is done and what is persisted agree: a spot position is never assessed; otherwise
  the assessment panics exactly within the panic distance, acts exactly when a row is
  persisted for it, adds margin only when the free margin is positive and reaches the
  headroom, and the persisted tags are those of the event table.
\<close>

theorem assessment_action_table:
  assumes "assess_with_margin D p cfg margin = Some a"
  shows "lp_segment p \<noteq> Spot
    \<and> (la_action a = ActPanicClose \<longleftrightarrow> la_distance_pct a \<le> panic_close_distance_pct cfg)
    \<and> (la_action a = ActNone \<longleftrightarrow> from_assessment i p a margin = None)
    \<and> (la_action a = ActAddMargin \<longrightarrow> (\<exists>f. free_margin margin = Some f \<and> 0 < f
          \<and> min_add_margin_headroom cfg \<le> f))
    \<and> (\<forall>ev. from_assessment i p a margin = Some ev \<longrightarrow>
          ev_severity ev \<in> {''warn'', ''high'', ''breach''} \<and> ev_action ev \<noteq> ''none'')"
  using assms
proof (rule assess_with_margin_SomeE)
  assume seg: "can_liquidate (lp_segment p)"
    and sev: "la_severity a = severity_of cfg (la_distance_pct a)"
    and act: "la_action a = pick_action (la_severity a) margin cfg"
  have "la_severity a = LiqBreach \<longleftrightarrow> la_distance_pct a \<le> panic_close_distance_pct cfg"
    by (auto simp: sev severity_of_def)
  moreover have "from_assessment i p a margin = None \<longleftrightarrow> la_severity a = LiqSafe"
    by (cases "la_severity a") (simp_all add: from_assessment_def)
  moreover have "la_action a = ActAddMargin \<longrightarrow> (\<exists>f. free_margin margin = Some f \<and> 0 < f
      \<and> min_add_margin_headroom cfg \<le> f)"
    by (cases "la_severity a") (auto simp: act critical_action_def split: option.splits if_splits)
  moreover have "ev_severity ev \<in> {''warn'', ''high'', ''breach''} \<and> ev_action ev \<noteq> ''none''"
    if "from_assessment i p a margin = Some ev" for ev
    using that by (cases "la_severity a") (auto simp: from_assessment_def act critical_action_def
        split: option.splits if_splits)
  ultimately show ?thesis using seg by (cases "lp_segment p") (auto simp: act pick_action_iff)
qed

theorem assessment_action_table_witness:
  "\<exists>a. assess_with_margin exact_lib ((sample_position 7 Futures)\<lparr>lp_last_mark := Some 93\<rparr>)
      liq_config_default \<lparr>free_margin = Some 5\<rparr> = Some a
    \<and> la_action a = ActAddMargin \<and> la_action a \<noteq> ActPanicClose
    \<and> \<not> la_distance_pct a \<le> panic_close_distance_pct liq_config_default"
proof -
  let ?p = "(sample_position 7 Futures)\<lparr>lp_last_mark := Some 93\<rparr>" and ?m = "\<lparr>free_margin = Some 5\<rparr>"
  obtain a where a: "assess_with_margin exact_lib ?p liq_config_default ?m = Some a"
    and act: "la_action a = ActAddMargin"
    by (simp add: assess_with_margin_def sample_position_def Let_def exact_simps severity_of_def
        liq_config_default_def critical_action_def)
  then show ?thesis using assessment_action_table [OF a, of 0] by auto
qed

end
