(* ===== verification/ScaleManager.thy ===== *)
theory ScaleManager
  imports PositionStore
begin

text \<open>
  \<open>qtss-risk/src/scale_manager.rs\<close>: the ladder of rules that grow or shrink a live position.
  A rule is a value with a tag and an evaluation, as the trait objects of the registry are;
  the registry answers with the first rule that fires.
\<close>

datatype scale_kind = Hold | PyramidIn | ScaleOut | AddOnDip | PartialTp

record scale_decision =
  sd_kind :: scale_kind
  sd_qty_delta :: dec
  sd_reason :: string

definition scale_hold :: scale_decision where
  "scale_hold = \<lparr>sd_kind = Hold, sd_qty_delta = 0, sd_reason = ''no scale condition met''\<rparr>"

record scale_config =
  sc_enabled :: bool
  sc_max_pyramid_legs :: nat
  sc_pyramid_trigger_r :: f64
  sc_pyramid_leg_pct :: f64
  sc_scale_out_r :: f64
  sc_scale_out_pct :: f64
  sc_add_on_dip_atr_mult :: f64
  sc_add_on_dip_pct :: f64

definition scale_config_default :: scale_config where
  "scale_config_default = \<lparr>sc_enabled = True, sc_max_pyramid_legs = 2,
     sc_pyramid_trigger_r = Fin 1, sc_pyramid_leg_pct = round64 (5 / 10),
     sc_scale_out_r = Fin 2, sc_scale_out_pct = round64 (33 / 100),
     sc_add_on_dip_atr_mult = Fin 1, sc_add_on_dip_pct = round64 (25 / 100)\<rparr>"

record scale_context =
  ctx_atr :: "dec option"
  ctx_initial_risk_per_unit :: "dec option"
  ctx_pyramid_legs_added :: nat
  ctx_scale_out_milestones_hit :: nat
  ctx_best_price :: "dec option"

definition unrealised_r :: "dlib \<Rightarrow> live_position \<Rightarrow> scale_context \<Rightarrow> f64 option" where
  "unrealised_r D p ctx = (case lp_last_mark p of None \<Rightarrow> None | Some mark \<Rightarrow>
     (case ctx_initial_risk_per_unit ctx of None \<Rightarrow> None | Some risk \<Rightarrow>
       if risk \<le> 0 then None
       else let diff = (case lp_side p of
                Buy \<Rightarrow> d_sub D mark (lp_entry_avg p)
              | Sell \<Rightarrow> d_sub D (lp_entry_avg p) mark)
            in d_to_f64 D (d_div D diff risk)))"

record scale_rule =
  sr_tag :: string
  sr_evaluate :: "live_position \<Rightarrow> scale_context \<Rightarrow> scale_config \<Rightarrow> scale_decision option"

text \<open>The part of the remaining quantity a rule moves.\<close>

definition part_of_remaining :: "dlib \<Rightarrow> live_position \<Rightarrow> f64 \<Rightarrow> dec" where
  "part_of_remaining D p pct = f64_to_decimal D (f64_mul (decimal_to_f64 D (lp_qty_remaining p)) pct)"

definition pyramid_in_rule :: "dlib \<Rightarrow> scale_rule" where
  "pyramid_in_rule D = \<lparr>sr_tag = ''pyramid_in'', sr_evaluate = (\<lambda>p ctx cfg.
     if sc_max_pyramid_legs cfg \<le> ctx_pyramid_legs_added ctx then None
     else case unrealised_r D p ctx of None \<Rightarrow> None | Some r \<Rightarrow>
       if f64_lt r (sc_pyramid_trigger_r cfg) then None
       else let add = part_of_remaining D p (sc_pyramid_leg_pct cfg) in
         if add \<le> 0 then None
         else Some \<lparr>sd_kind = PyramidIn, sd_qty_delta = add,
                sd_reason = ''unrealised R above pyramid trigger''\<rparr>)\<rparr>"

definition scale_out_rule :: "dlib \<Rightarrow> scale_rule" where
  "scale_out_rule D = \<lparr>sr_tag = ''scale_out'', sr_evaluate = (\<lambda>p ctx cfg.
     case unrealised_r D p ctx of None \<Rightarrow> None | Some r \<Rightarrow>
       let due = f64_to_i64 (f64_floor (f64_div r (sc_scale_out_r cfg))) in
       if due \<le> int (ctx_scale_out_milestones_hit ctx) then None
       else let reduce = part_of_remaining D p (sc_scale_out_pct cfg) in
         if reduce \<le> 0 then None
         else Some \<lparr>sd_kind = ScaleOut, sd_qty_delta = - reduce,
                sd_reason = ''scale-out milestone reached''\<rparr>)\<rparr>"

fun dip_of :: "dlib \<Rightarrow> position_side \<Rightarrow> dec \<Rightarrow> dec \<Rightarrow> dec option" where
  "dip_of D Buy best mark = (if mark < best then Some (d_sub D best mark) else None)"
| "dip_of D Sell best mark = (if best < mark then Some (d_sub D mark best) else None)"

fun still_favourable :: "position_side \<Rightarrow> dec \<Rightarrow> dec \<Rightarrow> bool" where
  "still_favourable Buy mark entry = (entry < mark)"
| "still_favourable Sell mark entry = (mark < entry)"

definition add_on_dip_rule :: "dlib \<Rightarrow> scale_rule" where
  "add_on_dip_rule D = \<lparr>sr_tag = ''add_on_dip'', sr_evaluate = (\<lambda>p ctx cfg.
     case ctx_atr ctx of None \<Rightarrow> None | Some atr \<Rightarrow>
     if atr \<le> 0 then None
     else case lp_last_mark p of None \<Rightarrow> None | Some mark \<Rightarrow>
     (case ctx_best_price ctx of None \<Rightarrow> None | Some best \<Rightarrow>
     (case dip_of D (lp_side p) best mark of None \<Rightarrow> None | Some dip \<Rightarrow>
       if f64_lt (f64_div (decimal_to_f64 D dip) (decimal_to_f64 D atr)) (sc_add_on_dip_atr_mult cfg)
       then None
       else if \<not> still_favourable (lp_side p) mark (lp_entry_avg p) then None
       else let add = part_of_remaining D p (sc_add_on_dip_pct cfg) in
         if add \<le> 0 then None
         else Some \<lparr>sd_kind = AddOnDip, sd_qty_delta = add,
                sd_reason = ''pullback exceeded ATR threshold while still favourable''\<rparr>)))\<rparr>"

definition scale_registry_defaults :: "dlib \<Rightarrow> scale_rule list" where
  "scale_registry_defaults D = [scale_out_rule D, pyramid_in_rule D, add_on_dip_rule D]"

definition scale_registry_evaluate ::
  "scale_rule list \<Rightarrow> live_position \<Rightarrow> scale_context \<Rightarrow> scale_config \<Rightarrow> scale_decision"
where
  "scale_registry_evaluate rules p ctx cfg =
     (if \<not> sc_enabled cfg then scale_hold
      else case first_some (\<lambda>r. sr_evaluate r p ctx cfg) rules of
        Some d \<Rightarrow> d | None \<Rightarrow> scale_hold)"

definition scale_evaluate :: "live_position \<Rightarrow> scale_config \<Rightarrow> scale_decision" where
  "scale_evaluate p cfg = scale_hold"

definition scale_evaluate_with_context ::
  "dlib \<Rightarrow> live_position \<Rightarrow> scale_context \<Rightarrow> scale_config \<Rightarrow> scale_decision"
where
  "scale_evaluate_with_context D p ctx cfg =
     scale_registry_evaluate (scale_registry_defaults D) p ctx cfg"

subsection \<open>What each rule guarantees when it fires\<close>

lemma pyramid_in_SomeD:
  assumes "sr_evaluate (pyramid_in_rule D) p ctx cfg = Some d"
  shows "sd_kind d = PyramidIn" "0 < sd_qty_delta d"
    and "ctx_pyramid_legs_added ctx < sc_max_pyramid_legs cfg"
    and "\<exists>r. unrealised_r D p ctx = Some r \<and> \<not> f64_lt r (sc_pyramid_trigger_r cfg)"
  using assms
  by (auto simp: pyramid_in_rule_def Let_def not_le split: if_splits option.splits)

lemma scale_out_SomeD:
  assumes "sr_evaluate (scale_out_rule D) p ctx cfg = Some d"
  shows "sd_kind d = ScaleOut" "sd_qty_delta d < 0"
    and "\<exists>r. unrealised_r D p ctx = Some r \<and> int (ctx_scale_out_milestones_hit ctx)
           < f64_to_i64 (f64_floor (f64_div r (sc_scale_out_r cfg)))"
  using assms
  by (auto simp: scale_out_rule_def Let_def not_le split: if_splits option.splits)

lemma add_on_dip_SomeD:
  assumes "sr_evaluate (add_on_dip_rule D) p ctx cfg = Some d"
  shows "sd_kind d = AddOnDip" "0 < sd_qty_delta d"
    and "\<exists>m b. lp_last_mark p = Some m \<and> ctx_best_price ctx = Some b
           \<and> still_favourable (lp_side p) m (lp_entry_avg p)
           \<and> (case lp_side p of Buy \<Rightarrow> m < b | Sell \<Rightarrow> b < m)"
  using assms
  by (auto simp: add_on_dip_rule_def Let_def not_le split: if_splits option.splits position_side.splits)

lemma scale_default_cases:
  assumes "scale_evaluate_with_context D p ctx cfg = d"
  obtains "d = scale_hold"
    | "sc_enabled cfg" "sr_evaluate (scale_out_rule D) p ctx cfg = Some d"
    | "sc_enabled cfg" "sr_evaluate (scale_out_rule D) p ctx cfg = None"
      "sr_evaluate (pyramid_in_rule D) p ctx cfg = Some d"
    | "sc_enabled cfg" "sr_evaluate (scale_out_rule D) p ctx cfg = None"
      "sr_evaluate (pyramid_in_rule D) p ctx cfg = None"
      "sr_evaluate (add_on_dip_rule D) p ctx cfg = Some d"
  using assms
  by (auto simp: scale_evaluate_with_context_def scale_registry_evaluate_def
      scale_registry_defaults_def split: if_splits option.splits)


definition sample_context :: scale_context where
  "sample_context = \<lparr>ctx_atr = Some 2, ctx_initial_risk_per_unit = Some 2,
     ctx_pyramid_legs_added = 0, ctx_scale_out_milestones_hit = 0, ctx_best_price = Some 104\<rparr>"

definition sample_scale_config :: scale_config where
  "sample_scale_config = scale_config_default\<lparr>sc_scale_out_pct := Fin (1 / 4)\<rparr>"

lemma sample_scale_out:
  "sr_evaluate (scale_out_rule exact_lib) ((sample_position 7 Futures)\<lparr>lp_last_mark := Some 104\<rparr>)
     sample_context sample_scale_config
    = Some \<lparr>sd_kind = ScaleOut, sd_qty_delta = - (1 / 4), sd_reason = ''scale-out milestone reached''\<rparr>"
  by (simp add: scale_out_rule_def unrealised_r_def part_of_remaining_def f64_to_decimal_def
      decimal_to_f64_def parse_quarter Let_def round64_dyadic [of 1 2, simplified] sample_context_def
      sample_scale_config_def scale_config_default_def sample_position_def del: fmt_f64.simps)


end
