(* ===== verification/Ratchet.thy ===== *)
theory Ratchet
  imports ScaleManager
begin

text \<open>
  \<open>qtss-risk/src/ratchet.rs\<close>: policies propose a stop for a live position, and the registry
  takes the tightest proposal that tightens the current one.
\<close>

datatype ratchet_kind = RatchetNone | Breakeven | Trailing | Chandelier

record ratchet_decision =
  rd_kind :: ratchet_kind
  rd_new_sl :: "dec option"

definition ratchet_none :: ratchet_decision where
  "ratchet_none = \<lparr>rd_kind = RatchetNone, rd_new_sl = None\<rparr>"

record ratchet_config =
  rc_enabled :: bool
  rc_breakeven_trigger_r :: f64
  rc_breakeven_offset_pct :: f64
  rc_trailing_atr_mult :: f64
  rc_chandelier_atr_mult :: f64
  rc_chandelier_trigger_r :: f64

definition ratchet_config_default :: ratchet_config where
  "ratchet_config_default = \<lparr>rc_enabled = True, rc_breakeven_trigger_r = Fin 1,
     rc_breakeven_offset_pct = round64 (5 / 10000), rc_trailing_atr_mult = Fin 2,
     rc_chandelier_atr_mult = Fin 3, rc_chandelier_trigger_r = Fin 2\<rparr>"

record ratchet_policy =
  rp_kind :: ratchet_kind
  rp_propose :: "live_position \<Rightarrow> scale_context \<Rightarrow> ratchet_config \<Rightarrow> dec option"

definition breakeven_policy :: "dlib \<Rightarrow> ratchet_policy" where
  "breakeven_policy D = \<lparr>rp_kind = Breakeven, rp_propose = (\<lambda>p ctx cfg.
     case unrealised_r D p ctx of None \<Rightarrow> None | Some r \<Rightarrow>
       if f64_lt r (rc_breakeven_trigger_r cfg) then None
       else let offset = f64_to_decimal D
                  (f64_mul (decimal_to_f64 D (lp_entry_avg p)) (rc_breakeven_offset_pct cfg))
            in Some (case lp_side p of
                 Buy \<Rightarrow> d_add D (lp_entry_avg p) offset
               | Sell \<Rightarrow> d_sub D (lp_entry_avg p) offset))\<rparr>"

definition trailing_atr_policy :: "dlib \<Rightarrow> ratchet_policy" where
  "trailing_atr_policy D = \<lparr>rp_kind = Trailing, rp_propose = (\<lambda>p ctx cfg.
     case ctx_atr ctx of None \<Rightarrow> None | Some atr \<Rightarrow>
     (case lp_last_mark p of None \<Rightarrow> None | Some mark \<Rightarrow>
       let dist = f64_to_decimal D (f64_mul (decimal_to_f64 D atr) (rc_trailing_atr_mult cfg)) in
       if dist \<le> 0 then None
       else Some (case lp_side p of Buy \<Rightarrow> d_sub D mark dist | Sell \<Rightarrow> d_add D mark dist)))\<rparr>"

definition chandelier_policy :: "dlib \<Rightarrow> ratchet_policy" where
  "chandelier_policy D = \<lparr>rp_kind = Chandelier, rp_propose = (\<lambda>p ctx cfg.
     case unrealised_r D p ctx of None \<Rightarrow> None | Some r \<Rightarrow>
       if f64_lt r (rc_chandelier_trigger_r cfg) then None
       else case ctx_atr ctx of None \<Rightarrow> None | Some atr \<Rightarrow>
       (case ctx_best_price ctx of None \<Rightarrow> None | Some best \<Rightarrow>
         let dist = f64_to_decimal D (f64_mul (decimal_to_f64 D atr) (rc_chandelier_atr_mult cfg)) in
         if dist \<le> 0 then None
         else Some (case lp_side p of Buy \<Rightarrow> d_sub D best dist | Sell \<Rightarrow> d_add D best dist)))\<rparr>"

definition ratchet_registry_defaults :: "dlib \<Rightarrow> ratchet_policy list" where
  "ratchet_registry_defaults D = [breakeven_policy D, trailing_atr_policy D, chandelier_policy D]"

fun tighter :: "position_side \<Rightarrow> dec \<Rightarrow> dec \<Rightarrow> bool" where
  "tighter Buy a b = (b < a)"
| "tighter Sell a b = (a < b)"

definition tighten_only :: "live_position \<Rightarrow> dec \<Rightarrow> dec option" where
  "tighten_only p new_sl = (case lp_current_sl p of None \<Rightarrow> None | Some current \<Rightarrow>
     if tighter (lp_side p) new_sl current then Some new_sl else None)"

definition tighter_than :: "live_position \<Rightarrow> dec \<Rightarrow> dec \<Rightarrow> bool" where
  "tighter_than p a b = tighter (lp_side p) a b"

text \<open>One turn of the loop over the policies, with its two \<open>continue\<close>s.\<close>

definition ratchet_turn ::
  "live_position \<Rightarrow> scale_context \<Rightarrow> ratchet_config \<Rightarrow> (ratchet_kind \<times> dec) option
    \<Rightarrow> ratchet_policy \<Rightarrow> (ratchet_kind \<times> dec) option"
where
  "ratchet_turn p ctx cfg best pol =
     (case rp_propose pol p ctx cfg of None \<Rightarrow> best | Some candidate \<Rightarrow>
     (case tighten_only p candidate of None \<Rightarrow> best | Some accepted \<Rightarrow>
       Some (case best of
           None \<Rightarrow> (rp_kind pol, accepted)
         | Some (k, cur) \<Rightarrow> if tighter_than p accepted cur then (rp_kind pol, accepted) else (k, cur))))"

definition ratchet_registry_evaluate ::
  "ratchet_policy list \<Rightarrow> live_position \<Rightarrow> scale_context \<Rightarrow> ratchet_config \<Rightarrow> ratchet_decision"
where
  "ratchet_registry_evaluate pols p ctx cfg =
     (if \<not> rc_enabled cfg then ratchet_none
      else case foldl (ratchet_turn p ctx cfg) None pols of
        Some (k, sl) \<Rightarrow> \<lparr>rd_kind = k, rd_new_sl = Some sl\<rparr>
      | None \<Rightarrow> ratchet_none)"

definition ratchet_evaluate :: "live_position \<Rightarrow> ratchet_decision" where
  "ratchet_evaluate p = ratchet_none"

definition ratchet_evaluate_with_context ::
  "dlib \<Rightarrow> live_position \<Rightarrow> scale_context \<Rightarrow> ratchet_config \<Rightarrow> ratchet_decision"
where
  "ratchet_evaluate_with_context D p ctx cfg =
     ratchet_registry_evaluate (ratchet_registry_defaults D) p ctx cfg"

subsection \<open>The tightest accepted proposal wins\<close>

text \<open>What a policy puts forward after the filter on tightening.\<close>

definition accepted :: "live_position \<Rightarrow> scale_context \<Rightarrow> ratchet_config \<Rightarrow> ratchet_policy \<Rightarrow> dec option" where
  "accepted p ctx cfg pol = Option.bind (rp_propose pol p ctx cfg) (tighten_only p)"

lemma ratchet_turn_eq:
  "ratchet_turn p ctx cfg best pol = (case accepted p ctx cfg pol of None \<Rightarrow> best | Some sl \<Rightarrow>
     Some (case best of None \<Rightarrow> (rp_kind pol, sl)
       | Some (k, cur) \<Rightarrow> if tighter (lp_side p) sl cur then (rp_kind pol, sl) else (k, cur)))"
  by (simp add: ratchet_turn_def accepted_def tighter_than_def split: option.split)

lemma tighter_trans: "tighter s a b \<Longrightarrow> tighter s b c \<Longrightarrow> tighter s a c"
  by (cases s) auto

lemma not_tighter_trans: "\<not> tighter s b a \<Longrightarrow> \<not> tighter s c b \<Longrightarrow> \<not> tighter s c a"
  by (cases s) auto

lemma tighter_irrefl: "\<not> tighter s a a"
  by (cases s) auto

lemma tighter_not_le: "\<not> tighter s a b \<Longrightarrow> tighter s a c \<Longrightarrow> tighter s b c"
  by (cases s) auto

definition best_of :: "live_position \<Rightarrow> scale_context \<Rightarrow> ratchet_config \<Rightarrow> ratchet_policy list
    \<Rightarrow> (ratchet_kind \<times> dec) option \<Rightarrow> bool" where
  "best_of p ctx cfg pols best \<longleftrightarrow> (case best of
     None \<Rightarrow> \<forall>pol \<in> set pols. accepted p ctx cfg pol = None
   | Some (k, sl) \<Rightarrow> (\<exists>pol \<in> set pols. k = rp_kind pol \<and> accepted p ctx cfg pol = Some sl)
       \<and> (\<forall>pol \<in> set pols. \<forall>c. accepted p ctx cfg pol = Some c \<longrightarrow> \<not> tighter (lp_side p) c sl))"

lemma ratchet_turn_best:
  assumes "best_of p ctx cfg pols b"
  shows "best_of p ctx cfg (pols @ [pol]) (ratchet_turn p ctx cfg b pol)"
proof (cases "accepted p ctx cfg pol")
  case None
  with assms show ?thesis by (auto simp: best_of_def ratchet_turn_eq split: option.splits)
next
  case acc: (Some sl)
  show ?thesis
  proof (cases b)
    case None
    with assms acc show ?thesis by (auto simp: best_of_def ratchet_turn_eq tighter_irrefl)
  next
    case (Some kc)
    obtain k cur where kc: "kc = (k, cur)" by force
    have old: "\<And>q c. q \<in> set pols \<Longrightarrow> accepted p ctx cfg q = Some c \<Longrightarrow> \<not> tighter (lp_side p) c cur"
      and ex: "\<exists>q \<in> set pols. k = rp_kind q \<and> accepted p ctx cfg q = Some cur"
      using assms Some kc by (auto simp: best_of_def)
    show ?thesis
    proof (cases "tighter (lp_side p) sl cur")
      case True
      then have "\<And>q c. q \<in> set pols \<Longrightarrow> accepted p ctx cfg q = Some c \<Longrightarrow> \<not> tighter (lp_side p) c sl"
        using old tighter_trans by blast
      with True Some kc acc show ?thesis
        by (auto simp: best_of_def ratchet_turn_eq tighter_irrefl)
    next
      case False
      with Some kc old ex acc show ?thesis
        by (auto simp: best_of_def ratchet_turn_eq)
    qed
  qed
qed

lemma ratchet_fold_best: "best_of p ctx cfg pols (foldl (ratchet_turn p ctx cfg) None pols)"
proof (induction pols rule: rev_induct)
  case Nil
  then show ?case by (simp add: best_of_def)
next
  case (snoc pol pols)
  from ratchet_turn_best [OF this, of pol] show ?case by simp
qed

lemma accepted_tightens:
  "accepted p ctx cfg pol = Some sl \<Longrightarrow>
    \<exists>cur. lp_current_sl p = Some cur \<and> tighter (lp_side p) sl cur"
  by (auto simp: accepted_def tighten_only_def bind_eq_Some_conv split: option.splits if_splits)

text \<open>
  C5. The ratchet never loosens a stop: for any registry of policies, a new stop is strictly
  tighter than the current one, it is the proposal of a registered policy whose kind is
  reported, and no registered policy proposed a tighter one. There is no new stop exactly
  when the ratchet is off or no proposal tightens.
\<close>

theorem ratchet_only_tightens:
  "case rd_new_sl (ratchet_registry_evaluate pols p ctx cfg) of
     None \<Rightarrow> \<not> rc_enabled cfg \<or> (\<forall>pol \<in> set pols. \<forall>c. rp_propose pol p ctx cfg = Some c \<longrightarrow>
       \<not> (\<exists>cur. lp_current_sl p = Some cur \<and> tighter (lp_side p) c cur))
   | Some sl \<Rightarrow> rc_enabled cfg
       \<and> (\<exists>cur. lp_current_sl p = Some cur \<and> tighter (lp_side p) sl cur)
       \<and> (\<exists>pol \<in> set pols. rp_propose pol p ctx cfg = Some sl
            \<and> rd_kind (ratchet_registry_evaluate pols p ctx cfg) = rp_kind pol)
       \<and> (\<forall>pol \<in> set pols. \<forall>c. rp_propose pol p ctx cfg = Some c \<longrightarrow> \<not> tighter (lp_side p) c sl)"
proof -
  let ?b = "foldl (ratchet_turn p ctx cfg) None pols"
  have best: "best_of p ctx cfg pols ?b" by (rule ratchet_fold_best)
  have acc: "accepted p ctx cfg pol = Some c \<longleftrightarrow> rp_propose pol p ctx cfg = Some c \<and>
      (\<exists>cur. lp_current_sl p = Some cur \<and> tighter (lp_side p) c cur)" for pol c
    by (auto simp: accepted_def tighten_only_def bind_eq_Some_conv split: option.splits)
  show ?thesis
  proof (cases "rc_enabled cfg")
    case False
    then show ?thesis by (simp add: ratchet_registry_evaluate_def ratchet_none_def)
  next
    case True
    show ?thesis
    proof (cases ?b)
      case None
      have "\<not> (\<exists>cur. lp_current_sl p = Some cur \<and> tighter (lp_side p) c cur)"
        if "pol \<in> set pols" "rp_propose pol p ctx cfg = Some c" for pol c
        using best None that acc [of pol c] by (auto simp: best_of_def)
      with True None show ?thesis by (simp add: ratchet_registry_evaluate_def ratchet_none_def)
    next
      case (Some b)
      obtain k sl where b: "b = (k, sl)" by force
      from best Some b obtain pol where pol: "pol \<in> set pols" "k = rp_kind pol"
        "accepted p ctx cfg pol = Some sl" by (auto simp: best_of_def)
      from pol(3) obtain cur where cur: "lp_current_sl p = Some cur" "tighter (lp_side p) sl cur"
        using accepted_tightens by blast
      have "\<not> tighter (lp_side p) c sl" if "q \<in> set pols" "rp_propose q p ctx cfg = Some c" for q c
      proof
        assume t: "tighter (lp_side p) c sl"
        with cur have "accepted p ctx cfg q = Some c"
          using that acc [of q c] tighter_trans by blast
        with best Some b that t show False by (auto simp: best_of_def)
      qed
      with True Some b pol cur acc [of pol sl] show ?thesis
        by (auto simp: ratchet_registry_evaluate_def)
    qed
  qed
qed

theorem ratchet_only_tightens_witness:
  "rd_new_sl (ratchet_registry_evaluate
      [\<lparr>rp_kind = Trailing, rp_propose = (\<lambda>_ _ _. Some 97)\<rparr>,
       \<lparr>rp_kind = Chandelier, rp_propose = (\<lambda>_ _ _. Some 99)\<rparr>]
      (sample_position 7 Futures) \<lparr>ctx_atr = None, ctx_initial_risk_per_unit = None,
        ctx_pyramid_legs_added = 0, ctx_scale_out_milestones_hit = 0, ctx_best_price = None\<rparr>
      ratchet_config_default) = Some 99 \<and> tighter Buy 99 95"
  using ratchet_only_tightens [where pols = "[\<lparr>rp_kind = Trailing, rp_propose = (\<lambda>_ _ _. Some 97)\<rparr>,
       \<lparr>rp_kind = Chandelier, rp_propose = (\<lambda>_ _ _. Some 99)\<rparr>]" and p = "sample_position 7 Futures"
     and ctx = "\<lparr>ctx_atr = None, ctx_initial_risk_per_unit = None,
        ctx_pyramid_legs_added = 0, ctx_scale_out_milestones_hit = 0, ctx_best_price = None\<rparr>"
     and cfg = ratchet_config_default]
  by (simp add: ratchet_registry_evaluate_def ratchet_turn_def tighten_only_def tighter_than_def
      sample_position_def ratchet_config_default_def)

end
