(* ===== verification/TpEngine.thy ===== *)
theory TpEngine
  imports PositionStore
begin

text \<open>
  \<open>qtss-risk/src/tp_engine.rs\<close>: the take-profit ladder of a live position. \<open>tp_evaluate\<close>
  lists the legs the mark has crossed, \<open>record_partial_fill\<close> books a fill on a leg,
  \<open>trail_last_leg\<close> moves the last leg away from the mark. The functions that take a mutable
  position return it with their result.
\<close>

record tp_trigger =
  trig_leg_index :: nat
  trig_price :: dec
  trig_qty :: dec

definition leg_remaining :: "dlib \<Rightarrow> tp_leg \<Rightarrow> dec" where
  "leg_remaining D leg = d_sub D (leg_qty leg) (leg_filled leg)"

fun crossed :: "position_side \<Rightarrow> dec \<Rightarrow> tp_leg \<Rightarrow> bool" where
  "crossed Buy mark leg = (leg_price leg \<le> mark)"
| "crossed Sell mark leg = (mark \<le> leg_price leg)"

definition leg_trigger :: "dlib \<Rightarrow> position_side \<Rightarrow> dec \<Rightarrow> nat \<times> tp_leg \<Rightarrow> tp_trigger option" where
  "leg_trigger D side mark = (\<lambda>(i, leg). let remaining = leg_remaining D leg in
     if remaining \<le> 0 then None
     else if crossed side mark leg
       then Some \<lparr>trig_leg_index = i, trig_price = leg_price leg, trig_qty = remaining\<rparr>
       else None)"

definition tp_evaluate :: "dlib \<Rightarrow> live_position \<Rightarrow> tp_trigger list" where
  "tp_evaluate D p = (case lp_last_mark p of
     None \<Rightarrow> []
   | Some mark \<Rightarrow> List.map_filter (leg_trigger D (lp_side p) mark) (enumerate 0 (lp_tp_ladder p)))"

definition record_partial_fill :: "dlib \<Rightarrow> live_position \<Rightarrow> nat \<Rightarrow> dec \<Rightarrow> live_position \<times> dec" where
  "record_partial_fill D p i qty =
     (if length (lp_tp_ladder p) \<le> i then (p, 0)
      else let leg = lp_tp_ladder p ! i; remaining = leg_remaining D leg in
        if remaining \<le> 0 \<or> qty \<le> 0 then (p, 0)
        else let absorbed = (if remaining < qty then remaining else qty);
               leg' = leg\<lparr>leg_filled := d_add D (leg_filled leg) absorbed\<rparr>;
               qr = (if absorbed \<le> lp_qty_remaining p
                     then d_sub D (lp_qty_remaining p) absorbed else 0)
             in (p\<lparr>lp_tp_ladder := (lp_tp_ladder p)[i := leg'], lp_qty_remaining := qr\<rparr>, absorbed))"

definition trail_last_leg :: "dlib \<Rightarrow> live_position \<Rightarrow> dec \<Rightarrow> dec \<Rightarrow> live_position \<times> dec option" where
  "trail_last_leg D p atr factor =
     (if atr \<le> 0 \<or> factor \<le> 0 then (p, None)
      else case lp_last_mark p of None \<Rightarrow> (p, None) | Some mark \<Rightarrow>
        (if lp_tp_ladder p = [] then (p, None)
         else let leg = last (lp_tp_ladder p) in
           if \<not> crossed (lp_side p) mark leg then (p, None)
           else let dist = d_mul D atr factor;
                  new_price = (case lp_side p of Buy \<Rightarrow> d_add D mark dist | Sell \<Rightarrow> d_sub D mark dist)
                in (p\<lparr>lp_tp_ladder := butlast (lp_tp_ladder p) @ [leg\<lparr>leg_price := new_price\<rparr>]\<rparr>,
                    Some new_price)))"

definition tp_remaining_qty :: "dlib \<Rightarrow> live_position \<Rightarrow> dec" where
  "tp_remaining_qty D p = foldl (\<lambda>acc leg. let r = leg_remaining D leg in
     d_add D acc (if 0 < r then r else 0)) 0 (lp_tp_ladder p)"

subsection \<open>The ladder\<close>

text \<open>A leg is sound when what is filled lies between nothing and the quantity of the leg.\<close>

definition leg_ok :: "rat \<Rightarrow> tp_leg \<Rightarrow> bool" where
  "leg_ok u leg \<longleftrightarrow> on_grid u (leg_qty leg) \<and> on_grid u (leg_filled leg)
     \<and> 0 \<le> leg_filled leg \<and> leg_filled leg \<le> leg_qty leg"

definition ladder_ok :: "rat \<Rightarrow> live_position \<Rightarrow> bool" where
  "ladder_ok u p \<longleftrightarrow> on_grid u (lp_qty_remaining p) \<and> (\<forall>leg \<in> set (lp_tp_ladder p). leg_ok u leg)"

definition ladder_open :: "live_position \<Rightarrow> rat" where
  "ladder_open p = (\<Sum>leg \<leftarrow> lp_tp_ladder p. leg_qty leg - leg_filled leg)"

lemma leg_remaining_ok:
  "grid D u \<Longrightarrow> leg_ok u leg \<Longrightarrow> leg_remaining D leg = leg_qty leg - leg_filled leg"
  by (simp add: leg_remaining_def leg_ok_def grid_sub)

lemma ladder_okD: "ladder_ok u p \<Longrightarrow> i < length (lp_tp_ladder p) \<Longrightarrow> leg_ok u (lp_tp_ladder p ! i)"
  by (simp add: ladder_ok_def)

lemma tp_remaining_qty_eq:
  assumes g: "grid D u" and ok: "ladder_ok u p"
  shows "tp_remaining_qty D p = ladder_open p"
proof -
  have "foldl (\<lambda>acc leg. let r = leg_remaining D leg in d_add D acc (if 0 < r then r else 0)) a legs
      = a + (\<Sum>leg \<leftarrow> legs. leg_qty leg - leg_filled leg)"
    if "on_grid u a" "\<forall>leg \<in> set legs. leg_ok u leg" for a legs
    using that
  proof (induction legs arbitrary: a)
    case (Cons leg legs)
    have leg: "leg_ok u leg" using Cons.prems by simp
    then have r: "leg_remaining D leg = leg_qty leg - leg_filled leg"
      by (rule leg_remaining_ok [OF g])
    have "on_grid u (leg_qty leg - leg_filled leg)" using leg by (simp add: leg_ok_def on_grid_sub)
    moreover have "d_add D a (if 0 < leg_remaining D leg then leg_remaining D leg else 0)
        = a + (leg_qty leg - leg_filled leg)"
      using leg Cons.prems(1) by (auto simp: r grid_add [OF g] leg_ok_def on_grid_sub)
    ultimately show ?case using Cons by (simp add: Let_def on_grid_add)
  qed simp
  with ok show ?thesis by (simp add: tp_remaining_qty_def ladder_open_def ladder_ok_def)
qed

text \<open>What one fill does, on the grid.\<close>

definition absorbed_of :: "live_position \<Rightarrow> nat \<Rightarrow> dec \<Rightarrow> rat" where
  "absorbed_of p i qty = (if i < length (lp_tp_ladder p) \<and> 0 < qty
     then min qty (leg_qty (lp_tp_ladder p ! i) - leg_filled (lp_tp_ladder p ! i)) else 0)"

lemma record_partial_fill_eq:
  assumes g: "grid D u" and ok: "ladder_ok u p" and q: "on_grid u qty"
  shows "snd (record_partial_fill D p i qty) = absorbed_of p i qty"
    and "lp_tp_ladder (fst (record_partial_fill D p i qty)) = (if i < length (lp_tp_ladder p)
      then (lp_tp_ladder p)[i := (lp_tp_ladder p ! i)\<lparr>leg_filled :=
        leg_filled (lp_tp_ladder p ! i) + absorbed_of p i qty\<rparr>] else lp_tp_ladder p)"
    and "lp_qty_remaining (fst (record_partial_fill D p i qty)) =
      (if absorbed_of p i qty = 0 then lp_qty_remaining p else max 0 (lp_qty_remaining p - absorbed_of p i qty))"
    and "lp_last_mark (fst (record_partial_fill D p i qty)) = lp_last_mark p"
    and "lp_side (fst (record_partial_fill D p i qty)) = lp_side p"
proof -
  consider "length (lp_tp_ladder p) \<le> i" | "i < length (lp_tp_ladder p)" "qty \<le> 0"
    | "i < length (lp_tp_ladder p)" "0 < qty" by linarith
  then have "snd (record_partial_fill D p i qty) = absorbed_of p i qty
    \<and> lp_tp_ladder (fst (record_partial_fill D p i qty)) = (if i < length (lp_tp_ladder p)
      then (lp_tp_ladder p)[i := (lp_tp_ladder p ! i)\<lparr>leg_filled :=
        leg_filled (lp_tp_ladder p ! i) + absorbed_of p i qty\<rparr>] else lp_tp_ladder p)
    \<and> lp_qty_remaining (fst (record_partial_fill D p i qty)) =
      (if absorbed_of p i qty = 0 then lp_qty_remaining p else max 0 (lp_qty_remaining p - absorbed_of p i qty))
    \<and> lp_last_mark (fst (record_partial_fill D p i qty)) = lp_last_mark p
    \<and> lp_side (fst (record_partial_fill D p i qty)) = lp_side p"
  proof cases
    case 3
    define leg where "leg = lp_tp_ladder p ! i"
    have lok: "leg_ok u leg" using ladder_okD [OF ok 3(1)] by (simp add: leg_def)
    have r: "leg_remaining D leg = leg_qty leg - leg_filled leg"
      using g lok by (rule leg_remaining_ok)
    have gr: "on_grid u (leg_filled leg)" "on_grid u (leg_qty leg - leg_filled leg)"
      "on_grid u (lp_qty_remaining p)"
      using lok ok by (auto simp: leg_ok_def ladder_ok_def on_grid_sub)
    have ab: "absorbed_of p i qty = min qty (leg_qty leg - leg_filled leg)"
      using 3 by (simp add: absorbed_of_def leg_def)
    show ?thesis
    proof (cases "leg_qty leg - leg_filled leg \<le> 0")
      case True
      with lok have full: "leg_filled leg = leg_qty leg" by (simp add: leg_ok_def)
      then have "leg\<lparr>leg_filled := leg_qty leg\<rparr> = leg" by (cases leg) simp
      then have "(lp_tp_ladder p)[i := leg\<lparr>leg_filled := leg_qty leg\<rparr>] = lp_tp_ladder p"
        by (simp add: leg_def)
      with full 3 r ab show ?thesis
        by (simp add: record_partial_fill_def leg_def [symmetric] Let_def)
    next
      case False
      have "record_partial_fill D p i qty =
        (p\<lparr>lp_tp_ladder := (lp_tp_ladder p)[i := leg\<lparr>leg_filled := leg_filled leg + absorbed_of p i qty\<rparr>],
           lp_qty_remaining := max 0 (lp_qty_remaining p - absorbed_of p i qty)\<rparr>, absorbed_of p i qty)"
        using 3 False gr q
        by (auto simp: record_partial_fill_def leg_def [symmetric] Let_def r ab min_def max_def
            grid_add [OF g] grid_sub [OF g])
      moreover have "absorbed_of p i qty \<noteq> 0" using ab False 3 by (auto simp: min_def)
      ultimately show ?thesis using 3 by (simp add: leg_def)
    qed
  qed (auto simp: record_partial_fill_def absorbed_of_def Let_def)
  then show "snd (record_partial_fill D p i qty) = absorbed_of p i qty"
    and "lp_tp_ladder (fst (record_partial_fill D p i qty)) = (if i < length (lp_tp_ladder p)
      then (lp_tp_ladder p)[i := (lp_tp_ladder p ! i)\<lparr>leg_filled :=
        leg_filled (lp_tp_ladder p ! i) + absorbed_of p i qty\<rparr>] else lp_tp_ladder p)"
    and "lp_qty_remaining (fst (record_partial_fill D p i qty)) =
      (if absorbed_of p i qty = 0 then lp_qty_remaining p else max 0 (lp_qty_remaining p - absorbed_of p i qty))"
    and "lp_last_mark (fst (record_partial_fill D p i qty)) = lp_last_mark p"
    and "lp_side (fst (record_partial_fill D p i qty)) = lp_side p"
    by blast+
qed

lemma absorbed_of_bounds:
  assumes "ladder_ok u p"
  shows "0 \<le> absorbed_of p i qty"
    and "i < length (lp_tp_ladder p) \<Longrightarrow>
      leg_filled (lp_tp_ladder p ! i) + absorbed_of p i qty \<le> leg_qty (lp_tp_ladder p ! i)"
    and "on_grid u qty \<Longrightarrow> on_grid u (absorbed_of p i qty)"
  using ladder_okD [OF assms, of i]
  by (auto simp: absorbed_of_def leg_ok_def min_def on_grid_sub)

lemma sum_list_update_leg:
  fixes f :: "'b \<Rightarrow> rat"
  shows "i < length xs \<Longrightarrow> (\<Sum>x \<leftarrow> xs[i := y]. f x) = (\<Sum>x \<leftarrow> xs. f x) - f (xs ! i) + f y"
proof (induction xs arbitrary: i)
  case (Cons x xs)
  then show ?case by (cases i) simp_all
qed simp

lemma record_partial_fill_ok:
  assumes g: "grid D u" and ok: "ladder_ok u p" and q: "on_grid u qty"
  shows "ladder_ok u (fst (record_partial_fill D p i qty))"
    and "ladder_open (fst (record_partial_fill D p i qty)) = ladder_open p - absorbed_of p i qty"
proof -
  note eq = record_partial_fill_eq [OF g ok q, of i]
  note b = absorbed_of_bounds [OF ok, where i = i and qty = qty]
  show "ladder_ok u (fst (record_partial_fill D p i qty))"
    unfolding ladder_ok_def
  proof (intro conjI ballI)
    show "on_grid u (lp_qty_remaining (fst (record_partial_fill D p i qty)))"
      using ok b(3) [OF q] by (simp add: eq(3) ladder_ok_def max_def on_grid_sub)
    fix leg
    assume "leg \<in> set (lp_tp_ladder (fst (record_partial_fill D p i qty)))"
    then have "leg \<in> set (lp_tp_ladder p) \<or> i < length (lp_tp_ladder p) \<and>
      leg = (lp_tp_ladder p ! i)\<lparr>leg_filled := leg_filled (lp_tp_ladder p ! i) + absorbed_of p i qty\<rparr>"
      by (auto simp: eq(2) split: if_splits dest: set_update_subset_insert [THEN subsetD])
    then show "leg_ok u leg"
      using ok ladder_okD [OF ok, of i] b q
      by (auto simp: ladder_ok_def leg_ok_def on_grid_add)
  qed
  show "ladder_open (fst (record_partial_fill D p i qty)) = ladder_open p - absorbed_of p i qty"
    by (cases "i < length (lp_tp_ladder p)")
      (simp_all add: ladder_open_def eq(2) sum_list_update_leg absorbed_of_def)
qed

subsection \<open>Sequences of fills\<close>

fun record_fills :: "dlib \<Rightarrow> live_position \<Rightarrow> (nat \<times> dec) list \<Rightarrow> live_position \<times> dec list" where
  "record_fills D p [] = (p, [])"
| "record_fills D p ((i, q) # fs) =
     (let (p', a) = record_partial_fill D p i q; (p'', as) = record_fills D p' fs in (p'', a # as))"

lemma tp_fills_ok:
  assumes "grid D u" and "ladder_ok u p" and "\<forall>f \<in> set fs. on_grid u (snd f)"
  shows "ladder_ok u (fst (record_fills D p fs))"
  using assms(2,3)
proof (induction fs arbitrary: p)
  case (Cons f fs)
  then show ?case
    using record_partial_fill_ok(1) [OF assms(1) Cons.prems(1), of "snd f" "fst f"]
    by (cases f) (simp add: Let_def split_beta)
qed simp

text \<open>
  C6. Fills neither overfill a leg nor lose quantity: from a sound ladder, after any
  sequence of fills of any size on any leg index, every leg still has
  \<open>0 \<le> filled \<le> qty\<close>, each fill absorbs between nothing and what it offers, and what
  \<open>remaining_qty\<close> reports dropped by exactly the sum of what was absorbed. Quantities are
  multiples of a step the decimal type represents.
\<close>

theorem tp_fills_conserve:
  assumes "grid D u" and "ladder_ok u p" and "\<forall>f \<in> set fs. on_grid u (snd f)"
  shows "ladder_ok u (fst (record_fills D p fs))
    \<and> list_all2 (\<lambda>f a. 0 \<le> a \<and> a \<le> max 0 (snd f)) fs (snd (record_fills D p fs))
    \<and> tp_remaining_qty D (fst (record_fills D p fs)) + sum_list (snd (record_fills D p fs))
      = tp_remaining_qty D p"
  using assms(2,3)
proof (induction fs arbitrary: p)
  case (Cons f fs)
  obtain i q where f: "f = (i, q)" by force
  have q: "on_grid u q" using Cons.prems f by simp
  let ?p = "fst (record_partial_fill D p i q)"
  have step: "record_fills D p (f # fs) =
      (fst (record_fills D ?p fs), absorbed_of p i q # snd (record_fills D ?p fs))"
    using record_partial_fill_eq(1) [OF assms(1) Cons.prems(1) q, of i]
    by (simp add: f Let_def split_beta)
  have ok: "ladder_ok u ?p" and opn: "ladder_open ?p = ladder_open p - absorbed_of p i q"
    using record_partial_fill_ok [OF assms(1) Cons.prems(1) q] by auto
  have "0 \<le> absorbed_of p i q" "absorbed_of p i q \<le> max 0 q"
    using absorbed_of_bounds(1) [OF Cons.prems(1)] by (auto simp: absorbed_of_def)
  moreover have "tp_remaining_qty D ?p + absorbed_of p i q = tp_remaining_qty D p"
    using opn tp_remaining_qty_eq [OF assms(1)] ok Cons.prems(1) by simp
  ultimately show ?case
    using Cons.IH [OF ok] Cons.prems by (simp add: step [unfolded f] f algebra_simps del: record_fills.simps)
qed simp

definition sample_ladder :: live_position where
  "sample_ladder = (sample_position 7 Futures)\<lparr>lp_last_mark := Some 107, lp_qty_remaining := 10,
     lp_tp_ladder := [\<lparr>leg_price = 105, leg_qty = 5, leg_filled = 3\<rparr>,
                     \<lparr>leg_price = 110, leg_qty = 4, leg_filled = 0\<rparr>]\<rparr>"

lemma on_grid_numerals [simp]: "on_grid 1 (numeral n)" "on_grid 1 1"
  using on_grid_one [of "numeral n"] on_grid_one [of 1] by simp_all

lemma sample_ladder_ok: "ladder_ok 1 sample_ladder"
  by (simp add: ladder_ok_def leg_ok_def sample_ladder_def)

theorem tp_fills_conserve_witness:
  "tp_remaining_qty lib28 (fst (record_fills lib28 sample_ladder [(0, 9), (1, 1), (5, 2)]))
    + sum_list (snd (record_fills lib28 sample_ladder [(0, 9), (1, 1), (5, 2)]))
    = tp_remaining_qty lib28 sample_ladder"
  using tp_fills_conserve [OF grid_lib28_one sample_ladder_ok, of "[(0, 9), (1, 1), (5, 2)]"]
  by simp

subsection \<open>Filling what was triggered\<close>

lemma tp_evaluate_empty_iff:
  "tp_evaluate D p = [] \<longleftrightarrow> (\<forall>mark. lp_last_mark p = Some mark \<longrightarrow>
    (\<forall>j < length (lp_tp_ladder p). leg_trigger D (lp_side p) mark (j, lp_tp_ladder p ! j) = None))"
  by (auto simp: tp_evaluate_def List.map_filter_def filter_empty_conv in_set_enumerate_eq
      split: option.splits)

lemma tp_evaluate_iff:
  assumes "lp_last_mark p = Some mark"
  shows "t \<in> set (tp_evaluate D p) \<longleftrightarrow> (\<exists>j < length (lp_tp_ladder p).
    leg_trigger D (lp_side p) mark (j, lp_tp_ladder p ! j) = Some t)"
  using assms
  by (force simp: tp_evaluate_def List.map_filter_def in_set_enumerate_eq)

lemma record_fills_frame:
  assumes g: "grid D u" and "ladder_ok u p" and "\<forall>f \<in> set fs. on_grid u (snd f)"
  shows "lp_last_mark (fst (record_fills D p fs)) = lp_last_mark p
    \<and> lp_side (fst (record_fills D p fs)) = lp_side p
    \<and> length (lp_tp_ladder (fst (record_fills D p fs))) = length (lp_tp_ladder p)
    \<and> (\<forall>j < length (lp_tp_ladder p). let leg = lp_tp_ladder p ! j;
          leg' = lp_tp_ladder (fst (record_fills D p fs)) ! j in
        leg_price leg' = leg_price leg \<and> leg_qty leg' = leg_qty leg
        \<and> leg_filled leg \<le> leg_filled leg'
        \<and> (\<forall>q. (j, q) \<in> set fs \<and> leg_qty leg - leg_filled leg \<le> q \<longrightarrow> leg_qty leg' \<le> leg_filled leg'))"
  using assms(2,3)
proof (induction fs arbitrary: p)
  case (Cons f fs)
  obtain i q where f: "f = (i, q)" by force
  have q: "on_grid u q" using Cons.prems f by simp
  define p' where "p' = fst (record_partial_fill D p i q)"
  note eq = record_partial_fill_eq [OF g Cons.prems(1) q, of i, folded p'_def]
  note b = absorbed_of_bounds [OF Cons.prems(1), where i = i and qty = q]
  have ok: "ladder_ok u p'"
    using record_partial_fill_ok [OF g Cons.prems(1) q] by (simp add: p'_def)
  have fst_eq: "fst (record_fills D p (f # fs)) = fst (record_fills D p' fs)"
    by (simp add: f Let_def split_beta p'_def)
  note IH = Cons.IH [OF ok]
  have len: "length (lp_tp_ladder p') = length (lp_tp_ladder p)" by (simp add: eq(2))
  have leg: "leg_price (lp_tp_ladder p' ! j) = leg_price (lp_tp_ladder p ! j)
      \<and> leg_qty (lp_tp_ladder p' ! j) = leg_qty (lp_tp_ladder p ! j)
      \<and> leg_filled (lp_tp_ladder p ! j) \<le> leg_filled (lp_tp_ladder p' ! j)" for j
    using b(1) by (cases "i < length (lp_tp_ladder p)"; cases "i = j") (simp_all add: eq(2))
  have hit: "leg_qty (lp_tp_ladder p' ! i) \<le> leg_filled (lp_tp_ladder p' ! i)"
    if "i < length (lp_tp_ladder p)" "leg_qty (lp_tp_ladder p ! i) - leg_filled (lp_tp_ladder p ! i) \<le> q"
    using that ladder_okD [OF Cons.prems(1) that(1)]
    by (auto simp: eq(2) absorbed_of_def leg_ok_def min_def)
  show ?case
    unfolding fst_eq Let_def
  proof (intro conjI allI impI)
    fix j r
    assume j: "j < length (lp_tp_ladder p)"
      and r: "(j, r) \<in> set (f # fs) \<and> leg_qty (lp_tp_ladder p ! j) - leg_filled (lp_tp_ladder p ! j) \<le> r"
    let ?leg' = "lp_tp_ladder (fst (record_fills D p' fs)) ! j"
    have ih: "leg_qty ?leg' = leg_qty (lp_tp_ladder p' ! j)"
      "leg_filled (lp_tp_ladder p' ! j) \<le> leg_filled ?leg'"
      "(j, r) \<in> set fs \<Longrightarrow> leg_qty (lp_tp_ladder p' ! j) - leg_filled (lp_tp_ladder p' ! j) \<le> r
        \<Longrightarrow> leg_qty ?leg' \<le> leg_filled ?leg'"
      using IH Cons.prems(2) j len by (auto simp: Let_def)
    show "leg_qty ?leg' \<le> leg_filled ?leg'"
    proof (cases "(j, r) = f")
      case True
      with hit ih j r show ?thesis by (auto simp: f)
    next
      case False
      with r ih(3) leg [of j] show ?thesis by auto
    qed
  qed (use IH Cons.prems(2) len leg eq(4,5) in \<open>auto simp: Let_def intro: order_trans\<close>)
qed simp

text \<open>
  C18. The engine asks for nothing twice: once every trigger of an evaluation has been
  filled with the quantity it asked for, evaluating again at the same mark triggers no leg.
\<close>

theorem tp_triggers_settle:
  assumes g: "grid D u" and ok: "ladder_ok u p"
  defines "fills \<equiv> map (\<lambda>t. (trig_leg_index t, trig_qty t)) (tp_evaluate D p)"
  shows "tp_evaluate D (fst (record_fills D p fills)) = []"
proof (cases "lp_last_mark p")
  case None
  then have "tp_evaluate D p = []" by (simp add: tp_evaluate_def)
  with None show ?thesis by (simp add: fills_def)
next
  case (Some mark)
  have rem: "leg_remaining D (lp_tp_ladder p ! j) = leg_qty (lp_tp_ladder p ! j) - leg_filled (lp_tp_ladder p ! j)"
    if "j < length (lp_tp_ladder p)" for j
    using ladder_okD [OF ok that] by (rule leg_remaining_ok [OF g])
  have grids: "\<forall>f \<in> set fills. on_grid u (snd f)"
  proof
    fix f
    assume "f \<in> set fills"
    then obtain t where "t \<in> set (tp_evaluate D p)" "snd f = trig_qty t" by (auto simp: fills_def)
    then obtain j where "j < length (lp_tp_ladder p)" "snd f = leg_remaining D (lp_tp_ladder p ! j)"
      by (auto simp: tp_evaluate_iff [OF Some] leg_trigger_def Let_def split: if_splits)
    then show "on_grid u (snd f)"
      using rem ladder_okD [OF ok] by (simp add: leg_ok_def on_grid_sub)
  qed
  let ?p' = "fst (record_fills D p fills)"
  note fr = record_fills_frame [OF g ok grids]
  have ok': "ladder_ok u ?p'" using tp_fills_ok [OF g ok grids] .
  have "leg_trigger D (lp_side p) mark (j, lp_tp_ladder ?p' ! j) = None" if j: "j < length (lp_tp_ladder p)" for j
  proof (rule ccontr)
    assume trig: "leg_trigger D (lp_side p) mark (j, lp_tp_ladder ?p' ! j) \<noteq> None"
    have rem': "leg_remaining D (lp_tp_ladder ?p' ! j) = leg_qty (lp_tp_ladder ?p' ! j) - leg_filled (lp_tp_ladder ?p' ! j)"
      using ladder_okD [OF ok', of j] fr j by (intro leg_remaining_ok [OF g]) simp
    have opn: "leg_filled (lp_tp_ladder ?p' ! j) < leg_qty (lp_tp_ladder ?p' ! j)"
      and cr: "crossed (lp_side p) mark (lp_tp_ladder ?p' ! j)"
      using trig rem' by (auto simp: leg_trigger_def Let_def split: if_splits)
    have same: "leg_price (lp_tp_ladder ?p' ! j) = leg_price (lp_tp_ladder p ! j)"
      "leg_qty (lp_tp_ladder ?p' ! j) = leg_qty (lp_tp_ladder p ! j)"
      "leg_filled (lp_tp_ladder p ! j) \<le> leg_filled (lp_tp_ladder ?p' ! j)"
      using fr j by (auto simp: Let_def)
    have "crossed (lp_side p) mark (lp_tp_ladder p ! j)"
      using cr same(1) by (cases "lp_side p") simp_all
    moreover have "0 < leg_remaining D (lp_tp_ladder p ! j)"
      using opn same rem [OF j] by simp
    ultimately have "leg_trigger D (lp_side p) mark (j, lp_tp_ladder p ! j) =
        Some \<lparr>trig_leg_index = j, trig_price = leg_price (lp_tp_ladder p ! j),
          trig_qty = leg_remaining D (lp_tp_ladder p ! j)\<rparr>"
      by (simp add: leg_trigger_def Let_def)
    with j have "(j, leg_remaining D (lp_tp_ladder p ! j)) \<in> set fills"
      unfolding fills_def by (force simp: tp_evaluate_iff [OF Some])
    with fr j rem [OF j] have "leg_qty (lp_tp_ladder ?p' ! j) \<le> leg_filled (lp_tp_ladder ?p' ! j)"
      by (auto simp: Let_def)
    with opn show False by simp
  qed
  then show ?thesis using fr Some by (simp add: tp_evaluate_empty_iff)
qed

theorem tp_triggers_settle_witness:
  "tp_evaluate lib28 (fst (record_fills lib28 sample_ladder
    (map (\<lambda>t. (trig_leg_index t, trig_qty t)) (tp_evaluate lib28 sample_ladder)))) = []"
  by (rule tp_triggers_settle [OF grid_lib28_one sample_ladder_ok])

text \<open>
  C31. Trailing only moves the last target further away: when \<open>trail_last_leg\<close> answers a new
  price, that price lies on the profitable side of the mark, which had itself passed the old
  price, and no other leg, quantity or stop changes; otherwise the position is unchanged.
\<close>

theorem trail_last_leg_monotone:
  assumes "lawful D" and "\<And>m. lp_last_mark p = Some m \<Longrightarrow> d_rnd D m = m"
  shows "case trail_last_leg D p atr k of
      (p', None) \<Rightarrow> p' = p
    | (p', Some np) \<Rightarrow> \<exists>m legs leg. lp_last_mark p = Some m \<and> lp_tp_ladder p = legs @ [leg]
        \<and> p' = p\<lparr>lp_tp_ladder := legs @ [leg\<lparr>leg_price := np\<rparr>]\<rparr>
        \<and> (case lp_side p of Buy \<Rightarrow> leg_price leg \<le> m \<and> m \<le> np | Sell \<Rightarrow> np \<le> m \<and> m \<le> leg_price leg)"
proof (cases "trail_last_leg D p atr k")
  case (Pair p' res)
  show ?thesis
  proof (cases res)
    case None
    with Pair show ?thesis
      by (auto simp: trail_last_leg_def Let_def split: if_splits option.splits position_side.splits)
  next
    case (Some np)
    with Pair obtain m where pos: "0 < atr" "0 < k" and m: "lp_last_mark p = Some m"
      and ne: "lp_tp_ladder p \<noteq> []" and cr: "crossed (lp_side p) m (last (lp_tp_ladder p))"
      and np: "np = (case lp_side p of Buy \<Rightarrow> d_add D m (d_mul D atr k) | Sell \<Rightarrow> d_sub D m (d_mul D atr k))"
      and p': "p' = p\<lparr>lp_tp_ladder := butlast (lp_tp_ladder p) @ [(last (lp_tp_ladder p))\<lparr>leg_price := np\<rparr>]\<rparr>"
      by (auto simp: trail_last_leg_def Let_def not_le split: if_splits option.splits)
    have "0 \<le> d_mul D atr k" using pos by (auto simp: d_mul_def intro!: lawful_nonneg [OF assms(1)])
    then have "(case lp_side p of Buy \<Rightarrow> m \<le> np | Sell \<Rightarrow> np \<le> m)"
      using assms(2) [OF m] unfolding np
      by (cases "lp_side p") (auto simp: d_add_def d_sub_def intro: lawful_ge_rep [OF assms(1)] lawful_le_rep [OF assms(1)])
    with cr m ne p' Some Pair show ?thesis
      by (cases "lp_side p") (auto intro!: exI [of _ m] exI [of _ "butlast (lp_tp_ladder p)"]
            exI [of _ "last (lp_tp_ladder p)"])
  qed
qed

theorem trail_last_leg_monotone_witness:
  "case trail_last_leg lib28 (sample_ladder\<lparr>lp_last_mark := Some 120\<rparr>) 2 2 of
      (p', None) \<Rightarrow> False
    | (p', Some np) \<Rightarrow> 120 \<le> np"
proof -
  have one: "d_rnd lib28 120 = 120" by (simp add: grid_rnd [OF grid_lib28_one])
  have ans: "\<exists>np. snd (trail_last_leg lib28 (sample_ladder\<lparr>lp_last_mark := Some 120\<rparr>) 2 2) = Some np"
    by (simp add: trail_last_leg_def sample_ladder_def sample_position_def Let_def)
  show ?thesis
    using trail_last_leg_monotone [OF lawful_lib28, of "sample_ladder\<lparr>lp_last_mark := Some 120\<rparr>" 2 2]
      one ans
    by (auto simp: sample_ladder_def sample_position_def split: prod.splits option.splits)
qed

end
