(* ===== verification/TickDispatcher.thy ===== *)
theory TickDispatcher
  imports LiquidationGuard Ratchet TpEngine
begin

text \<open>
  \<open>qtss-risk/src/tick_dispatcher.rs\<close>: one tick is written into the store, and every guard is
  evaluated on each position of its key. The dispatcher uses the store only through the
  interface \<open>tick_store\<close>.
\<close>

record position_tick_outcomes =
  po_position_id :: uuid
  po_liquidation :: "liq_assessment option"
  po_ratchet :: ratchet_decision
  po_scale :: scale_decision
  po_tp_triggers :: "tp_trigger list"

definition has_action :: "position_tick_outcomes \<Rightarrow> bool" where
  "has_action o' \<longleftrightarrow>
     (case po_liquidation o' of Some a \<Rightarrow> la_action a \<noteq> ActNone | None \<Rightarrow> False)
     \<or> rd_kind (po_ratchet o') \<noteq> RatchetNone
     \<or> sd_kind (po_scale o') \<noteq> Hold
     \<or> po_tp_triggers o' \<noteq> []"

record tick_outcomes =
  to_key :: "tick_key option"
  to_at :: "timestamp option"
  to_positions :: "position_tick_outcomes list"

record tick_dispatcher_config =
  td_liquidation :: liq_config
  td_scale :: scale_config

record tick_context =
  tc_margin :: margin_context

definition evaluate_position ::
  "dlib \<Rightarrow> live_position \<Rightarrow> tick_dispatcher_config \<Rightarrow> tick_context \<Rightarrow> position_tick_outcomes"
where
  "evaluate_position D p cfg ctx = \<lparr>po_position_id = lp_id p,
     po_liquidation = assess_with_margin D p (td_liquidation cfg) (tc_margin ctx),
     po_ratchet = ratchet_evaluate p,
     po_scale = scale_evaluate p (td_scale cfg),
     po_tp_triggers = tp_evaluate D p\<rparr>"

definition evaluate_tick ::
  "dlib \<Rightarrow> position_store \<Rightarrow> tick_key \<Rightarrow> dec \<Rightarrow> timestamp \<Rightarrow> tick_dispatcher_config \<Rightarrow> tick_context
    \<Rightarrow> position_store \<times> tick_outcomes"
where
  "evaluate_tick D s key price ts cfg ctx =
     (let (s', ids) = update_mark s key price ts;
          positions = List.map_filter
            (\<lambda>i. map_option (\<lambda>p. evaluate_position D p cfg ctx) (store_get s' i)) ids
      in (s', \<lparr>to_key = Some key, to_at = Some ts, to_positions = positions\<rparr>))"

definition actionable_ids :: "tick_outcomes \<Rightarrow> uuid list" where
  "actionable_ids outs = map po_position_id (filter has_action (to_positions outs))"

subsection \<open>Exactly the positions of the key\<close>

lemma evaluate_tick_positions:
  "to_positions (snd (evaluate_tick D s key price ts cfg ctx)) = List.map_filter
     (\<lambda>i. map_option (\<lambda>p. evaluate_position D p cfg ctx) (store_get (fst (update_mark s key price ts)) i))
     (snd (update_mark s key price ts))"
  by (simp add: evaluate_tick_def split_beta Let_def)

lemma has_action_evaluate_position:
  "has_action (evaluate_position D p cfg ctx) \<longleftrightarrow>
     (\<exists>a. assess_with_margin D p (td_liquidation cfg) (tc_margin ctx) = Some a \<and> la_action a \<noteq> ActNone)
     \<or> tp_evaluate D p \<noteq> []"
  by (auto simp: has_action_def evaluate_position_def ratchet_evaluate_def ratchet_none_def
      scale_evaluate_def scale_hold_def split: option.splits)

text \<open>
  C9. A tick evaluates each position of its key once, with the new mark, and no other
  position; the store afterwards is the marked store and its index still agrees.
\<close>

theorem evaluate_tick_exact:
  assumes "store_inv s"
  shows "set (to_positions (snd (evaluate_tick D s k x t cfg ctx)))
      = {evaluate_position D (set_mark x t p) cfg ctx | p i. store_get s i = Some p \<and> key_of p = k}
    \<and> length (to_positions (snd (evaluate_tick D s k x t cfg ctx)))
      = card {i. \<exists>p. store_get s i = Some p \<and> key_of p = k}
    \<and> store_inv (fst (evaluate_tick D s k x t cfg ctx))
    \<and> store_get (fst (evaluate_tick D s k x t cfg ctx))
      = (\<lambda>i. map_option (\<lambda>p. if key_of p = k then set_mark x t p else p) (store_get s i))"
proof -
  have "fst (evaluate_tick D s k x t cfg ctx) = fst (update_mark s k x t)"
    by (simp add: evaluate_tick_def split_beta Let_def)
  then show ?thesis
    using ts.fan_out [OF assms, of "\<lambda>p. evaluate_position D p cfg ctx" k x t]
      ts.fan_out_length [OF assms, of "\<lambda>p. evaluate_position D p cfg ctx" k x t]
      ts.mark_inv [OF assms, of k x t] ts.mark_view [OF assms, of k x t]
    unfolding evaluate_tick_positions by (intro conjI ext) simp_all
qed

definition sample_store :: position_store where
  "sample_store = upsert (upsert store_new (sample_position 7 Futures)) (sample_position 8 Spot)"

lemma sample_store_inv: "store_inv sample_store"
  unfolding sample_store_def
  by (intro upsert_inv store_inv_new)
    (simp_all add: key_stable_def store_get_def store_new_def upsert_def Let_def sample_position_def)

definition sample_tick_config :: tick_dispatcher_config where
  "sample_tick_config = \<lparr>td_liquidation = liq_config_default, td_scale = scale_config_default\<rparr>"

theorem evaluate_tick_exact_witness:
  "length (to_positions (snd (evaluate_tick lib28 sample_store (key_of (sample_position 7 Futures))
      91 5 sample_tick_config \<lparr>tc_margin = \<lparr>free_margin = None\<rparr>\<rparr>))) = 1"
proof -
  have "{i. \<exists>p. store_get sample_store i = Some p \<and> key_of p = key_of (sample_position 7 Futures)} = {7}"
    by (auto simp: sample_store_def store_get_def store_new_def upsert_def Let_def key_of_def
        sample_position_def split: if_splits)
  then show ?thesis using evaluate_tick_exact [OF sample_store_inv] by simp
qed

text \<open>
  C10. The ids the caller acts on are the right ones: an id is actionable after a tick exactly
  when its position has the key of the tick and, at the new mark, its liquidation assessment
  calls for an action or a leg of its take-profit ladder is triggered.
\<close>

theorem actionable_ids_exact:
  assumes "store_inv s"
  shows "i \<in> set (actionable_ids (snd (evaluate_tick D s k x t cfg ctx))) \<longleftrightarrow>
    (\<exists>p. store_get s i = Some p \<and> key_of p = k \<and>
      ((\<exists>a. assess_with_margin D (set_mark x t p) (td_liquidation cfg) (tc_margin ctx) = Some a
          \<and> la_action a \<noteq> ActNone)
       \<or> tp_evaluate D (set_mark x t p) \<noteq> []))"
proof -
  have id_of: "store_get s i = Some p \<Longrightarrow> po_position_id (evaluate_position D (set_mark x t p) cfg ctx) = i"
    for i p
    using ts.view_id [OF assms, of i p] by (simp add: evaluate_position_def)
  have "i \<in> set (actionable_ids (snd (evaluate_tick D s k x t cfg ctx))) \<longleftrightarrow>
      (\<exists>p j. store_get s j = Some p \<and> key_of p = k
        \<and> has_action (evaluate_position D (set_mark x t p) cfg ctx)
        \<and> i = po_position_id (evaluate_position D (set_mark x t p) cfg ctx))"
    using evaluate_tick_exact [OF assms, of D k x t cfg ctx] by (auto simp: actionable_ids_def)
  also have "\<dots> \<longleftrightarrow> (\<exists>p. store_get s i = Some p \<and> key_of p = k
        \<and> has_action (evaluate_position D (set_mark x t p) cfg ctx))"
    using id_of by auto
  finally show ?thesis by (simp add: has_action_evaluate_position)
qed

theorem actionable_ids_exact_witness:
  "8 \<notin> set (actionable_ids (snd (evaluate_tick lib28 sample_store (key_of (sample_position 7 Futures))
      91 5 sample_tick_config \<lparr>tc_margin = \<lparr>free_margin = None\<rparr>\<rparr>)))"
  unfolding actionable_ids_exact [OF sample_store_inv]
  by (auto simp: sample_store_def store_get_def store_new_def upsert_def Let_def key_of_def
      sample_position_def split: if_splits)

end
