(* ===== verification/Selector.thy ===== *)
theory Selector
  imports PositionStore
begin

text \<open>
  \<open>qtss-risk/src/selector.rs\<close>: the filters between a setup and its execution, their registry,
  the segment overrides of the thresholds, and the ranking of a slate of candidates.
\<close>

subsection \<open>Data\<close>

datatype direction = DirLong | DirShort

record setup_candidate =
  ca_setup_id :: uuid
  ca_exchange :: string
  ca_segment :: market_segment
  ca_symbol :: string
  ca_timeframe :: string
  ca_profile :: string
  ca_direction :: direction
  ca_entry_price :: dec
  ca_stop_price :: dec
  ca_target_price :: dec
  ca_ai_score :: f64
  ca_risk_pct :: f64
  ca_tier :: nat
  ca_open_positions_on_symbol :: nat
  ca_under_liquidation_cooldown :: bool

record selector_override =
  ov_min_risk_reward :: "f64 option"
  ov_min_ai_score :: "f64 option"
  ov_max_risk_pct :: "f64 option"
  ov_min_tier :: "nat option"
  ov_max_open_positions_per_symbol :: "nat option"

record selector_config =
  se_min_risk_reward :: f64
  se_min_ai_score :: f64
  se_max_risk_pct :: f64
  se_min_tier :: nat
  se_max_open_positions_per_symbol :: nat
  se_segment_overrides :: "(market_segment, selector_override) hmap"

definition unwrap_or :: "'a option \<Rightarrow> 'a \<Rightarrow> 'a" where
  "unwrap_or x d = (case x of Some v \<Rightarrow> v | None \<Rightarrow> d)"

definition resolve_for :: "selector_config \<Rightarrow> market_segment \<Rightarrow> selector_config" where
  "resolve_for c segment = (case hm_get (se_segment_overrides c) segment of
     None \<Rightarrow> c
   | Some ov \<Rightarrow> \<lparr>
       se_min_risk_reward = unwrap_or (ov_min_risk_reward ov) (se_min_risk_reward c),
       se_min_ai_score = unwrap_or (ov_min_ai_score ov) (se_min_ai_score c),
       se_max_risk_pct = unwrap_or (ov_max_risk_pct ov) (se_max_risk_pct c),
       se_min_tier = unwrap_or (ov_min_tier ov) (se_min_tier c),
       se_max_open_positions_per_symbol =
         unwrap_or (ov_max_open_positions_per_symbol ov) (se_max_open_positions_per_symbol c),
       se_segment_overrides = hm_empty\<rparr>)"

definition selector_config_default :: selector_config where
  "selector_config_default = \<lparr>se_min_risk_reward = round64 (15 / 10),
     se_min_ai_score = round64 (55 / 100), se_max_risk_pct = round64 (2 / 100), se_min_tier = 6,
     se_max_open_positions_per_symbol = 1, se_segment_overrides = hm_empty\<rparr>"

datatype selection_outcome =
    Selected uuid f64
  | Rejected uuid string string

fun is_selected :: "selection_outcome \<Rightarrow> bool" where
  "is_selected (Selected pid score) = True"
| "is_selected (Rejected pid f r) = False"

fun outcome_setup_id :: "selection_outcome \<Rightarrow> uuid" where
  "outcome_setup_id (Selected pid score) = pid"
| "outcome_setup_id (Rejected pid f r) = pid"

record selector_filter =
  sf_tag :: string
  sf_evaluate :: "setup_candidate \<Rightarrow> selector_config \<Rightarrow> string option"

subsection \<open>Filters\<close>

text \<open>Risk and reward per unit, signed by the direction.\<close>

definition risk_reward :: "dlib \<Rightarrow> setup_candidate \<Rightarrow> f64 \<times> f64" where
  "risk_reward D c = (let entry = decimal_to_f64 D (ca_entry_price c);
       stop = decimal_to_f64 D (ca_stop_price c); tgt = decimal_to_f64 D (ca_target_price c)
     in case ca_direction c of
          DirLong \<Rightarrow> (f64_sub entry stop, f64_sub tgt entry)
        | DirShort \<Rightarrow> (f64_sub stop entry, f64_sub entry tgt))"

definition min_risk_reward_filter :: "dlib \<Rightarrow> selector_filter" where
  "min_risk_reward_filter D = \<lparr>sf_tag = ''min_risk_reward'', sf_evaluate = (\<lambda>c cfg.
     let (risk, reward) = risk_reward D c in
     if f64_le risk (Fin 0) then Some (''non-positive risk: '' @ fmt_f64 6 risk)
     else if f64_le reward (Fin 0) then Some (''non-positive reward: '' @ fmt_f64 6 reward)
     else let rr = f64_div reward risk in
       if f64_lt rr (se_min_risk_reward cfg)
       then Some (''R:R '' @ fmt_f64 2 rr @ '' < '' @ fmt_f64 2 (se_min_risk_reward cfg))
       else None)\<rparr>"

definition min_ai_score_filter :: selector_filter where
  "min_ai_score_filter = \<lparr>sf_tag = ''min_ai_score'', sf_evaluate = (\<lambda>c cfg.
     if f64_lt (ca_ai_score c) (se_min_ai_score cfg)
     then Some (''ai_score '' @ fmt_f64 3 (ca_ai_score c) @ '' < '' @ fmt_f64 3 (se_min_ai_score cfg))
     else None)\<rparr>"

definition max_risk_pct_filter :: selector_filter where
  "max_risk_pct_filter = \<lparr>sf_tag = ''max_risk_pct'', sf_evaluate = (\<lambda>c cfg.
     if f64_gt (ca_risk_pct c) (se_max_risk_pct cfg)
     then Some (''risk_pct '' @ fmt_f64 4 (ca_risk_pct c) @ '' > '' @ fmt_f64 4 (se_max_risk_pct cfg))
     else None)\<rparr>"

definition min_tier_filter :: selector_filter where
  "min_tier_filter = \<lparr>sf_tag = ''min_tier'', sf_evaluate = (\<lambda>c cfg.
     if ca_tier c < se_min_tier cfg
     then Some (''tier '' @ show_nat (ca_tier c) @ '' < '' @ show_nat (se_min_tier cfg)) else None)\<rparr>"

definition open_position_cap_filter :: selector_filter where
  "open_position_cap_filter = \<lparr>sf_tag = ''open_position_cap'', sf_evaluate = (\<lambda>c cfg.
     if se_max_open_positions_per_symbol cfg \<le> ca_open_positions_on_symbol c
     then Some (''open_positions '' @ show_nat (ca_open_positions_on_symbol c) @ '' >= cap ''
            @ show_nat (se_max_open_positions_per_symbol cfg))
     else None)\<rparr>"

definition liquidation_cooldown_filter :: selector_filter where
  "liquidation_cooldown_filter = \<lparr>sf_tag = ''liquidation_cooldown'', sf_evaluate = (\<lambda>c cfg.
     if ca_under_liquidation_cooldown c then Some ''symbol under post-liquidation cooldown''
     else None)\<rparr>"

lemmas filter_defs [guard_simps] = min_risk_reward_filter_def min_ai_score_filter_def
  max_risk_pct_filter_def min_tier_filter_def open_position_cap_filter_def
  liquidation_cooldown_filter_def

subsection \<open>The registry\<close>

definition selector_defaults :: "dlib \<Rightarrow> selector_filter list" where
  "selector_defaults D = [min_ai_score_filter, min_tier_filter, max_risk_pct_filter,
     min_risk_reward_filter D, open_position_cap_filter, liquidation_cooldown_filter]"

definition composite_score :: "dlib \<Rightarrow> setup_candidate \<Rightarrow> f64" where
  "composite_score D c = (let (risk, reward) = risk_reward D c;
       rr_clamped = (if f64_gt risk (Fin 0) \<and> f64_gt reward (Fin 0)
         then f64_div (f64_min (f64_div reward risk) (Fin 5)) (Fin 5) else Fin 0)
     in f64_add (f64_mul (round64 (7 / 10)) (ca_ai_score c)) (f64_mul (round64 (3 / 10)) rr_clamped))"

definition selector_evaluate ::
  "dlib \<Rightarrow> selector_filter list \<Rightarrow> setup_candidate \<Rightarrow> selector_config \<Rightarrow> selection_outcome"
where
  "selector_evaluate D filters c cfg = (let effective = resolve_for cfg (ca_segment c) in
     case first_some (\<lambda>f. map_option (Pair (sf_tag f)) (sf_evaluate f c effective)) filters of
       Some (tag, reason) \<Rightarrow> Rejected (ca_setup_id c) tag reason
     | None \<Rightarrow> Selected (ca_setup_id c) (composite_score D c))"

record ranked_outcome =
  ro_selected :: "(f64 \<times> uuid) list"
  ro_rejections :: "(uuid, string \<times> string) hmap"

text \<open>
  The stable sort by descending score. The comparator treats a NaN as equal to everything and
  then orders nothing totally, in which case the standard library leaves the order open; the
  insertion below is one order, and no property rests on it where a score is NaN.
\<close>

fun insert_score :: "f64 \<times> uuid \<Rightarrow> (f64 \<times> uuid) list \<Rightarrow> (f64 \<times> uuid) list" where
  "insert_score x [] = [x]"
| "insert_score x (y # ys) = (if f64_lt (fst x) (fst y) then y # insert_score x ys else x # y # ys)"

definition sort_scores :: "(f64 \<times> uuid) list \<Rightarrow> (f64 \<times> uuid) list" where
  "sort_scores xs = foldr insert_score xs []"

definition rank_step ::
  "dlib \<Rightarrow> selector_filter list \<Rightarrow> selector_config \<Rightarrow> ranked_outcome \<Rightarrow> setup_candidate \<Rightarrow> ranked_outcome"
where
  "rank_step D filters cfg r c = (case selector_evaluate D filters c cfg of
     Selected pid score \<Rightarrow> r\<lparr>ro_selected := ro_selected r @ [(score, pid)]\<rparr>
   | Rejected pid tag reason \<Rightarrow> r\<lparr>ro_rejections := hm_insert pid (tag, reason) (ro_rejections r)\<rparr>)"

definition selector_rank ::
  "dlib \<Rightarrow> selector_filter list \<Rightarrow> setup_candidate list \<Rightarrow> selector_config \<Rightarrow> ranked_outcome"
where
  "selector_rank D filters cs cfg =
     (let r = foldl (rank_step D filters cfg) \<lparr>ro_selected = [], ro_rejections = hm_empty\<rparr> cs
      in r\<lparr>ro_selected := sort_scores (ro_selected r)\<rparr>)"

subsection \<open>Selection\<close>

lemma selector_evaluate_cases:
  "selector_evaluate D fs c cfg = Selected (ca_setup_id c) (composite_score D c) \<and>
     (\<forall>f \<in> set fs. sf_evaluate f c (resolve_for cfg (ca_segment c)) = None) \<or>
   (\<exists>f \<in> set fs. \<exists>reason. selector_evaluate D fs c cfg = Rejected (ca_setup_id c) (sf_tag f) reason \<and>
     sf_evaluate f c (resolve_for cfg (ca_segment c)) = Some reason)"
proof (cases "first_some (\<lambda>f. map_option (Pair (sf_tag f))
      (sf_evaluate f c (resolve_for cfg (ca_segment c)))) fs")
  case None
  then have "\<forall>f \<in> set fs. sf_evaluate f c (resolve_for cfg (ca_segment c)) = None"
    by (simp add: first_some_None)
  with None show ?thesis by (simp add: selector_evaluate_def)
next
  case (Some a)
  then obtain f where f: "f \<in> set fs"
    "map_option (Pair (sf_tag f)) (sf_evaluate f c (resolve_for cfg (ca_segment c))) = Some a"
    using first_some_member by fastforce
  then obtain reason where "sf_evaluate f c (resolve_for cfg (ca_segment c)) = Some reason"
    "a = (sf_tag f, reason)" by auto
  with Some f(1) show ?thesis by (auto simp: selector_evaluate_def)
qed


text \<open>The thresholds of a segment, field by field.\<close>

lemma resolve_for_fields:
  "hm_get (se_segment_overrides c) g = Some ov \<Longrightarrow>
     se_min_ai_score (resolve_for c g) = unwrap_or (ov_min_ai_score ov) (se_min_ai_score c)"
  "hm_get (se_segment_overrides c) g = Some ov \<Longrightarrow>
     se_max_risk_pct (resolve_for c g) = unwrap_or (ov_max_risk_pct ov) (se_max_risk_pct c)"
  "hm_get (se_segment_overrides c) g = None \<Longrightarrow> resolve_for c g = c"
  by (simp_all add: resolve_for_def)

subsection \<open>Ranking\<close>

lemma mset_insert_score [simp]: "mset (insert_score x ys) = add_mset x (mset ys)"
  by (induction ys) auto

lemma mset_sort_scores [simp]: "mset (sort_scores xs) = mset xs"
  unfolding sort_scores_def by (induction xs) auto

lemma sorted_insert_score:
  assumes "sorted_wrt (\<lambda>a b. f64_le (fst b) (fst a)) ys" and "\<forall>y \<in> set (x # ys). fst y \<noteq> NaN"
  shows "sorted_wrt (\<lambda>a b. f64_le (fst b) (fst a)) (insert_score x ys)"
  using assms
proof (induction ys)
  case Nil
  then show ?case by simp
next
  case (Cons y ys)
  have set: "set (insert_score x ys) = insert x (set ys)"
    using mset_insert_score [of x ys] by (metis set_mset_add_mset_insert set_mset_mset)
  show ?case
  proof (cases "f64_lt (fst x) (fst y)")
    case True
    then have "f64_le (fst x) (fst y)" by (simp add: f64_lt_le_not_le)
    with True Cons show ?thesis by (auto simp: set)
  next
    case False
    then have "f64_le (fst y) (fst x)" using Cons.prems(2) by (simp add: f64_not_lt)
    with False Cons.prems(1) show ?thesis by (auto intro: f64_le_trans)
  qed
qed

lemma sorted_sort_scores:
  "\<forall>x \<in> set xs. fst x \<noteq> NaN \<Longrightarrow> sorted_wrt (\<lambda>a b. f64_le (fst b) (fst a)) (sort_scores xs)"
proof (induction xs)
  case Nil
  then show ?case by (simp add: sort_scores_def)
next
  case (Cons x xs)
  have "set (sort_scores xs) = set xs"
    using mset_sort_scores [of xs] by (metis set_mset_mset)
  with Cons show ?case
    using sorted_insert_score [of "sort_scores xs" x] by (simp add: sort_scores_def)
qed

definition selected_pairs ::
  "dlib \<Rightarrow> selector_filter list \<Rightarrow> selector_config \<Rightarrow> setup_candidate list \<Rightarrow> (f64 \<times> uuid) list"
where
  "selected_pairs D fs cfg cs = map (\<lambda>c. (composite_score D c, ca_setup_id c))
     (filter (\<lambda>c. is_selected (selector_evaluate D fs c cfg)) cs)"

lemma rank_step_simps:
  "selector_evaluate D fs c cfg = Selected pid sc \<Longrightarrow>
     rank_step D fs cfg r c = r\<lparr>ro_selected := ro_selected r @ [(sc, pid)]\<rparr>"
  "selector_evaluate D fs c cfg = Rejected pid tag reason \<Longrightarrow>
     rank_step D fs cfg r c = r\<lparr>ro_rejections := hm_insert pid (tag, reason) (ro_rejections r)\<rparr>"
  by (simp_all add: rank_step_def)

lemma rank_fold:
  "ro_selected (foldl (rank_step D fs cfg) r cs) = ro_selected r @ selected_pairs D fs cfg cs"
proof (induction cs arbitrary: r)
  case Nil
  then show ?case by (simp add: selected_pairs_def)
next
  case (Cons c cs)
  from selector_evaluate_cases [of D fs c cfg] show ?case
    by (auto simp: Cons.IH rank_step_simps selected_pairs_def)
qed

lemma rank_rejections:
  "hm_get (ro_rejections (foldl (rank_step D fs cfg) r cs)) pid =
     (case filter (\<lambda>c. ca_setup_id c = pid \<and> \<not> is_selected (selector_evaluate D fs c cfg)) cs of
        [] \<Rightarrow> hm_get (ro_rejections r) pid
      | xs \<Rightarrow> (case selector_evaluate D fs (last xs) cfg of
            Rejected i tag reason \<Rightarrow> Some (tag, reason) | Selected i sc \<Rightarrow> None))"
proof (induction cs arbitrary: r)
  case Nil
  then show ?case by simp
next
  case (Cons c cs)
  from selector_evaluate_cases [of D fs c cfg] show ?case
  proof (elim disjE conjE bexE exE)
    fix f reason
    assume e: "selector_evaluate D fs c cfg = Rejected (ca_setup_id c) (sf_tag f) reason"
    show ?case by (auto simp: Cons.IH rank_step_simps(2) [OF e] e split: list.splits)
  next
    assume e: "selector_evaluate D fs c cfg = Selected (ca_setup_id c) (composite_score D c)"
    show ?case by (simp add: Cons.IH rank_step_simps(1) [OF e] e cong: list.case_cong)
  qed
qed

text \<open>
  C25. Ranking a slate splits it. For any filters and a slate of distinct setups the ranked list
  holds the score and id of exactly the selected candidates, every rejected one is recorded with
  the tag and reason of its rejection and no selected one is, and where no score is NaN the list
  is in descending order of score.
\<close>

theorem rank_splits_slate:
  assumes "distinct (map ca_setup_id cs)"
  shows "mset (ro_selected (selector_rank D fs cs cfg)) =
      image_mset (\<lambda>c. (composite_score D c, ca_setup_id c))
        (filter_mset (\<lambda>c. is_selected (selector_evaluate D fs c cfg)) (mset cs)) \<and>
    (\<forall>c \<in> set cs. hm_get (ro_rejections (selector_rank D fs cs cfg)) (ca_setup_id c) =
      (case selector_evaluate D fs c cfg of
         Rejected pid tag reason \<Rightarrow> Some (tag, reason) | Selected pid score \<Rightarrow> None)) \<and>
    ((\<forall>c \<in> set cs. composite_score D c \<noteq> NaN) \<longrightarrow>
      sorted_wrt (\<lambda>a b. f64_le (fst b) (fst a)) (ro_selected (selector_rank D fs cs cfg)))"
proof (intro conjI ballI impI)
  let ?r = "foldl (rank_step D fs cfg) \<lparr>ro_selected = [], ro_rejections = hm_empty\<rparr> cs"
  have sel: "ro_selected (selector_rank D fs cs cfg) = sort_scores (selected_pairs D fs cfg cs)"
    by (simp add: selector_rank_def Let_def rank_fold)
  have rej: "ro_rejections (selector_rank D fs cs cfg) = ro_rejections ?r"
    by (simp add: selector_rank_def Let_def)
  show "mset (ro_selected (selector_rank D fs cs cfg)) =
      image_mset (\<lambda>c. (composite_score D c, ca_setup_id c))
        (filter_mset (\<lambda>c. is_selected (selector_evaluate D fs c cfg)) (mset cs))"
    by (simp add: sel selected_pairs_def mset_filter)
  show "sorted_wrt (\<lambda>a b. f64_le (fst b) (fst a)) (ro_selected (selector_rank D fs cs cfg))"
    if "\<forall>c \<in> set cs. composite_score D c \<noteq> NaN"
    unfolding sel by (rule sorted_sort_scores) (use that in \<open>auto simp: selected_pairs_def\<close>)
  fix c assume c: "c \<in> set cs"
  define P where "P = (\<lambda>d. \<not> is_selected (selector_evaluate D fs d cfg))"
  have only: "filter (\<lambda>d. ca_setup_id d = ca_setup_id c \<and> P d) cs = (if P c then [c] else [])"
    using assms c
  proof (induction cs)
    case (Cons d ds)
    show ?case
    proof (cases "d = c")
      case True
      with Cons.prems have "\<forall>x \<in> set ds. ca_setup_id x \<noteq> ca_setup_id c"
        by (metis distinct.simps(2) image_eqI image_set list.simps(9))
      then have "filter (\<lambda>d. ca_setup_id d = ca_setup_id c \<and> P d) ds = []"
        by (simp add: filter_empty_conv)
      with True show ?thesis by simp
    next
      case False
      with Cons.prems have "ca_setup_id d \<noteq> ca_setup_id c" by force
      with False Cons show ?thesis by simp
    qed
  qed simp
  show "hm_get (ro_rejections (selector_rank D fs cs cfg)) (ca_setup_id c) =
      (case selector_evaluate D fs c cfg of
         Rejected pid tag reason \<Rightarrow> Some (tag, reason) | Selected pid score \<Rightarrow> None)"
    using selector_evaluate_cases [of D fs c cfg] only
    unfolding rej rank_rejections P_def by auto
qed

subsection \<open>Witnesses\<close>

definition sample_candidate :: "uuid \<Rightarrow> f64 \<Rightarrow> setup_candidate" where
  "sample_candidate pid ai = \<lparr>ca_setup_id = pid, ca_exchange = ''binance'', ca_segment = Futures,
     ca_symbol = ''BTCUSDT'', ca_timeframe = ''1h'', ca_profile = ''t'', ca_direction = DirLong,
     ca_entry_price = 100, ca_stop_price = 90, ca_target_price = 120, ca_ai_score = ai,
     ca_risk_pct = Fin (1 / 64), ca_tier = 8, ca_open_positions_on_symbol = 0,
     ca_under_liquidation_cooldown = False\<rparr>"

theorem rank_splits_slate_witness:
  "hm_get (ro_rejections (selector_rank exact_lib [min_ai_score_filter]
      [sample_candidate 1 (Fin 0), sample_candidate 2 (Fin 1)]
      (selector_config_default\<lparr>se_min_ai_score := Fin (1 / 2)\<rparr>))) 1
    = Some (''min_ai_score'', ''ai_score '' @ fmt_f64 3 (Fin 0) @ '' < '' @ fmt_f64 3 (Fin (1 / 2)))"
  using rank_splits_slate [of "[sample_candidate 1 (Fin 0), sample_candidate 2 (Fin 1)]" exact_lib
      "[min_ai_score_filter]" "selector_config_default\<lparr>se_min_ai_score := Fin (1 / 2)\<rparr>"]
  by (simp add: sample_candidate_def selector_evaluate_def min_ai_score_filter_def resolve_for_def
      selector_config_default_def)

end
