(* ===== verification/Domain.thy ===== *)
theory Domain
  imports Decimals
begin

text \<open>
  The vocabulary of \<open>qtss-domain\<close> the trading path is written in: instruments and
  timeframes (\<open>v2/instrument.rs\<close>, \<open>v2/timeframe.rs\<close>), bars (\<open>v2/bar.rs\<close>), run modes
  (\<open>execution.rs\<close>), targets (\<open>v2/detection.rs\<close>), and the intents, orders and rejections that
  risk and execution exchange (\<open>v2/intent.rs\<close>).
\<close>

subsection \<open>Instruments\<close>

datatype venue = Binance | Bist | Nasdaq | Nyse | Bybit | Okx | Polygon | Alpaca | Ibkr | Custom string

fun venue_as_key :: "venue \<Rightarrow> string" where
  "venue_as_key Binance = ''binance''"
| "venue_as_key Bist = ''bist''"
| "venue_as_key Nasdaq = ''nasdaq''"
| "venue_as_key Nyse = ''nyse''"
| "venue_as_key Bybit = ''bybit''"
| "venue_as_key Okx = ''okx''"
| "venue_as_key Polygon = ''polygon''"
| "venue_as_key Alpaca = ''alpaca''"
| "venue_as_key Ibkr = ''ibkr''"
| "venue_as_key (Custom s) = s"

datatype asset_class = CryptoSpot | CryptoFutures | CryptoMargin | CryptoOptions
  | EquityBist | EquityNasdaq | EquityNyse | Forex | Commodity

fun config_scope_key :: "asset_class \<Rightarrow> string" where
  "config_scope_key CryptoSpot = ''crypto_spot''"
| "config_scope_key CryptoFutures = ''crypto_futures''"
| "config_scope_key CryptoMargin = ''crypto_margin''"
| "config_scope_key CryptoOptions = ''crypto_options''"
| "config_scope_key EquityBist = ''equity_bist''"
| "config_scope_key EquityNasdaq = ''equity_nasdaq''"
| "config_scope_key EquityNyse = ''equity_nyse''"
| "config_scope_key Forex = ''forex''"
| "config_scope_key Commodity = ''commodity''"

record session_calendar =
  cal_id :: string

record instrument =
  in_venue :: venue
  in_asset_class :: asset_class
  in_symbol :: string
  in_quote_ccy :: string
  in_tick_size :: dec
  in_lot_size :: dec
  in_session :: session_calendar

definition canonical_id :: "instrument \<Rightarrow> string" where
  "canonical_id i = venue_as_key (in_venue i) @ '':'' @ config_scope_key (in_asset_class i)
     @ '':'' @ in_symbol i"

datatype timeframe = M1 | M3 | M5 | M15 | M30 | H1 | H2 | H4 | H6 | H8 | H12 | D1 | D3 | W1 | Mn1

fun timeframe_seconds :: "timeframe \<Rightarrow> int" where
  "timeframe_seconds M1 = 60"
| "timeframe_seconds M3 = 180"
| "timeframe_seconds M5 = 300"
| "timeframe_seconds M15 = 900"
| "timeframe_seconds M30 = 1800"
| "timeframe_seconds H1 = 3600"
| "timeframe_seconds H2 = 7200"
| "timeframe_seconds H4 = 14400"
| "timeframe_seconds H6 = 21600"
| "timeframe_seconds H8 = 28800"
| "timeframe_seconds H12 = 43200"
| "timeframe_seconds D1 = 86400"
| "timeframe_seconds D3 = 259200"
| "timeframe_seconds W1 = 604800"
| "timeframe_seconds Mn1 = 2592000"

record bar =
  bar_instrument :: instrument
  bar_timeframe :: timeframe
  bar_open_time :: timestamp
  bar_open :: dec
  bar_high :: dec
  bar_low :: dec
  bar_close :: dec
  bar_volume :: dec
  bar_closed :: bool

subsection \<open>Intents and orders\<close>

datatype run_mode = Live | Dry | Backtest

datatype side = Long | Short

datatype order_type = Market | Limit | Stop | StopLimit | Oco | Iceberg

datatype time_in_force = Gtc | Ioc | Fok | Day | Gtd

datatype sizing_hint = RiskPct dec | Kelly | FixedNotional dec | VolTarget

datatype target_method = FibExtension | FibRetracement | MeasuredMove | HarmonicPrz
  | ElliottProjection | SupportResistance | Cluster

text \<open>An \<open>f32\<close> is the \<open>f64\<close> of the same value.\<close>

record target =
  tg_price :: dec
  tg_method :: target_method
  tg_weight :: f64
  tg_label :: "string option"

record trade_intent =
  ti_id :: uuid
  ti_created_at :: timestamp
  ti_strategy_id :: string
  ti_instrument :: instrument
  ti_timeframe :: timeframe
  ti_side :: side
  ti_sizing :: sizing_hint
  ti_entry_price :: "dec option"
  ti_stop_loss :: dec
  ti_take_profits :: "target list"
  ti_time_in_force :: time_in_force
  ti_time_stop_secs :: "int option"
  ti_source_signals :: "uuid list"
  ti_conviction :: f64
  ti_mode :: run_mode

record order_request =
  or_client_order_id :: uuid
  or_instrument :: instrument
  or_side :: side
  or_order_type :: order_type
  or_quantity :: dec
  or_price :: "dec option"
  or_stop_price :: "dec option"
  or_time_in_force :: time_in_force
  or_reduce_only :: bool
  or_post_only :: bool
  or_intent_id :: "uuid option"

record approved_intent =
  ap_id :: uuid
  ap_approved_at :: timestamp
  ap_intent :: trade_intent
  ap_quantity :: dec
  ap_notional :: dec
  ap_checks_passed :: "string list"
  ap_adjustments :: "string list"

datatype risk_rejection =
    KillSwitchActive string
  | MaxOpenPositionsReached nat nat
  | MaxLeverageExceeded string string
  | MaxDailyLossReached string string
  | DrawdownExceeded string string
  | StopDistanceTooSmall
  | InvalidIntent string

subsection \<open>Sample values\<close>

definition sample_instrument :: instrument where
  "sample_instrument = \<lparr>in_venue = Binance, in_asset_class = CryptoFutures, in_symbol = ''BTCUSDT'',
     in_quote_ccy = ''USDT'', in_tick_size = 1 / 10, in_lot_size = 1 / 1000,
     in_session = \<lparr>cal_id = ''binance_24x7''\<rparr>\<rparr>"

text \<open>A long entry at 100 with a stop at 90 and two targets.\<close>

definition sample_target :: "dec \<Rightarrow> f64 \<Rightarrow> target" where
  "sample_target price w = \<lparr>tg_price = price, tg_method = FibExtension, tg_weight = w, tg_label = None\<rparr>"

definition sample_intent :: "sizing_hint \<Rightarrow> trade_intent" where
  "sample_intent h = \<lparr>ti_id = 1, ti_created_at = 0, ti_strategy_id = ''s'',
     ti_instrument = sample_instrument, ti_timeframe = H1, ti_side = Long, ti_sizing = h,
     ti_entry_price = Some 100, ti_stop_loss = 90,
     ti_take_profits = [sample_target 110 (Fin (1 / 2)), sample_target 120 (Fin (1 / 2))],
     ti_time_in_force = Gtc, ti_time_stop_secs = None, ti_source_signals = [],
     ti_conviction = Fin 1, ti_mode = Dry\<rparr>"

lemma sample_intent_simps [simp]:
  "ti_side (sample_intent h) = Long" "ti_sizing (sample_intent h) = h"
  "ti_entry_price (sample_intent h) = Some 100" "ti_stop_loss (sample_intent h) = 90"
  "ti_take_profits (sample_intent h) =
     [sample_target 110 (Fin (1 / 2)), sample_target 120 (Fin (1 / 2))]"
  "ti_id (sample_intent h) = 1" "ti_mode (sample_intent h) = Dry"
  "ti_instrument (sample_intent h) = sample_instrument"
  "sample_intent h\<lparr>ti_sizing := h'\<rparr> = sample_intent h'"
  by (simp_all add: sample_intent_def)

end
