(* ===== verification/PreTrade.thy ===== *)
theory PreTrade
  imports Domain
begin

text \<open>
  The pre-trade side of \<open>qtss-risk\<close>: the account snapshot (\<open>state.rs\<close>), the configuration and
  its validation (\<open>config.rs\<close>), the checks (\<open>checks.rs\<close>), the sizers and their registry
  (\<open>sizing.rs\<close>) and the engine that walks them (\<open>engine.rs\<close>). Checks and sizers are values of a
  record, as the trait objects of the engine are, so the theorems about the engine hold for
  any registered checks.
\<close>

subsection \<open>The account\<close>

record account_state =
  as_equity :: dec
  as_peak_equity :: dec
  as_day_pnl :: dec
  as_open_positions :: nat
  as_current_leverage :: dec
  as_kill_switch_manual :: bool

definition drawdown :: "dlib \<Rightarrow> account_state \<Rightarrow> dec" where
  "drawdown D s = (if as_peak_equity s \<le> 0 then 0
     else let dd = d_div D (d_sub D (as_peak_equity s) (as_equity s)) (as_peak_equity s) in
       if dd < 0 then 0 else dd)"

definition day_loss_pct :: "dlib \<Rightarrow> account_state \<Rightarrow> dec" where
  "day_loss_pct D s = (if as_equity s \<le> 0 \<or> 0 \<le> as_day_pnl s then 0
     else d_div D (- as_day_pnl s) (as_equity s))"

subsection \<open>Configuration\<close>

record risk_config =
  rk_killswitch_drawdown :: dec
  rk_max_drawdown :: dec
  rk_max_daily_loss :: dec
  rk_max_open_positions :: nat
  rk_max_leverage :: dec
  rk_max_risk_per_trade :: dec

datatype risk_error = InvalidConfig string

definition risk_config_defaults :: risk_config where
  "risk_config_defaults = \<lparr>rk_killswitch_drawdown = 8 / 100, rk_max_drawdown = 5 / 100,
     rk_max_daily_loss = 2 / 100, rk_max_open_positions = 8, rk_max_leverage = 1,
     rk_max_risk_per_trade = 1 / 100\<rparr>"

definition risk_config_validate :: "risk_config \<Rightarrow> risk_error option" where
  "risk_config_validate c = (
     if rk_killswitch_drawdown c \<le> 0
       then Some (InvalidConfig ''killswitch_drawdown must be > 0'')
     else if rk_max_drawdown c \<le> 0 \<or> rk_killswitch_drawdown c < rk_max_drawdown c
       then Some (InvalidConfig ''max_drawdown must be > 0 and <= killswitch_drawdown'')
     else if rk_max_daily_loss c \<le> 0 then Some (InvalidConfig ''max_daily_loss must be > 0'')
     else if rk_max_open_positions c = 0 then Some (InvalidConfig ''max_open_positions must be > 0'')
     else if rk_max_leverage c \<le> 0 then Some (InvalidConfig ''max_leverage must be > 0'')
     else if rk_max_risk_per_trade c \<le> 0 then Some (InvalidConfig ''max_risk_per_trade must be > 0'')
     else None)"

lemma risk_config_valid:
  "risk_config_validate c = None \<longleftrightarrow>
     0 < rk_killswitch_drawdown c \<and> 0 < rk_max_drawdown c \<and>
     rk_max_drawdown c \<le> rk_killswitch_drawdown c \<and> 0 < rk_max_daily_loss c \<and>
     0 < rk_max_open_positions c \<and> 0 < rk_max_leverage c \<and> 0 < rk_max_risk_per_trade c"
  by (auto simp: risk_config_validate_def)

subsection \<open>Checks\<close>

record risk_check =
  rc_name :: string
  rc_evaluate :: "trade_intent \<Rightarrow> account_state \<Rightarrow> risk_config \<Rightarrow> risk_rejection option"

definition kill_switch_check :: "dlib \<Rightarrow> risk_check" where
  "kill_switch_check D = \<lparr>rc_name = ''kill_switch'', rc_evaluate = (\<lambda>intent s cfg.
     if as_kill_switch_manual s then Some (KillSwitchActive ''manual'')
     else if rk_killswitch_drawdown cfg \<le> drawdown D s
       then Some (KillSwitchActive (''drawdown '' @ d_show D (drawdown D s) @ '' >= killswitch ''
              @ d_show D (rk_killswitch_drawdown cfg)))
     else None)\<rparr>"

definition drawdown_check :: "dlib \<Rightarrow> risk_check" where
  "drawdown_check D = \<lparr>rc_name = ''drawdown'', rc_evaluate = (\<lambda>intent s cfg.
     let dd = drawdown D s in
     if rk_max_drawdown cfg \<le> dd
       then Some (DrawdownExceeded (d_show D dd) (d_show D (rk_max_drawdown cfg)))
     else None)\<rparr>"

definition daily_loss_check :: "dlib \<Rightarrow> risk_check" where
  "daily_loss_check D = \<lparr>rc_name = ''daily_loss'', rc_evaluate = (\<lambda>intent s cfg.
     let dl = day_loss_pct D s in
     if rk_max_daily_loss cfg \<le> dl
       then Some (MaxDailyLossReached (d_show D dl) (d_show D (rk_max_daily_loss cfg)))
     else None)\<rparr>"

definition max_open_positions_check :: risk_check where
  "max_open_positions_check = \<lparr>rc_name = ''max_open_positions'', rc_evaluate = (\<lambda>intent s cfg.
     if rk_max_open_positions cfg \<le> as_open_positions s
       then Some (MaxOpenPositionsReached (as_open_positions s) (rk_max_open_positions cfg))
     else None)\<rparr>"

definition leverage_check :: "dlib \<Rightarrow> risk_check" where
  "leverage_check D = \<lparr>rc_name = ''leverage'', rc_evaluate = (\<lambda>intent s cfg.
     if rk_max_leverage cfg < as_current_leverage s
       then Some (MaxLeverageExceeded (d_show D (as_current_leverage s)) (d_show D (rk_max_leverage cfg)))
     else None)\<rparr>"

definition stop_distance_check :: "dlib \<Rightarrow> risk_check" where
  "stop_distance_check D = \<lparr>rc_name = ''stop_distance'', rc_evaluate = (\<lambda>intent s cfg.
     case ti_entry_price intent of None \<Rightarrow> None
     | Some entry \<Rightarrow> if \<bar>d_sub D entry (ti_stop_loss intent)\<bar> = 0 then Some StopDistanceTooSmall
         else None)\<rparr>"

lemmas check_defs [guard_simps] = kill_switch_check_def drawdown_check_def daily_loss_check_def
  max_open_positions_check_def leverage_check_def stop_distance_check_def

subsection \<open>Sizing\<close>

record sizer_output =
  so_quantity :: dec
  so_adjustments :: "string list"

type_synonym sizer = "trade_intent \<Rightarrow> account_state \<Rightarrow> risk_config \<Rightarrow> risk_rejection + sizer_output"

fun hint_tag :: "sizing_hint \<Rightarrow> string" where
  "hint_tag (RiskPct pct) = ''risk_pct''"
| "hint_tag Kelly = ''kelly''"
| "hint_tag (FixedNotional n) = ''fixed_notional''"
| "hint_tag VolTarget = ''vol_target''"

type_synonym sizer_registry = "(string, sizer) hmap"

definition sizer_register :: "string \<Rightarrow> sizer \<Rightarrow> sizer_registry \<Rightarrow> sizer_registry" where
  "sizer_register tag z r = hm_insert tag z r"

definition sizer_get :: "sizer_registry \<Rightarrow> string \<Rightarrow> sizer option" where
  "sizer_get r tag = hm_get r tag"

definition risk_pct_sizer :: "dlib \<Rightarrow> sizer" where
  "risk_pct_sizer D intent s cfg = (case ti_sizing intent of
     RiskPct pct \<Rightarrow>
       and_then (ok_or (InvalidIntent ''entry_price required'') (ti_entry_price intent)) (\<lambda>entry.
         let distance = \<bar>d_sub D entry (ti_stop_loss intent)\<bar> in
         if distance \<le> 0 then Err StopDistanceTooSmall
         else let trim = rk_max_risk_per_trade cfg < pct;
                adjustments = (if trim then [''risk_pct trimmed from '' @ d_show D pct @ '' to ''
                  @ d_show D (rk_max_risk_per_trade cfg)] else []);
                effective_pct = (if trim then rk_max_risk_per_trade cfg else pct);
                risk_quote = d_mul D (as_equity s) effective_pct
              in Ok \<lparr>so_quantity = d_div D risk_quote distance, so_adjustments = adjustments\<rparr>)
   | _ \<Rightarrow> Err (InvalidIntent ''expected RiskPct''))"

definition fixed_notional_sizer :: "dlib \<Rightarrow> sizer" where
  "fixed_notional_sizer D intent s cfg = (case ti_sizing intent of
     FixedNotional notional \<Rightarrow>
       and_then (ok_or (InvalidIntent ''entry_price required'') (ti_entry_price intent)) (\<lambda>entry.
         if entry \<le> 0 then Err (InvalidIntent ''entry_price must be > 0'')
         else Ok \<lparr>so_quantity = d_div D notional entry, so_adjustments = []\<rparr>)
   | _ \<Rightarrow> Err (InvalidIntent ''expected FixedNotional''))"

definition vol_target_sizer :: "dlib \<Rightarrow> sizer" where
  "vol_target_sizer D intent s cfg =
     and_then (risk_pct_sizer D (intent\<lparr>ti_sizing := RiskPct (rk_max_risk_per_trade cfg)\<rparr>) s cfg)
       (\<lambda>out. Ok (out\<lparr>so_adjustments :=
          so_adjustments out @ [''vol_target fell back to risk_pct cap'']\<rparr>))"

definition kelly_sizer :: "dlib \<Rightarrow> sizer" where
  "kelly_sizer D intent s cfg =
     and_then (risk_pct_sizer D
         (intent\<lparr>ti_sizing := RiskPct (d_mul D (rk_max_risk_per_trade cfg) (1 / 4))\<rparr>) s cfg)
       (\<lambda>out. Ok (out\<lparr>so_adjustments :=
          so_adjustments out @ [''kelly fell back to quarter-kelly of cap'']\<rparr>))"

definition sizers_with_defaults :: "dlib \<Rightarrow> sizer_registry" where
  "sizers_with_defaults D =
     sizer_register ''kelly'' (kelly_sizer D)
       (sizer_register ''vol_target'' (vol_target_sizer D)
         (sizer_register ''fixed_notional'' (fixed_notional_sizer D)
           (sizer_register ''risk_pct'' (risk_pct_sizer D) hm_empty)))"

subsection \<open>The engine\<close>

record risk_engine =
  re_config :: risk_config
  re_checks :: "risk_check list"
  re_sizers :: sizer_registry

definition risk_engine_new :: "risk_config \<Rightarrow> sizer_registry \<Rightarrow> risk_error + risk_engine" where
  "risk_engine_new cfg sizers = (case risk_config_validate cfg of
     Some e \<Rightarrow> Err e
   | None \<Rightarrow> Ok \<lparr>re_config = cfg, re_checks = [], re_sizers = sizers\<rparr>)"

definition register_check :: "risk_check \<Rightarrow> risk_engine \<Rightarrow> risk_engine" where
  "register_check c e = e\<lparr>re_checks := re_checks e @ [c]\<rparr>"

text \<open>The loop over the checks: the first rejection ends it, the names of the others are kept.\<close>

fun walk_checks ::
  "trade_intent \<Rightarrow> account_state \<Rightarrow> risk_config \<Rightarrow> risk_check list \<Rightarrow> string list
    \<Rightarrow> risk_rejection + string list"
where
  "walk_checks intent s cfg [] passed = Ok passed"
| "walk_checks intent s cfg (c # cs) passed = (case rc_evaluate c intent s cfg of
     Some r \<Rightarrow> Err r
   | None \<Rightarrow> walk_checks intent s cfg cs (passed @ [rc_name c]))"

text \<open>
  \<open>approve\<close>; the fresh id and the clock are the arguments \<open>new_id\<close> and \<open>now\<close>. The text of a
  sizer that is not registered names the tag.
\<close>

definition approve ::
  "dlib \<Rightarrow> risk_engine \<Rightarrow> uuid \<Rightarrow> timestamp \<Rightarrow> trade_intent \<Rightarrow> account_state
    \<Rightarrow> risk_rejection + approved_intent"
where
  "approve D e new_id now intent s =
     and_then (walk_checks intent s (re_config e) (re_checks e) []) (\<lambda>passed.
     and_then (ok_or (InvalidIntent (''no sizer registered for '' @ hint_tag (ti_sizing intent)))
         (sizer_get (re_sizers e) (hint_tag (ti_sizing intent)))) (\<lambda>z.
     and_then (z intent s (re_config e)) (\<lambda>sized.
     and_then (ok_or (InvalidIntent ''entry_price required'') (ti_entry_price intent)) (\<lambda>entry.
       let notional = d_mul D (so_quantity sized) entry;
         max_notional = d_mul D (as_equity s) (rk_max_leverage (re_config e));
         trim = (max_notional < notional \<and> 0 < entry);
         adjustments = so_adjustments sized
           @ (if trim then [''quantity trimmed to honour max_leverage''] else []);
         final_qty = (if trim then d_div D max_notional entry else so_quantity sized);
         final_notional = d_mul D final_qty entry
       in if final_qty \<le> 0 then Err (InvalidIntent ''sized quantity is zero or negative'')
          else Ok \<lparr>ap_id = new_id, ap_approved_at = now, ap_intent = intent,
            ap_quantity = final_qty, ap_notional = final_notional,
            ap_checks_passed = passed, ap_adjustments = adjustments\<rparr>))))"

subsection \<open>The engine on every branch\<close>

lemma walk_checks_Ok:
  "walk_checks intent s cfg cs passed = Inr ns \<longleftrightarrow>
     (\<forall>c \<in> set cs. rc_evaluate c intent s cfg = None) \<and> ns = passed @ map rc_name cs"
  by (induction cs arbitrary: passed) (auto split: option.splits)

lemma walk_checks_Err:
  "walk_checks intent s cfg cs passed = Inl r \<longleftrightarrow>
     first_some (\<lambda>c. rc_evaluate c intent s cfg) cs = Some r"
  by (induction cs arbitrary: passed) (auto split: option.splits)

text \<open>What a value of \<open>approve\<close> was made of.\<close>

lemma approve_Ok:
  assumes "approve D e new_id now intent s = Inr a" and "ti_entry_price intent = Some entry"
  shows "\<exists>z sized.
    sizer_get (re_sizers e) (hint_tag (ti_sizing intent)) = Some z \<and>
    z intent s (re_config e) = Inr sized \<and>
    (\<forall>c \<in> set (re_checks e). rc_evaluate c intent s (re_config e) = None) \<and>
    ap_checks_passed a = map rc_name (re_checks e) \<and> ap_intent a = intent \<and>
    0 < ap_quantity a \<and> ap_notional a = d_mul D (ap_quantity a) entry \<and>
    ap_id a = new_id \<and> ap_approved_at a = now \<and>
    ap_quantity a = (if d_mul D (as_equity s) (rk_max_leverage (re_config e))
         < d_mul D (so_quantity sized) entry \<and> 0 < entry
       then d_div D (d_mul D (as_equity s) (rk_max_leverage (re_config e))) entry
       else so_quantity sized)"
proof -
  let ?m = "d_mul D (as_equity s) (rk_max_leverage (re_config e))"
  from assms obtain passed z sized where
    w: "walk_checks intent s (re_config e) (re_checks e) [] = Inr passed"
    and z: "sizer_get (re_sizers e) (hint_tag (ti_sizing intent)) = Some z"
      "z intent s (re_config e) = Inr sized"
    unfolding approve_def by (auto simp: and_then_Ok ok_or_Ok)
  let ?q = "if ?m < d_mul D (so_quantity sized) entry \<and> 0 < entry
    then d_div D ?m entry else so_quantity sized"
  have pos: "0 < ?q"
    using assms w z unfolding approve_def by (auto simp: Let_def not_le split: if_splits)
  then have a: "ap_checks_passed a = passed" "ap_intent a = intent" "ap_quantity a = ?q"
      "ap_notional a = d_mul D ?q entry" "ap_id a = new_id" "ap_approved_at a = now"
    using assms w z unfolding approve_def by (auto simp: Let_def split: if_splits)
  from w have c: "\<forall>c \<in> set (re_checks e). rc_evaluate c intent s (re_config e) = None"
      "passed = map rc_name (re_checks e)"
    by (simp_all add: walk_checks_Ok)
  show ?thesis
    by (rule exI [of _ z], rule exI [of _ sized]) (use z a c pos in simp)
qed

lemma approve_Err_check:
  "first_some (\<lambda>c. rc_evaluate c intent s (re_config e)) (re_checks e) = Some r \<Longrightarrow>
     approve D e new_id now intent s = Inl r"
  unfolding approve_def by (simp flip: walk_checks_Err [where passed = "[]"])

text \<open>The trim takes from a representable size, it never adds.\<close>

lemma trim_shrinks:
  assumes "lawful D" "d_rnd D q = q" "0 < entry" "d_rnd D m = m" "m < d_mul D q entry"
  shows "d_div D m entry \<le> q"
proof -
  have "m \<le> q * entry"
  proof (rule ccontr)
    assume "\<not> m \<le> q * entry"
    then have "d_rnd D (q * entry) \<le> m"
      by (intro lawful_le_rep [OF assms(1) _ assms(4)]) simp
    with assms(5) show False by (simp add: d_mul_def)
  qed
  then have "m / entry \<le> q" using assms(3) by (simp add: pos_divide_le_eq)
  then show ?thesis
    unfolding d_div_def by (rule lawful_le_rep [OF assms(1) _ assms(2)])
qed

lemma trim_bound:
  assumes "lawful D" "precise D u" "0 \<le> u" "0 < entry" "0 \<le> m"
  shows "d_mul D (d_div D m entry) entry \<le> m + u * (1 + m + (1 + u) * (entry + m))"
proof -
  define q where "q = d_div D m entry"
  have nn: "0 \<le> m / entry" using assms by simp
  then have "q \<le> m / entry + u * (1 + m / entry)"
    unfolding q_def d_div_def by (rule precise_upper [OF assms(2)])
  then have "q * entry \<le> (m / entry + u * (1 + m / entry)) * entry"
    using assms(4) by (simp add: mult_right_mono)
  also have "\<dots> = m + u * (entry + m)" using assms(4) by (simp add: field_simps)
  finally have qe: "q * entry \<le> m + u * (entry + m)" .
  have "0 \<le> q" unfolding q_def d_div_def by (rule lawful_nonneg [OF assms(1) nn])
  then have "0 \<le> q * entry" using assms(4) by simp
  then have "d_mul D q entry \<le> q * entry + u * (1 + q * entry)"
    unfolding d_mul_def by (rule precise_upper [OF assms(2)])
  also have "\<dots> = (1 + u) * (q * entry) + u" by (simp add: algebra_simps)
  also have "\<dots> \<le> (1 + u) * (m + u * (entry + m)) + u"
    using qe assms(3) by (intro add_mono mult_left_mono) auto
  also have "\<dots> = m + u * (1 + m + (1 + u) * (entry + m))" by (simp add: algebra_simps)
  finally show ?thesis by (simp add: q_def)
qed

lemma precise_zero: "precise D u \<Longrightarrow> u = 0 \<Longrightarrow> d_rnd D x = x"
  by (auto simp: precise_def)

text \<open>
  C1. Approval is sound for any registered checks and any sizers. When \<open>approve\<close> returns an
  approved intent, every registered check passed and is listed by name in order, the intent is
  the one submitted, the quantity is positive, and for a positive entry price the leverage
  budget of the account is not negative and the notional keeps within it, up to the rounding of
  one division and one product (by nothing when arithmetic is exact).
\<close>

theorem approval_sound:
  assumes "lawful D" and "precise D u" and "0 \<le> u"
    and "approve D e new_id now intent s = Ok a"
    and "ti_entry_price intent = Some entry" and "0 < entry"
    and "m = d_mul D (as_equity s) (rk_max_leverage (re_config e))"
  shows "(\<forall>c \<in> set (re_checks e). rc_evaluate c intent s (re_config e) = None) \<and>
    ap_checks_passed a = map rc_name (re_checks e) \<and> ap_intent a = intent \<and>
    0 < ap_quantity a \<and> ap_notional a = d_mul D (ap_quantity a) entry \<and>
    0 \<le> m \<and> ap_notional a \<le> m + u * (1 + m + (1 + u) * (entry + m))"
proof -
  obtain sized :: sizer_output where a: "\<forall>c \<in> set (re_checks e). rc_evaluate c intent s (re_config e) = None"
    "ap_checks_passed a = map rc_name (re_checks e)" "ap_intent a = intent"
    "0 < ap_quantity a" "ap_notional a = d_mul D (ap_quantity a) entry"
    and q: "ap_quantity a = (if m < d_mul D (so_quantity sized) entry \<and> 0 < entry
         then d_div D m entry else so_quantity sized)"
    using approve_Ok [OF assms(4,5)] unfolding assms(7) by blast
  have n: "0 \<le> ap_notional a"
    using a(4,5) assms(6) by (auto simp: d_mul_def intro: lawful_nonneg [OF assms(1)])
  have m: "0 \<le> m \<and> ap_notional a \<le> m + u * (1 + m + (1 + u) * (entry + m))"
  proof (cases "m < d_mul D (so_quantity sized) entry")
    case True
    with q assms(6) have qm: "ap_quantity a = d_div D m entry" by simp
    with a(4) have "0 < m / entry"
      by (auto simp: d_div_def dest: lawful_pos_imp [OF assms(1)])
    with assms(6) have "0 \<le> m" by (simp add: zero_less_divide_iff)
    with trim_bound [OF assms(1-3,6)] a(5) qm show ?thesis by simp
  next
    case False
    with q have "ap_quantity a = so_quantity sized" by simp
    with False a(5) have le: "ap_notional a \<le> m" by simp
    with n have m0: "0 \<le> m" by simp
    have "0 \<le> u * (1 + m + (1 + u) * (entry + m))"
      using assms(3,6) m0 by (intro mult_nonneg_nonneg add_nonneg_nonneg) auto
    with le m0 show ?thesis by simp
  qed
  show ?thesis using a m by simp
qed

subsection \<open>The default checks and sizers\<close>

definition default_checks :: "dlib \<Rightarrow> risk_check list" where
  "default_checks D = [kill_switch_check D, drawdown_check D, daily_loss_check D,
     max_open_positions_check, leverage_check D, stop_distance_check D]"

definition default_engine :: "dlib \<Rightarrow> risk_config \<Rightarrow> risk_engine" where
  "default_engine D cfg =
     \<lparr>re_config = cfg, re_checks = default_checks D, re_sizers = sizers_with_defaults D\<rparr>"

lemma default_engine_registered:
  "risk_config_validate cfg = None \<Longrightarrow>
     map_sum (\<lambda>x. x) (\<lambda>e. fold register_check (default_checks D) e)
       (risk_engine_new cfg (sizers_with_defaults D)) = Ok (default_engine D cfg)"
  by (simp add: risk_engine_new_def register_check_def default_checks_def default_engine_def)

definition account_healthy :: "dlib \<Rightarrow> risk_config \<Rightarrow> account_state \<Rightarrow> bool" where
  "account_healthy D cfg s \<longleftrightarrow> \<not> as_kill_switch_manual s \<and>
     drawdown D s < rk_killswitch_drawdown cfg \<and> drawdown D s < rk_max_drawdown cfg \<and>
     day_loss_pct D s < rk_max_daily_loss cfg \<and>
     as_open_positions s < rk_max_open_positions cfg \<and>
     as_current_leverage s \<le> rk_max_leverage cfg"

lemma default_checks_pass:
  assumes "ti_entry_price intent = Some entry"
  shows "(\<forall>c \<in> set (default_checks D). rc_evaluate c intent s cfg = None) \<longleftrightarrow>
    account_healthy D cfg s \<and> d_sub D entry (ti_stop_loss intent) \<noteq> 0"
  using assms
  by (auto simp: default_checks_def check_defs account_healthy_def Let_def not_le not_less)

lemma default_sizers:
  "sizer_get (sizers_with_defaults D) (hint_tag h) = Some (case h of
     RiskPct pct \<Rightarrow> risk_pct_sizer D | Kelly \<Rightarrow> kelly_sizer D
   | FixedNotional n \<Rightarrow> fixed_notional_sizer D | VolTarget \<Rightarrow> vol_target_sizer D)"
  by (cases h) (simp_all add: sizers_with_defaults_def sizer_get_def sizer_register_def)

text \<open>The fraction of the equity a hint puts at risk before the cap.\<close>

definition hint_pct :: "dlib \<Rightarrow> risk_config \<Rightarrow> sizing_hint \<Rightarrow> dec option" where
  "hint_pct D cfg h = (case h of RiskPct p \<Rightarrow> Some p
     | Kelly \<Rightarrow> Some (d_mul D (rk_max_risk_per_trade cfg) (1 / 4))
     | VolTarget \<Rightarrow> Some (rk_max_risk_per_trade cfg) | FixedNotional n \<Rightarrow> None)"

lemma risk_sizer_quantity:
  assumes "hint_pct D cfg (ti_sizing intent) = Some pct" and "ti_entry_price intent = Some entry"
    and "sizer_get (sizers_with_defaults D) (hint_tag (ti_sizing intent)) = Some z"
  shows "z intent s cfg = Inr sized \<Longrightarrow>
      so_quantity sized = d_div D (d_mul D (as_equity s) (min pct (rk_max_risk_per_trade cfg)))
        \<bar>d_sub D entry (ti_stop_loss intent)\<bar> \<and> d_sub D entry (ti_stop_loss intent) \<noteq> 0"
    and "d_sub D entry (ti_stop_loss intent) \<noteq> 0 \<Longrightarrow> \<exists>sized. z intent s cfg = Inr sized"
  using assms unfolding hint_pct_def default_sizers
  by (auto simp: risk_pct_sizer_def kelly_sizer_def vol_target_sizer_def and_then_Ok Let_def min_def
      split: sizing_hint.splits if_splits)

text \<open>
  C2. The risk of an approved trade is capped. With the built-in sizers and a validated
  configuration, an intent sized by risk percentage (not negative), by volatility target or by
  Kelly is never approved for more than the quantity at which its stop distance would lose
  \<open>max_risk_per_trade\<close> of the equity, whatever the strategy asked for; the leverage trim can only
  lower it.
\<close>

theorem approved_risk_capped:
  assumes "lawful D" and "risk_config_validate (re_config e) = None"
    and "re_sizers e = sizers_with_defaults D"
    and "approve D e new_id now intent s = Ok a"
    and "ti_entry_price intent = Some entry" and "0 < entry"
    and "hint_pct D (re_config e) (ti_sizing intent) = Some pct" and "0 \<le> pct"
  shows "ap_quantity a \<le> d_div D (d_mul D (as_equity s) (rk_max_risk_per_trade (re_config e)))
      \<bar>d_sub D entry (ti_stop_loss intent)\<bar>"
proof -
  let ?cfg = "re_config e" and ?d = "\<bar>d_sub D entry (ti_stop_loss intent)\<bar>"
  let ?cap = "rk_max_risk_per_trade (re_config e)"
  have cap: "0 < ?cap" using assms(2) by (simp add: risk_config_valid)
  obtain z sized where z: "sizer_get (re_sizers e) (hint_tag (ti_sizing intent)) = Some z"
      "z intent s ?cfg = Inr sized" and pos: "0 < ap_quantity a"
    and q: "ap_quantity a = (if d_mul D (as_equity s) (rk_max_leverage ?cfg)
         < d_mul D (so_quantity sized) entry \<and> 0 < entry
       then d_div D (d_mul D (as_equity s) (rk_max_leverage ?cfg)) entry else so_quantity sized)"
    using approve_Ok [OF assms(4,5)] by blast
  have sq: "so_quantity sized = d_div D (d_mul D (as_equity s) (min pct ?cap)) ?d" and d: "0 < ?d"
    using risk_sizer_quantity(1) [where intent = intent and z = z and s = s, OF assms(7,5) _ z(2)] z(1) assms(3)
    by simp_all
  have le: "ap_quantity a \<le> so_quantity sized"
    using q trim_shrinks [OF assms(1) _ assms(6), of "so_quantity sized"
        "d_mul D (as_equity s) (rk_max_leverage ?cfg)"]
    by (auto simp: sq d_div_def d_mul_def lawful_idem [OF assms(1)])
  have "0 < as_equity s"
  proof (rule ccontr)
    assume "\<not> 0 < as_equity s"
    then have "as_equity s * min pct ?cap \<le> 0"
      using assms(8) cap by (intro mult_nonpos_nonneg) auto
    then have "d_mul D (as_equity s) (min pct ?cap) \<le> 0"
      unfolding d_mul_def by (rule lawful_nonpos [OF assms(1)])
    then have "so_quantity sized \<le> 0"
      unfolding sq d_div_def using d
      by (intro lawful_nonpos [OF assms(1)]) (simp add: divide_nonpos_pos)
    with le pos show False by simp
  qed
  then have "so_quantity sized \<le> d_div D (d_mul D (as_equity s) ?cap) ?d"
    unfolding sq d_div_def d_mul_def using d
    by (intro lawful_mono [OF assms(1)] divide_right_mono) (auto intro: mult_left_mono)
  with le show ?thesis by simp
qed




subsection \<open>Witnesses\<close>

definition sample_account :: account_state where
  "sample_account = \<lparr>as_equity = 1000, as_peak_equity = 1000, as_day_pnl = 0, as_open_positions = 0,
     as_current_leverage = 0, as_kill_switch_manual = False\<rparr>"

lemma sample_account_healthy: "account_healthy exact_lib risk_config_defaults sample_account"
  by (simp add: account_healthy_def sample_account_def risk_config_defaults_def drawdown_def
      day_loss_pct_def)

definition sample_approved :: "sizing_hint \<Rightarrow> approved_intent" where
  "sample_approved h = \<lparr>ap_id = 7, ap_approved_at = 5, ap_intent = sample_intent h,
     ap_quantity = 1, ap_notional = 100, ap_checks_passed = map rc_name (default_checks exact_lib),
     ap_adjustments = []\<rparr>"

lemma sample_approve:
  "approve exact_lib (default_engine exact_lib risk_config_defaults) 7 5
     (sample_intent (RiskPct (1 / 100))) sample_account = Ok (sample_approved (RiskPct (1 / 100)))"
proof -
  have w: "walk_checks (sample_intent (RiskPct (1 / 100))) sample_account risk_config_defaults
      (default_checks exact_lib) [] = Inr (map rc_name (default_checks exact_lib))"
    using sample_account_healthy default_checks_pass [of "sample_intent (RiskPct (1 / 100))" 100
        exact_lib sample_account risk_config_defaults]
    by (simp add: walk_checks_Ok)
  have z: "sizer_get (sizers_with_defaults exact_lib) (hint_tag (RiskPct (1 / 100)))
      = Some (risk_pct_sizer exact_lib)"
    unfolding default_sizers by simp
  have s: "risk_pct_sizer exact_lib (sample_intent (RiskPct (1 / 100))) sample_account
      risk_config_defaults = Inr \<lparr>so_quantity = 1, so_adjustments = []\<rparr>"
    by (simp add: risk_pct_sizer_def risk_config_defaults_def sample_account_def)
  have f: "as_equity sample_account = 1000" "rk_max_leverage risk_config_defaults = 1"
    by (simp_all add: sample_account_def risk_config_defaults_def)
  show ?thesis
    unfolding approve_def
    by (simp add: default_engine_def w z [simplified] s [simplified] f sample_approved_def Let_def)
qed

theorem approval_sound_witness:
  "0 < ap_quantity (sample_approved (RiskPct (1 / 100)))
    \<and> ap_notional (sample_approved (RiskPct (1 / 100))) \<le> 1000"
  using approval_sound [of exact_lib 0 "default_engine exact_lib risk_config_defaults" 7 5
      "sample_intent (RiskPct (1 / 100))" sample_account "sample_approved (RiskPct (1 / 100))" 100 1000,
      OF exact_lawful exact_precise _ sample_approve]
  by (simp add: default_engine_def risk_config_defaults_def sample_account_def)

theorem approved_risk_capped_witness:
  "ap_quantity (sample_approved (RiskPct (1 / 100))) \<le> 1000 * (1 / 100) / \<bar>100 - 90\<bar>"
proof -
  have v: "risk_config_validate (re_config (default_engine exact_lib risk_config_defaults)) = None"
    by (simp add: default_engine_def risk_config_valid risk_config_defaults_def)
  show ?thesis
    using approved_risk_capped [OF exact_lawful v _ sample_approve, of 100 "1 / 100"]
    by (simp add: default_engine_def hint_pct_def risk_config_defaults_def sample_account_def)
qed




end
