(* ===== verification/Allocator.thy ===== *)
theory Allocator
  imports Selector PreTrade
begin

text \<open>
  \<open>qtss-risk/src/allocator.rs\<close>: the gates in front of a selected setup and the size it gets. The
  gates compare \<open>f64\<close> values, so a NaN never rejects; the size is computed in \<open>f64\<close> and written
  back as a decimal of eight places.
\<close>

subsection \<open>Data\<close>

record commission_rates =
  cr_maker_bps :: f64
  cr_taker_bps :: f64

definition round_trip :: "commission_rates \<Rightarrow> f64" where
  "round_trip r = f64_add (cr_maker_bps r) (cr_taker_bps r)"

record allocator_config =
  al_max_session_drawdown :: f64
  al_min_equity :: dec
  al_max_gross_exposure :: f64
  al_min_edge_ratio :: f64
  al_slippage_bps :: f64

definition allocator_config_default :: allocator_config where
  "allocator_config_default = \<lparr>al_max_session_drawdown = round64 (10 / 100), al_min_equity = 100,
     al_max_gross_exposure = Fin 3, al_min_edge_ratio = round64 (15 / 10),
     al_slippage_bps = f64_div (Fin 10) (Fin 10000)\<rparr>"

record allocation_input =
  ai_candidate :: setup_candidate
  ai_account :: account_state
  ai_commission :: commission_rates
  ai_open_notional :: dec

datatype allocation_outcome =
    AllocApproved uuid dec dec dec
  | AllocRejected uuid string string

fun is_approved :: "allocation_outcome \<Rightarrow> bool" where
  "is_approved (AllocApproved pid qty n net) = True"
| "is_approved (AllocRejected pid g r) = False"

record allocator_gate =
  ag_tag :: string
  ag_evaluate :: "allocation_input \<Rightarrow> allocator_config \<Rightarrow> string option"

subsection \<open>Gates\<close>

definition drawdown_gate :: "dlib \<Rightarrow> allocator_gate" where
  "drawdown_gate D = \<lparr>ag_tag = ''drawdown'', ag_evaluate = (\<lambda>i cfg.
     let dd = decimal_to_f64 D (drawdown D (ai_account i)) in
     if f64_ge dd (al_max_session_drawdown cfg)
     then Some (''session drawdown '' @ fmt_f64 2 (f64_mul dd (Fin 100)) @ ''% >= cap ''
            @ fmt_f64 2 (f64_mul (al_max_session_drawdown cfg) (Fin 100)) @ ''%'')
     else None)\<rparr>"

definition equity_floor_gate :: "dlib \<Rightarrow> allocator_gate" where
  "equity_floor_gate D = \<lparr>ag_tag = ''equity_floor'', ag_evaluate = (\<lambda>i cfg.
     if as_equity (ai_account i) < al_min_equity cfg
     then Some (''equity '' @ d_show D (as_equity (ai_account i)) @ '' < floor ''
            @ d_show D (al_min_equity cfg))
     else None)\<rparr>"

text \<open>The gross return at the target as a fraction of the entry, for a positive entry.\<close>

definition gross_pct :: "direction \<Rightarrow> f64 \<Rightarrow> f64 \<Rightarrow> f64" where
  "gross_pct d entry tgt = (case d of
     DirLong \<Rightarrow> f64_div (f64_sub tgt entry) entry
   | DirShort \<Rightarrow> f64_div (f64_sub entry tgt) entry)"

definition commission_gate :: "dlib \<Rightarrow> allocator_gate" where
  "commission_gate D = \<lparr>ag_tag = ''commission'', ag_evaluate = (\<lambda>i cfg.
     let entry = decimal_to_f64 D (ca_entry_price (ai_candidate i));
       tgt = decimal_to_f64 D (ca_target_price (ai_candidate i)) in
     if \<not> f64_gt entry (Fin 0) then Some ''non-positive entry price''
     else let gross = gross_pct (ca_direction (ai_candidate i)) entry tgt in
     if f64_le gross (Fin 0)
     then Some (''non-positive gross_pct '' @ fmt_f64 4 gross @ '' '' @ [CHR 0xE2, CHR 0x80, CHR 0x94]
            @ '' direction/target mismatch'')
     else let fee_pct = f64_add (round_trip (ai_commission i)) (al_slippage_bps cfg) in
     if f64_le fee_pct (Fin 0) then None
     else let ratio = f64_div gross fee_pct in
     if f64_lt ratio (al_min_edge_ratio cfg)
     then Some (''edge ratio '' @ fmt_f64 2 ratio @ '' < '' @ fmt_f64 2 (al_min_edge_ratio cfg)
            @ '' (gross '' @ fmt_f64 4 gross @ '', fee+slip '' @ fmt_f64 4 fee_pct @ '')'')
     else None)\<rparr>"

definition max_exposure_gate :: "dlib \<Rightarrow> allocator_gate" where
  "max_exposure_gate D = \<lparr>ag_tag = ''max_exposure'', ag_evaluate = (\<lambda>i cfg.
     let eq = decimal_to_f64 D (as_equity (ai_account i)) in
     if f64_le eq (Fin 0) then Some ''non-positive equity''
     else let gross = decimal_to_f64 D (ai_open_notional i); ratio = f64_div gross eq in
     if f64_ge ratio (al_max_gross_exposure cfg)
     then Some (''gross exposure '' @ fmt_f64 2 ratio @ ''x >= cap ''
            @ fmt_f64 2 (al_max_gross_exposure cfg) @ ''x'')
     else None)\<rparr>"

lemmas gate_defs [guard_simps] = drawdown_gate_def equity_floor_gate_def commission_gate_def
  max_exposure_gate_def

subsection \<open>Sizing\<close>

definition risk_per_unit :: "dlib \<Rightarrow> setup_candidate \<Rightarrow> f64" where
  "risk_per_unit D c = (let entry = decimal_to_f64 D (ca_entry_price c);
       stop = decimal_to_f64 D (ca_stop_price c) in case ca_direction c of
         DirLong \<Rightarrow> f64_sub entry stop | DirShort \<Rightarrow> f64_sub stop entry)"

definition uncapped_notional :: "dlib \<Rightarrow> allocation_input \<Rightarrow> f64" where
  "uncapped_notional D i = (let entry = decimal_to_f64 D (ca_entry_price (ai_candidate i));
       eq = decimal_to_f64 D (as_equity (ai_account i));
       dollar_risk = f64_mul eq (ca_risk_pct (ai_candidate i));
       raw_qty = f64_div dollar_risk (risk_per_unit D (ai_candidate i))
     in f64_mul raw_qty entry)"

definition max_new_notional :: "dlib \<Rightarrow> allocation_input \<Rightarrow> allocator_config \<Rightarrow> f64" where
  "max_new_notional D i cfg = (let eq = decimal_to_f64 D (as_equity (ai_account i));
       gross_open = decimal_to_f64 D (ai_open_notional i);
       max_total = f64_mul eq (al_max_gross_exposure cfg)
     in f64_max (f64_sub max_total gross_open) (Fin 0))"

definition size_position :: "dlib \<Rightarrow> allocation_input \<Rightarrow> allocator_config \<Rightarrow> allocation_outcome" where
  "size_position D i cfg = (let c = ai_candidate i;
       entry = decimal_to_f64 D (ca_entry_price c);
       tgt = decimal_to_f64 D (ca_target_price c)
     in if f64_le (risk_per_unit D c) (Fin 0) \<or> f64_le entry (Fin 0)
     then AllocRejected (ca_setup_id c) ''sizing'' ''non-positive risk_per_unit or entry''
     else let notional = f64_min (uncapped_notional D i) (max_new_notional D i cfg) in
     if f64_le notional (Fin 0)
     then AllocRejected (ca_setup_id c) ''sizing'' ''exposure cap leaves no room''
     else let qty = f64_div notional entry;
         gross = gross_pct (ca_direction c) entry tgt;
         fee_pct = f64_add (round_trip (ai_commission i)) (al_slippage_bps cfg);
         net_pct = f64_sub gross fee_pct;
         expected_net = f64_mul notional net_pct
       in AllocApproved (ca_setup_id c) (f64_to_decimal D qty) (f64_to_decimal D notional)
            (f64_to_decimal D expected_net))"

definition allocator_defaults :: "dlib \<Rightarrow> allocator_gate list" where
  "allocator_defaults D =
     [equity_floor_gate D, drawdown_gate D, max_exposure_gate D, commission_gate D]"

definition allocator_evaluate ::
  "dlib \<Rightarrow> allocator_gate list \<Rightarrow> allocation_input \<Rightarrow> allocator_config \<Rightarrow> allocation_outcome"
where
  "allocator_evaluate D gates i cfg =
     (case first_some (\<lambda>g. map_option (Pair (ag_tag g)) (ag_evaluate g i cfg)) gates of
        Some (tag, reason) \<Rightarrow> AllocRejected (ca_setup_id (ai_candidate i)) tag reason
      | None \<Rightarrow> size_position D i cfg)"

subsection \<open>What an approval guarantees\<close>

lemma max_new_notional_not_NaN: "max_new_notional D i cfg \<noteq> NaN"
  by (auto simp: max_new_notional_def Let_def f64_max_def)

lemma size_position_cases:
  "(\<exists>reason. size_position D i cfg = AllocRejected (ca_setup_id (ai_candidate i)) ''sizing'' reason) \<or>
   (\<exists>x net. x = f64_min (uncapped_notional D i) (max_new_notional D i cfg) \<and>
     \<not> f64_le (risk_per_unit D (ai_candidate i)) (Fin 0) \<and> \<not> f64_le x (Fin 0) \<and>
     size_position D i cfg = AllocApproved (ca_setup_id (ai_candidate i))
       (f64_to_decimal D (f64_div x (decimal_to_f64 D (ca_entry_price (ai_candidate i)))))
       (f64_to_decimal D x) (f64_to_decimal D net))"
  unfolding size_position_def Let_def by (auto simp: not_le)


text \<open>
  C28. A risk percentage that is not a number is not refused but sized to the cap: the selector's
  filter lets it pass, and since \<open>f64::min\<close> ignores a NaN the position takes the whole headroom
  under the gross exposure cap.
\<close>

theorem nan_risk_pct_takes_headroom:
  assumes "ca_risk_pct (ai_candidate i) = NaN"
    and "f64_lt (Fin 0) (risk_per_unit D (ai_candidate i))"
    and "f64_lt (Fin 0) (decimal_to_f64 D (ca_entry_price (ai_candidate i)))"
    and "f64_lt (Fin 0) (max_new_notional D i cfg)"
  shows "sf_evaluate max_risk_pct_filter (ai_candidate i) scfg = None \<and>
    (\<exists>net. size_position D i cfg = AllocApproved (ca_setup_id (ai_candidate i))
      (f64_to_decimal D (f64_div (max_new_notional D i cfg)
        (decimal_to_f64 D (ca_entry_price (ai_candidate i)))))
      (f64_to_decimal D (max_new_notional D i cfg)) net)"
proof
  show "sf_evaluate max_risk_pct_filter (ai_candidate i) scfg = None"
    using assms(1) by (simp add: max_risk_pct_filter_def)
  have "f64_mul a NaN = NaN" "f64_mul NaN a = NaN" "f64_div NaN a = NaN" for a
    by (cases a; simp)+
  then have "f64_min (uncapped_notional D i) (max_new_notional D i cfg) = max_new_notional D i cfg"
    by (simp add: uncapped_notional_def Let_def assms(1) f64_min_def)
  then show "\<exists>net. size_position D i cfg = AllocApproved (ca_setup_id (ai_candidate i))
      (f64_to_decimal D (f64_div (max_new_notional D i cfg)
        (decimal_to_f64 D (ca_entry_price (ai_candidate i)))))
      (f64_to_decimal D (max_new_notional D i cfg)) net"
    using assms(2-4) by (simp add: size_position_def Let_def f64_lt_le_not_le)
qed

subsection \<open>Witnesses\<close>

text \<open>An equity of 1000 with 500 deployed, fees of 1/16 of the notional, an exposure cap of 3.\<close>

definition sample_input :: "f64 \<Rightarrow> allocation_input" where
  "sample_input risk = \<lparr>ai_candidate = sample_candidate 4 (Fin 1)\<lparr>ca_risk_pct := risk, ca_target_price := 200\<rparr>,
     ai_account = sample_account, ai_commission = \<lparr>cr_maker_bps = Fin (1 / 16), cr_taker_bps = Fin 0\<rparr>,
     ai_open_notional = 500\<rparr>"

definition sample_allocator_config :: allocator_config where
  "sample_allocator_config = \<lparr>al_max_session_drawdown = Fin (1 / 8), al_min_equity = 100,
     al_max_gross_exposure = Fin 3, al_min_edge_ratio = Fin 2, al_slippage_bps = Fin 0\<rparr>"

lemmas sample_alloc_defs = sample_input_def sample_candidate_def sample_account_def
  sample_allocator_config_def

lemma decimal_to_f64_exact_lib: "decimal_to_f64 exact_lib x = round64 x"
  by (simp add: decimal_to_f64_def)


theorem nan_risk_pct_takes_headroom_witness:
  "\<exists>net. size_position exact_lib (sample_input NaN) sample_allocator_config =
    AllocApproved 4 (f64_to_decimal exact_lib (Fin 25)) (f64_to_decimal exact_lib (Fin 2500)) net"
proof -
  have m: "max_new_notional exact_lib (sample_input NaN) sample_allocator_config = Fin 2500"
    by (simp add: max_new_notional_def sample_alloc_defs decimal_to_f64_exact_lib f64_sub_def f64_max_def)
  have e: "decimal_to_f64 exact_lib (ca_entry_price (ai_candidate (sample_input NaN))) = Fin 100"
    by (simp add: sample_alloc_defs decimal_to_f64_exact_lib)
  have r: "risk_per_unit exact_lib (ai_candidate (sample_input NaN)) = Fin 10"
    by (simp add: risk_per_unit_def sample_alloc_defs decimal_to_f64_exact_lib f64_sub_def)
  show ?thesis
    using nan_risk_pct_takes_headroom [of "sample_input NaN" exact_lib sample_allocator_config
        selector_config_default]
    unfolding m e r by (simp add: sample_input_def sample_candidate_def)
qed

end
