(* ===== verification/DriftGuard.thy ===== *)
theory DriftGuard
  imports Decimals
begin

text \<open>
  \<open>qtss-risk/src/drift_guard.rs\<close>: the drift, slippage and funding guards, three evaluators that
  grade an adverse magnitude against a warning and a critical threshold.
\<close>

datatype guard_severity = GuardInfo | GuardWarn | GuardCritical

record guard_outcome =
  go_tag :: string
  go_severity :: guard_severity
  go_reason :: string
  go_magnitude :: f64

definition classify :: "f64 \<Rightarrow> f64 \<Rightarrow> f64 \<Rightarrow> guard_severity option" where
  "classify value warn crit = (if f64_ge value crit then Some GuardCritical
     else if f64_ge value warn then Some GuardWarn else None)"

record drift_config =
  dc_max_drift_pct :: f64
  dc_warn_drift_pct :: f64

definition drift_config_default :: drift_config where
  "drift_config_default =
     \<lparr>dc_max_drift_pct = round64 (15 / 1000), dc_warn_drift_pct = round64 (5 / 1000)\<rparr>"

definition assess_price_drift :: "dlib \<Rightarrow> dec \<Rightarrow> dec \<Rightarrow> drift_config \<Rightarrow> guard_outcome option" where
  "assess_price_drift D setup_price mark cfg =
     (case d_to_f64 D setup_price of None \<Rightarrow> None | Some sp \<Rightarrow>
     (case d_to_f64 D mark of None \<Rightarrow> None | Some m \<Rightarrow>
       if f64_le sp (Fin 0) then None
       else let drift = f64_abs (f64_div (f64_sub m sp) sp) in
         map_option (\<lambda>sev. \<lparr>go_tag = ''price_drift'', go_severity = sev,
             go_reason = ''mark drifted '' @ fmt_f64 4 drift @ '' vs setup price '' @ fmt_f64 4 sp,
             go_magnitude = drift\<rparr>)
           (classify drift (dc_warn_drift_pct cfg) (dc_max_drift_pct cfg))))"

record slippage_config =
  sl_max_slippage_pct :: f64
  sl_warn_slippage_pct :: f64

definition slippage_config_default :: slippage_config where
  "slippage_config_default =
     \<lparr>sl_max_slippage_pct = round64 (5 / 1000), sl_warn_slippage_pct = round64 (2 / 1000)\<rparr>"

definition assess_slippage ::
  "dlib \<Rightarrow> dec \<Rightarrow> dec \<Rightarrow> bool \<Rightarrow> slippage_config \<Rightarrow> guard_outcome option"
where
  "assess_slippage D expected_price filled_price is_long cfg =
     (case d_to_f64 D expected_price of None \<Rightarrow> None | Some e \<Rightarrow>
     (case d_to_f64 D filled_price of None \<Rightarrow> None | Some f \<Rightarrow>
       if f64_le e (Fin 0) then None
       else let adverse = (if is_long then f64_div (f64_sub f e) e else f64_div (f64_sub e f) e) in
         if f64_le adverse (Fin 0) then None
         else map_option (\<lambda>sev. \<lparr>go_tag = ''slippage'', go_severity = sev,
             go_reason = ''adverse slippage '' @ fmt_f64 4 adverse @ '' (expected '' @ fmt_f64 4 e
               @ '' '' @ [CHR 0xE2, CHR 0x86, CHR 0x92] @ '' filled '' @ fmt_f64 4 f @ '')'',
             go_magnitude = adverse\<rparr>)
           (classify adverse (sl_warn_slippage_pct cfg) (sl_max_slippage_pct cfg))))"

record funding_config =
  fc_max_adverse_rate :: f64
  fc_warn_adverse_rate :: f64

definition funding_config_default :: funding_config where
  "funding_config_default =
     \<lparr>fc_max_adverse_rate = round64 (1 / 1000), fc_warn_adverse_rate = round64 (3 / 10000)\<rparr>"

definition assess_funding ::
  "dlib \<Rightarrow> dec option \<Rightarrow> bool \<Rightarrow> funding_config \<Rightarrow> guard_outcome option"
where
  "assess_funding D next_rate is_long cfg =
     (case next_rate of None \<Rightarrow> None | Some nr \<Rightarrow>
     (case d_to_f64 D nr of None \<Rightarrow> None | Some rate \<Rightarrow>
       let adverse = (if is_long then rate else f64_neg rate) in
       if f64_le adverse (Fin 0) then None
       else map_option (\<lambda>sev. \<lparr>go_tag = ''funding'', go_severity = sev,
           go_reason = ''adverse funding rate '' @ fmt_f64 6 adverse @ '' (next interval)'',
           go_magnitude = adverse\<rparr>)
         (classify adverse (fc_warn_adverse_rate cfg) (fc_max_adverse_rate cfg))))"

subsection \<open>Grading\<close>

definition severity_rank :: "guard_severity option \<Rightarrow> nat" where
  "severity_rank s = (case s of None \<Rightarrow> 0 | Some GuardInfo \<Rightarrow> 1 | Some GuardWarn \<Rightarrow> 2
     | Some GuardCritical \<Rightarrow> 3)"

lemma classify_mono:
  assumes "f64_le v w"
  shows "severity_rank (classify v warn crit) \<le> severity_rank (classify w warn crit)"
  using assms f64_le_trans [of crit v w] f64_le_trans [of warn v w]
  by (auto simp: classify_def severity_rank_def)


lemma f64_sub_mono:
  assumes "f64_le a b"
  shows "f64_le (f64_sub a (Fin e)) (f64_sub b (Fin e))"
    and "f64_le (f64_sub (Fin e) b) (f64_sub (Fin e) a)"
  using assms by (cases a; cases b; auto simp: f64_sub_def intro: round64_mono)+

lemma f64_div_mono:
  assumes "f64_le a b" and "0 < e"
  shows "f64_le (f64_div a (Fin e)) (f64_div b (Fin e))"
  using assms
  by (cases a; cases b; auto simp: signed_inf_def intro!: round64_mono divide_right_mono)

definition slippage_severity ::
  "dlib \<Rightarrow> dec \<Rightarrow> dec \<Rightarrow> bool \<Rightarrow> slippage_config \<Rightarrow> guard_severity option"
where
  "slippage_severity D expected filled is_long cfg =
     map_option go_severity (assess_slippage D expected filled is_long cfg)"

text \<open>The grade of a fill that cost the fraction \<open>v\<close>.\<close>

definition adverse_grade :: "slippage_config \<Rightarrow> f64 \<Rightarrow> guard_severity option" where
  "adverse_grade cfg v = (if f64_le v (Fin 0) then None
     else classify v (sl_warn_slippage_pct cfg) (sl_max_slippage_pct cfg))"

lemma adverse_grade_mono:
  assumes "f64_le v w"
  shows "severity_rank (adverse_grade cfg v) \<le> severity_rank (adverse_grade cfg w)"
proof (cases "f64_le w (Fin 0)")
  case True
  with assms have "f64_le v (Fin 0)" by (rule f64_le_trans)
  with True show ?thesis by (simp add: adverse_grade_def)
next
  case False
  with classify_mono [OF assms] show ?thesis
    by (cases "f64_le v (Fin 0)") (simp_all add: adverse_grade_def severity_rank_def)
qed

lemma slippage_severity_grade:
  assumes "d_to_f64 D expected = Some (Fin e)" and "0 < e" and "d_to_f64 D filled = Some f"
  shows "slippage_severity D expected filled is_long cfg = adverse_grade cfg
    (f64_div (if is_long then f64_sub f (Fin e) else f64_sub (Fin e) f) (Fin e))"
  using assms
  by (simp add: slippage_severity_def assess_slippage_def adverse_grade_def Let_def
      option.map_comp comp_def not_le option.map_ident)

text \<open>
  C30. Slippage is graded in the adverse direction only, and a worse fill never gets a milder
  grade. For one expected price and two fills of which the second is the higher, a long grades
  the second at least as high and a short the first; a fill at the expected price or on its
  profitable side raises nothing, for any thresholds.
\<close>

theorem slippage_graded_by_cost:
  assumes "d_to_f64 D expected = Some (Fin e)" and "0 < e"
    and "d_to_f64 D low = Some a" and "d_to_f64 D high = Some b" and "f64_le a b"
  shows "severity_rank (slippage_severity D expected low True cfg)
        \<le> severity_rank (slippage_severity D expected high True cfg) \<and>
      severity_rank (slippage_severity D expected high False cfg)
        \<le> severity_rank (slippage_severity D expected low False cfg) \<and>
      (f64_le b (Fin e) \<longrightarrow> assess_slippage D expected high True cfg = None) \<and>
      (f64_le (Fin e) a \<longrightarrow> assess_slippage D expected low False cfg = None)"
proof -
  note lo = slippage_severity_grade [OF assms(1,2,3)]
  note hi = slippage_severity_grade [OF assms(1,2,4)]
  have z: "f64_div (f64_sub (Fin e) (Fin e)) (Fin e) = Fin 0"
    using assms(2) by (simp add: f64_sub_def)
  have up: "severity_rank (slippage_severity D expected low True cfg)
      \<le> severity_rank (slippage_severity D expected high True cfg)"
    using adverse_grade_mono f64_div_mono [OF f64_sub_mono(1) [OF assms(5)] assms(2)]
    by (simp add: lo hi)
  have down: "severity_rank (slippage_severity D expected high False cfg)
      \<le> severity_rank (slippage_severity D expected low False cfg)"
    using adverse_grade_mono f64_div_mono [OF f64_sub_mono(2) [OF assms(5)] assms(2)]
    by (simp add: lo hi)
  have none: "slippage_severity D expected x s cfg = None \<Longrightarrow> assess_slippage D expected x s cfg = None"
    for x s by (simp add: slippage_severity_def)
  have "assess_slippage D expected high True cfg = None" if "f64_le b (Fin e)"
    using f64_div_mono [OF f64_sub_mono(1) [OF that, of e] assms(2)] none
    by (simp add: hi z adverse_grade_def)
  moreover have "assess_slippage D expected low False cfg = None" if "f64_le (Fin e) a"
    using f64_div_mono [OF f64_sub_mono(2) [OF that, of e] assms(2)] none
    by (simp add: lo z adverse_grade_def)
  ultimately show ?thesis using up down by simp
qed

theorem slippage_graded_by_cost_witness:
  "assess_slippage exact_lib 100 99 True \<lparr>sl_max_slippage_pct = Fin 1, sl_warn_slippage_pct = Fin 0\<rparr> = None"
  using slippage_graded_by_cost [of exact_lib 100 100 98 "Fin 98" 99 "Fin 99"
      "\<lparr>sl_max_slippage_pct = Fin 1, sl_warn_slippage_pct = Fin 0\<rparr>"]
  by simp

end
