(* ===== verification/RiskReconcile.thy ===== *)
theory RiskReconcile
  imports PositionStore
begin

text \<open>
  \<open>qtss-risk/src/reconcile.rs\<close>: the comparison of the position store with a snapshot of the
  broker. \<open>diff_with_ids\<close> is the comparison over a given list of local ids, \<open>diff\<close> the variant
  that is to list the local ids itself.
\<close>

subsection \<open>Data\<close>

record broker_row =
  br_position_id :: "uuid option"
  br_exchange :: string
  br_segment :: market_segment
  br_symbol :: string
  br_side :: position_side
  br_qty :: dec
  br_entry_avg :: dec
  br_leverage :: nat

datatype rec_severity = RecInfo | RecWarn | RecCritical

fun rec_rank :: "rec_severity \<Rightarrow> nat" where
  "rec_rank RecInfo = 0"
| "rec_rank RecWarn = 1"
| "rec_rank RecCritical = 2"

datatype reconcile_action =
    MissingOnBroker uuid rec_severity
  | MissingLocally string market_segment string position_side dec rec_severity
  | QtyMismatch uuid dec dec rec_severity

fun action_severity :: "reconcile_action \<Rightarrow> rec_severity" where
  "action_severity (MissingOnBroker pid sev) = sev"
| "action_severity (MissingLocally ex seg symb sd q sev) = sev"
| "action_severity (QtyMismatch pid l b sev) = sev"

record reconcile_config =
  rec_qty_mismatch_tolerance :: f64
  rec_mode :: position_mode

definition reconcile_config_default :: reconcile_config where
  "reconcile_config_default = \<lparr>rec_qty_mismatch_tolerance = round64 (1 / 1000), rec_mode = LiveMode\<rparr>"

subsection \<open>Operations\<close>

definition qty_mismatch_action ::
  "dlib \<Rightarrow> uuid \<Rightarrow> dec \<Rightarrow> dec \<Rightarrow> reconcile_config \<Rightarrow> reconcile_action option"
where
  "qty_mismatch_action D pid local broker cfg = (let l = decimal_to_f64 D local; b = decimal_to_f64 D broker in
     if f64_le l (Fin 0) \<and> f64_le b (Fin 0) then None
     else let delta = f64_abs (f64_sub l b);
         denom = f64_max (f64_max (f64_abs l) (f64_abs b)) (round64 (1 / 10 ^ 12));
         rel = f64_div delta denom in
       if f64_lt rel (rec_qty_mismatch_tolerance cfg) then None
       else let severity = (if f64_gt rel (round64 (10 / 100)) then RecCritical
             else if f64_gt rel (round64 (2 / 100)) then RecWarn else RecInfo)
         in Some (QtyMismatch pid local broker severity))"

definition index_broker :: "broker_row list \<Rightarrow> (uuid, broker_row) hmap" where
  "index_broker rows = foldl (\<lambda>m b. case br_position_id b of
     Some pid \<Rightarrow> hm_insert pid b m | None \<Rightarrow> m) hm_empty rows"

definition local_action ::
  "dlib \<Rightarrow> position_store \<Rightarrow> (uuid, broker_row) hmap \<Rightarrow> reconcile_config \<Rightarrow> uuid \<Rightarrow> reconcile_action option"
where
  "local_action D store by_id_map cfg pid = (case store_get store pid of
     None \<Rightarrow> None
   | Some local \<Rightarrow> (case hm_get by_id_map pid of
       None \<Rightarrow> Some (MissingOnBroker pid RecCritical)
     | Some b \<Rightarrow> qty_mismatch_action D pid (lp_qty_remaining local) (br_qty b) cfg))"

definition orphan_action :: "uuid list \<Rightarrow> broker_row \<Rightarrow> reconcile_action option" where
  "orphan_action local_ids b =
     (let known = (case br_position_id b of Some pid \<Rightarrow> pid \<in> set local_ids | None \<Rightarrow> False) in
      if known then None else if br_qty b = 0 then None
      else Some (MissingLocally (br_exchange b) (br_segment b) (br_symbol b) (br_side b) (br_qty b) RecWarn))"

definition diff_with_ids ::
  "dlib \<Rightarrow> position_store \<Rightarrow> uuid list \<Rightarrow> broker_row list \<Rightarrow> reconcile_config \<Rightarrow> reconcile_action list"
where
  "diff_with_ids D store local_ids broker cfg =
     sort_desc (\<lambda>a. rec_rank (action_severity a))
       (List.map_filter (local_action D store (index_broker broker) cfg) local_ids
        @ List.map_filter (orphan_action local_ids) broker)"

definition collect_local_ids :: "position_store \<Rightarrow> position_mode \<Rightarrow> uuid list" where
  "collect_local_ids store mode = []"

text \<open>The body of \<open>diff\<close> is that of \<open>diff_with_ids\<close> over the collected ids.\<close>

definition diff ::
  "dlib \<Rightarrow> position_store \<Rightarrow> broker_row list \<Rightarrow> reconcile_config \<Rightarrow> reconcile_action list"
where
  "diff D store broker cfg = (let local_ids = collect_local_ids store (rec_mode cfg) in
     sort_desc (\<lambda>a. rec_rank (action_severity a))
       (List.map_filter (local_action D store (index_broker broker) cfg) local_ids
        @ List.map_filter (orphan_action local_ids) broker))"

subsection \<open>The index of the broker rows\<close>

lemma index_broker_foldl:
  assumes "distinct (List.map_filter br_position_id rows)"
    and "\<forall>b \<in> set rows. \<forall>p. br_position_id b = Some p \<longrightarrow> hm_get m p = None"
  shows "hm_get (foldl (\<lambda>m b. case br_position_id b of Some pid \<Rightarrow> hm_insert pid b m | None \<Rightarrow> m) m rows) pid
    = Some b \<longleftrightarrow> (b \<in> set rows \<and> br_position_id b = Some pid) \<or> hm_get m pid = Some b"
  using assms
proof (induction rows arbitrary: m)
  case Nil
  then show ?case by simp
next
  case (Cons r rows)
  show ?case
  proof (cases "br_position_id r")
    case None
    with Cons show ?thesis by (auto simp: List.map_filter_simps)
  next
    case (Some p)
    with Cons.prems(1) have fresh: "\<forall>b \<in> set rows. br_position_id b \<noteq> Some p"
      and d: "distinct (List.map_filter br_position_id rows)"
      by (auto simp: List.map_filter_simps set_map_filter)
    have "\<forall>b \<in> set rows. \<forall>q. br_position_id b = Some q \<longrightarrow> hm_get (hm_insert p r m) q = None"
      using Cons.prems(2) fresh by auto
    from Cons.IH [OF d this] Some Cons.prems(2) fresh show ?thesis by auto
  qed
qed

lemma index_broker_get:
  assumes "distinct (List.map_filter br_position_id rows)"
  shows "hm_get (index_broker rows) pid = Some b \<longleftrightarrow> b \<in> set rows \<and> br_position_id b = Some pid"
  using index_broker_foldl [OF assms, of hm_empty pid b] by (simp add: index_broker_def)

lemma qty_mismatch_shape:
  "qty_mismatch_action D pid l b cfg = Some a \<Longrightarrow> \<exists>sev. a = QtyMismatch pid l b sev"
  by (auto simp: qty_mismatch_action_def Let_def split: if_splits)


text \<open>
  C29. \<open>diff\<close> does not see the store: whatever positions are open, it reports every row of the
  broker with a non-zero quantity as missing locally, the ones the store holds included, and
  never reports a position that the broker lacks or a quantity that differs.
\<close>

theorem diff_ignores_store:
  "diff D store broker cfg = map (\<lambda>b. MissingLocally (br_exchange b) (br_segment b) (br_symbol b)
     (br_side b) (br_qty b) RecWarn) (filter (\<lambda>b. br_qty b \<noteq> 0) broker)"
proof -
  have "List.map_filter (orphan_action []) broker = map (\<lambda>b. MissingLocally (br_exchange b)
      (br_segment b) (br_symbol b) (br_side b) (br_qty b) RecWarn) (filter (\<lambda>b. br_qty b \<noteq> 0) broker)"
    by (induction broker) (auto simp: List.map_filter_simps orphan_action_def Let_def split: option.splits)
  moreover have "sort_desc (\<lambda>a. rec_rank (action_severity a)) xs = xs"
    if "\<forall>a \<in> set xs. action_severity a = RecWarn" for xs
    using that unfolding sort_desc_def by (induction xs) (auto intro: insort_is_Cons)
  ultimately show ?thesis
    by (simp add: diff_def collect_local_ids_def List.map_filter_simps)
qed

subsection \<open>Witnesses\<close>

definition sample_row :: "uuid option \<Rightarrow> dec \<Rightarrow> broker_row" where
  "sample_row pid q = \<lparr>br_position_id = pid, br_exchange = ''binance'', br_segment = Futures,
     br_symbol = ''BTCUSDT'', br_side = Buy, br_qty = q, br_entry_avg = 100, br_leverage = 1\<rparr>"


end
