(* ===== verification/Fees.thy ===== *)
theory Fees
  imports Decimals
begin

text \<open>
  \<open>qtss-fees\<close>: the schedule of a venue and symbol (\<open>schedule.rs\<close>), the price of one fill
  (\<open>model.rs\<close>) and the book of schedules with its lookup (\<open>book.rs\<close>). A fee model, the trait
  execution depends on, is a function from a trade context to a quote or an error.
\<close>

subsection \<open>Schedules\<close>

datatype fee_error = UnknownVenue string | InvalidSchedule string

fun show_fee_error :: "fee_error \<Rightarrow> string" where
  "show_fee_error (UnknownVenue v) = ''no fee schedule registered for venue '' @ [CHR 0x27] @ v @ [CHR 0x27]"
| "show_fee_error (InvalidSchedule m) = ''invalid fee schedule: '' @ m"

datatype liquidity = Maker | Taker

record fee_schedule =
  fs_maker_pct :: dec
  fs_taker_pct :: dec
  fs_min_fee :: "dec option"
  fs_per_trade_flat :: "dec option"

definition schedule_with_extras ::
  "dec \<Rightarrow> dec \<Rightarrow> dec option \<Rightarrow> dec option \<Rightarrow> fee_error + fee_schedule"
where
  "schedule_with_extras maker_pct taker_pct min_fee per_trade_flat =
     (if maker_pct < 0 \<or> taker_pct < 0 then Err (InvalidSchedule ''fee rates must be non-negative'')
      else Ok \<lparr>fs_maker_pct = maker_pct, fs_taker_pct = taker_pct, fs_min_fee = min_fee,
        fs_per_trade_flat = per_trade_flat\<rparr>)"

definition schedule_new :: "dec \<Rightarrow> dec \<Rightarrow> fee_error + fee_schedule" where
  "schedule_new maker_pct taker_pct = schedule_with_extras maker_pct taker_pct None None"

fun schedule_rate :: "fee_schedule \<Rightarrow> liquidity \<Rightarrow> dec" where
  "schedule_rate s Maker = fs_maker_pct s"
| "schedule_rate s Taker = fs_taker_pct s"

subsection \<open>Quotes\<close>

record trade_context =
  tx_venue :: string
  tx_symbol :: string
  tx_price :: dec
  tx_quantity :: dec
  tx_liquidity :: liquidity

definition tx_notional :: "dlib \<Rightarrow> trade_context \<Rightarrow> dec" where
  "tx_notional D c = d_mul D (tx_price c) (tx_quantity c)"

record fee_quote =
  fq_total :: dec
  fq_percentage_component :: dec
  fq_flat_component :: dec
  fq_effective_rate :: dec

type_synonym fee_model = "trade_context \<Rightarrow> fee_error + fee_quote"

subsection \<open>The book\<close>

definition venue_default :: string where
  "venue_default = ''*''"

type_synonym fee_book = "(string, (string, fee_schedule) hmap) hmap"

definition book_new :: fee_book where
  "book_new = hm_empty"

text \<open>\<open>entry(venue).or_default().insert(..)\<close>\<close>

definition book_insert :: "string \<Rightarrow> string \<Rightarrow> fee_schedule \<Rightarrow> fee_book \<Rightarrow> fee_book" where
  "book_insert venue symbol s b =
     hm_insert venue (hm_insert symbol s (case hm_get b venue of Some m \<Rightarrow> m | None \<Rightarrow> hm_empty)) b"

definition register_venue_default :: "string \<Rightarrow> fee_schedule \<Rightarrow> fee_book \<Rightarrow> fee_book" where
  "register_venue_default venue s b = book_insert venue venue_default s b"

definition register_symbol :: "string \<Rightarrow> string \<Rightarrow> fee_schedule \<Rightarrow> fee_book \<Rightarrow> fee_book" where
  "register_symbol venue symbol s b = book_insert venue symbol s b"

definition book_lookup :: "fee_book \<Rightarrow> string \<Rightarrow> string \<Rightarrow> fee_error + fee_schedule" where
  "book_lookup b venue symbol =
     and_then (ok_or (UnknownVenue venue) (hm_get b venue)) (\<lambda>m.
       ok_or (UnknownVenue (venue @ '':'' @ symbol))
         (case hm_get m symbol of Some s \<Rightarrow> Some s | None \<Rightarrow> hm_get m venue_default))"

definition book_quote :: "dlib \<Rightarrow> fee_book \<Rightarrow> fee_model" where
  "book_quote D b ctx = and_then (book_lookup b (tx_venue ctx) (tx_symbol ctx)) (\<lambda>s.
     let notional = tx_notional D ctx;
       rate = schedule_rate s (tx_liquidity ctx);
       percentage0 = d_mul D notional rate;
       percentage = (case fs_min_fee s of
           Some mf \<Rightarrow> if percentage0 < mf then mf else percentage0 | None \<Rightarrow> percentage0);
       flat = (case fs_per_trade_flat s of Some f \<Rightarrow> f | None \<Rightarrow> 0);
       total = d_add D percentage flat;
       effective_rate = (if 0 < notional then d_div D total notional else 0)
     in Ok \<lparr>fq_total = total, fq_percentage_component = percentage, fq_flat_component = flat,
          fq_effective_rate = effective_rate\<rparr>)"

subsection \<open>Lookup\<close>

datatype registration = RegDefault string fee_schedule | RegSymbol string string fee_schedule

fun register :: "fee_book \<Rightarrow> registration \<Rightarrow> fee_book" where
  "register b (RegDefault v s) = register_venue_default v s b"
| "register b (RegSymbol v y s) = register_symbol v y s b"

fun reg_cell :: "registration \<Rightarrow> (string \<times> string) \<times> fee_schedule" where
  "reg_cell (RegDefault v s) = ((v, venue_default), s)"
| "reg_cell (RegSymbol v y s) = ((v, y), s)"

definition book_cell :: "fee_book \<Rightarrow> string \<Rightarrow> string \<Rightarrow> fee_schedule option" where
  "book_cell b v y = (case hm_get b v of None \<Rightarrow> None | Some m \<Rightarrow> hm_get m y)"

text \<open>No venue of a book is empty, so a known venue has a schedule.\<close>

definition book_inv :: "fee_book \<Rightarrow> bool" where
  "book_inv b \<longleftrightarrow> (\<forall>v m. hm_get b v = Some m \<longrightarrow> (\<exists>y s. hm_get m y = Some s))"

lemma book_insert_cell:
  "book_cell (book_insert v y s b) v' y' = (if v' = v \<and> y' = y then Some s else book_cell b v' y')"
  by (auto simp: book_cell_def book_insert_def split: option.splits)

lemma register_cell:
  "book_cell (register b r) v y = (if fst (reg_cell r) = (v, y) then Some (snd (reg_cell r)) else book_cell b v y)"
  by (cases r) (auto simp: register_venue_default_def register_symbol_def book_insert_cell)

lemma register_venue:
  "hm_get (register b r) v = None \<longleftrightarrow> hm_get b v = None \<and> fst (fst (reg_cell r)) \<noteq> v"
  by (cases r) (auto simp: register_venue_default_def register_symbol_def book_insert_def)

lemma book_lookup_cell:
  "book_lookup b v y = (case book_cell b v y of Some s \<Rightarrow> Ok s
     | None \<Rightarrow> (case book_cell b v venue_default of Some s \<Rightarrow> Ok s
       | None \<Rightarrow> Err (UnknownVenue (if hm_get b v = None then v else v @ '':'' @ y))))"
  by (auto simp: book_lookup_def book_cell_def and_then_def split: option.splits)

lemma book_cell_regs:
  "book_cell (foldl register b rs) v y =
     (case map_of (rev (map reg_cell rs)) (v, y) of Some s \<Rightarrow> Some s | None \<Rightarrow> book_cell b v y)"
proof (induction rs arbitrary: b)
  case (Cons r rs)
  obtain k s where k: "reg_cell r = (k, s)" by fastforce
  show ?case
    using Cons [of "register b r"]
    by (simp add: register_cell k map_add_def split: option.split)
qed simp

lemma book_venue_regs:
  "hm_get (foldl register b rs) v = None \<longleftrightarrow>
     hm_get b v = None \<and> v \<notin> (fst \<circ> fst \<circ> reg_cell) ` set rs"
  by (induction rs arbitrary: b) (auto simp: register_venue)

text \<open>
  C24. Lookup precedence. After any registrations on a fresh book, a lookup gives the last schedule
  registered for the venue and the symbol, failing that the last default of the venue, and failing
  both an error that names the venue alone exactly when nothing was ever registered for it; a rate
  is never made up.
\<close>

theorem fee_lookup_precedence:
  "book_lookup (foldl register book_new rs) v y =
    (case map_of (rev (map reg_cell rs)) (v, y) of Some s \<Rightarrow> Ok s
     | None \<Rightarrow> (case map_of (rev (map reg_cell rs)) (v, venue_default) of Some s \<Rightarrow> Ok s
       | None \<Rightarrow> Err (UnknownVenue
           (if v \<in> (fst \<circ> fst \<circ> reg_cell) ` set rs then v @ '':'' @ y else v))))"
  unfolding book_lookup_cell book_cell_regs book_venue_regs
  by (auto simp: book_cell_def book_new_def split: option.splits)

subsection \<open>Quotes\<close>

text \<open>
  C27. Bounds of a quote. With lawful rounding and rates that the constructor accepts, the
  percentage part of a fill is at least the minimum fee and, when no minimum is set, not negative
  for a notional that is not negative; it grows with the notional; the total is that part plus the
  flat fee, so it is not negative when the flat fee and the minimum are not. Nothing bounds the
  flat fee or the minimum: the constructor accepts negative ones.
\<close>

theorem fee_quote_bounds:
  assumes "lawful D" and "schedule_with_extras mk tk mf fl = Ok s"
    and "book_lookup b (tx_venue c) (tx_symbol c) = Ok s"
    and "book_quote D b c = Ok q" and "0 \<le> tx_notional D c"
  shows "(\<forall>x. mf = Some x \<longrightarrow> x \<le> fq_percentage_component q) \<and>
    0 \<le> d_mul D (tx_notional D c) (schedule_rate s (tx_liquidity c)) \<and>
    d_mul D (tx_notional D c) (schedule_rate s (tx_liquidity c)) \<le> fq_percentage_component q \<and>
    fq_total q = d_add D (fq_percentage_component q) (case fl of Some f \<Rightarrow> f | None \<Rightarrow> 0) \<and>
    ((case fl of Some f \<Rightarrow> 0 \<le> f | None \<Rightarrow> True) \<longrightarrow> 0 \<le> fq_total q) \<and>
    (\<forall>c' q'. tx_venue c' = tx_venue c \<longrightarrow> tx_symbol c' = tx_symbol c \<longrightarrow>
       tx_liquidity c' = tx_liquidity c \<longrightarrow> tx_notional D c \<le> tx_notional D c' \<longrightarrow>
       book_quote D b c' = Ok q' \<longrightarrow>
       fq_percentage_component q \<le> fq_percentage_component q' \<and> fq_total q \<le> fq_total q')"
proof -
  have s: "s = \<lparr>fs_maker_pct = mk, fs_taker_pct = tk, fs_min_fee = mf, fs_per_trade_flat = fl\<rparr>"
    "0 \<le> mk" "0 \<le> tk"
    using assms(2) by (auto simp: schedule_with_extras_def split: if_splits)
  have rate: "0 \<le> schedule_rate s l" for l using s by (cases l) simp_all
  define pc where "pc n l = (case mf of
      Some x \<Rightarrow> if d_mul D n (schedule_rate s l) < x then x else d_mul D n (schedule_rate s l)
    | None \<Rightarrow> d_mul D n (schedule_rate s l))" for n l
  have q: "fq_percentage_component q' = pc (tx_notional D c') (tx_liquidity c')
      \<and> fq_total q' = d_add D (pc (tx_notional D c') (tx_liquidity c')) (case fl of Some f \<Rightarrow> f | None \<Rightarrow> 0)"
    if "book_quote D b c' = Ok q'" "tx_venue c' = tx_venue c" "tx_symbol c' = tx_symbol c" for c' q'
    using that assms(3) s(1) unfolding book_quote_def pc_def by (auto simp: Let_def)
  have base: "0 \<le> d_mul D (tx_notional D c) (schedule_rate s (tx_liquidity c))"
    unfolding d_mul_def using rate assms(5) by (intro lawful_nonneg [OF assms(1)]) simp
  have le: "d_mul D (tx_notional D c) (schedule_rate s (tx_liquidity c)) \<le> fq_percentage_component q"
    using q [OF assms(4)] by (auto simp: pc_def split: option.splits)
  have pos: "0 \<le> fq_total q" if "case fl of Some f \<Rightarrow> 0 \<le> f | None \<Rightarrow> True"
    using q [OF assms(4)] base le that
    by (auto simp: d_add_def intro!: lawful_nonneg [OF assms(1)] split: option.splits)
  have mono: "pc n l \<le> pc n' l" if "n \<le> n'" for n n' l
  proof -
    have "d_mul D n (schedule_rate s l) \<le> d_mul D n' (schedule_rate s l)"
      unfolding d_mul_def using rate that by (intro lawful_mono [OF assms(1)] mult_right_mono)
    then show ?thesis by (auto simp: pc_def split: option.splits)
  qed
  have grow: "fq_percentage_component q \<le> fq_percentage_component q' \<and> fq_total q \<le> fq_total q'"
    if "tx_venue c' = tx_venue c" "tx_symbol c' = tx_symbol c" "tx_liquidity c' = tx_liquidity c"
      "tx_notional D c \<le> tx_notional D c'" "book_quote D b c' = Ok q'" for c' q'
    using q [OF assms(4)] q [OF that(5,1,2)] mono [OF that(4)] that(3)
    by (auto simp: d_add_def intro!: lawful_mono [OF assms(1)])
  have mn: "\<forall>x. mf = Some x \<longrightarrow> x \<le> fq_percentage_component q"
    using q [OF assms(4)] by (auto simp: pc_def)
  have tot: "fq_total q = d_add D (fq_percentage_component q) (case fl of Some f \<Rightarrow> f | None \<Rightarrow> 0)"
    using q [OF assms(4)] by simp
  have "\<forall>c' q'. tx_venue c' = tx_venue c \<longrightarrow> tx_symbol c' = tx_symbol c \<longrightarrow>
      tx_liquidity c' = tx_liquidity c \<longrightarrow> tx_notional D c \<le> tx_notional D c' \<longrightarrow>
      book_quote D b c' = Ok q' \<longrightarrow>
      fq_percentage_component q \<le> fq_percentage_component q' \<and> fq_total q \<le> fq_total q'"
    using grow by blast
  then show ?thesis by (intro conjI mn base le tot impI pos)
qed

text \<open>A flat rebate of 5 on a fee of 1: the total is negative.\<close>

definition sample_book :: fee_book where
  "sample_book = register book_new (RegDefault ''binance''
     \<lparr>fs_maker_pct = 0, fs_taker_pct = 1 / 100, fs_min_fee = None, fs_per_trade_flat = None\<rparr>)"

definition sample_trade :: trade_context where
  "sample_trade = \<lparr>tx_venue = ''binance'', tx_symbol = ''BTCUSDT'', tx_price = 100, tx_quantity = 1,
     tx_liquidity = Taker\<rparr>"

theorem fee_quote_bounds_witness:
  "\<exists>q. book_quote exact_lib sample_book sample_trade = Ok q \<and> 1 \<le> fq_percentage_component q \<and> 0 \<le> fq_total q"
proof -
  have l: "book_lookup sample_book (tx_venue sample_trade) (tx_symbol sample_trade) = Ok
      \<lparr>fs_maker_pct = 0, fs_taker_pct = 1 / 100, fs_min_fee = None, fs_per_trade_flat = None\<rparr>"
    by (simp add: sample_book_def sample_trade_def book_lookup_def register_venue_default_def
        book_insert_def book_new_def venue_default_def)
  then obtain q where q: "book_quote exact_lib sample_book sample_trade = Ok q"
    by (simp add: book_quote_def Let_def)
  show ?thesis
    using fee_quote_bounds [OF exact_lawful [OF exact_exact_lib] _ l q, of 0 "1 / 100" None None] q
    by (simp add: schedule_with_extras_def tx_notional_def sample_trade_def)
qed

end
