(* ===== verification/Execution.thy ===== *)
theory Execution
  imports Domain Fees
begin

text \<open>
  \<open>qtss-execution-v2\<close>: the split of an approved intent into a bracket of orders (\<open>builder.rs\<close>),
  the adapter interface (\<open>adapter.rs\<close>), the router that places a bracket (\<open>router.rs\<close>) and the
  simulator behind the dry and backtest modes (\<open>sim.rs\<close>). The calls of \<open>Uuid::new_v4\<close> take the
  ids of a given supply; a placement is given the id of its fill and the time.
\<close>

subsection \<open>Data\<close>

datatype order_status = NewOrder | PartiallyFilled | Filled | Canceled | RejectedOrder

record fill =
  fl_fill_id :: uuid
  fl_order_id :: uuid
  fl_price :: dec
  fl_quantity :: dec
  fl_fee :: dec
  fl_at :: timestamp

record order_ack =
  ak_client_order_id :: uuid
  ak_venue_order_id :: string
  ak_status :: order_status
  ak_accepted_at :: timestamp
  ak_fills :: "fill list"

record order_handle =
  oh_symbol :: string
  oh_client_order_id :: uuid

datatype execution_error =
    ExecInvalidIntent string
  | AdapterError string
  | NoAdapter run_mode
  | OrderNotFound uuid

subsection \<open>The bracket of an approved intent\<close>

record order_bracket =
  ob_entry :: order_request
  ob_stop :: order_request
  ob_take_profits :: "order_request list"

definition bracket_orders :: "order_bracket \<Rightarrow> order_request list" where
  "bracket_orders b = ob_entry b # ob_stop b # ob_take_profits b"

fun opposite :: "side \<Rightarrow> side" where
  "opposite Long = Short"
| "opposite Short = Long"

definition build_entry :: "uuid \<Rightarrow> trade_intent \<Rightarrow> dec \<Rightarrow> uuid option \<Rightarrow> order_request" where
  "build_entry oid intent qty intent_id = \<lparr>or_client_order_id = oid,
     or_instrument = ti_instrument intent, or_side = ti_side intent,
     or_order_type = (if ti_entry_price intent \<noteq> None then Limit else Market),
     or_quantity = qty, or_price = ti_entry_price intent, or_stop_price = None,
     or_time_in_force = ti_time_in_force intent, or_reduce_only = False, or_post_only = False,
     or_intent_id = intent_id\<rparr>"

definition build_stop :: "uuid \<Rightarrow> trade_intent \<Rightarrow> dec \<Rightarrow> uuid option \<Rightarrow> order_request" where
  "build_stop oid intent qty intent_id = \<lparr>or_client_order_id = oid,
     or_instrument = ti_instrument intent, or_side = opposite (ti_side intent),
     or_order_type = Stop, or_quantity = qty, or_price = None,
     or_stop_price = Some (ti_stop_loss intent), or_time_in_force = Gtc, or_reduce_only = True,
     or_post_only = False, or_intent_id = intent_id\<rparr>"

definition build_tp :: "uuid \<Rightarrow> trade_intent \<Rightarrow> target \<Rightarrow> dec \<Rightarrow> uuid option \<Rightarrow> order_request" where
  "build_tp oid intent tgt qty intent_id = \<lparr>or_client_order_id = oid,
     or_instrument = ti_instrument intent, or_side = opposite (ti_side intent),
     or_order_type = Limit, or_quantity = qty, or_price = Some (tg_price tgt),
     or_stop_price = None, or_time_in_force = Gtc, or_reduce_only = True, or_post_only = False,
     or_intent_id = intent_id\<rparr>"

text \<open>The weight of a target: \<open>from_f32_retain\<close> has no value for a NaN or an infinity.\<close>

definition target_weight :: "dlib \<Rightarrow> target \<Rightarrow> dec" where
  "target_weight D t = max (case tg_weight t of
     Fin w \<Rightarrow> (case d_of_f32 D w of Some d \<Rightarrow> d | None \<Rightarrow> 0) | _ \<Rightarrow> 0) 0"

definition normalised_weights :: "dlib \<Rightarrow> target list \<Rightarrow> dec list" where
  "normalised_weights D ts = (let weights = map (target_weight D) ts; total = d_sum D weights in
     if 0 < total then map (\<lambda>w. d_div D w total) weights
     else let n = of_nat (length ts) in map (\<lambda>w. d_div D 1 n) weights)"

text \<open>The loop: child \<open>i\<close> takes its fraction, the last one what is left.\<close>

fun tp_children ::
  "dlib \<Rightarrow> (nat \<Rightarrow> uuid) \<Rightarrow> trade_intent \<Rightarrow> dec \<Rightarrow> uuid option \<Rightarrow> nat \<Rightarrow> dec
    \<Rightarrow> (target \<times> dec) list \<Rightarrow> order_request list"
where
  "tp_children D ids intent qty intent_id i allocated [] = []"
| "tp_children D ids intent qty intent_id i allocated ((t, fr) # rest) =
     (if i + 1 = length (ti_take_profits intent)
      then build_tp (ids i) intent t (d_sub D qty allocated) intent_id
        # tp_children D ids intent qty intent_id (i + 1) allocated rest
      else let q = d_mul D qty fr in
        build_tp (ids i) intent t q intent_id
        # tp_children D ids intent qty intent_id (i + 1) (d_add D allocated q) rest)"

definition build_take_profits ::
  "dlib \<Rightarrow> (nat \<Rightarrow> uuid) \<Rightarrow> trade_intent \<Rightarrow> dec \<Rightarrow> uuid option \<Rightarrow> order_request list"
where
  "build_take_profits D ids intent qty intent_id =
     (if ti_take_profits intent = [] then []
      else tp_children D ids intent qty intent_id 0 0
        (zip (ti_take_profits intent) (normalised_weights D (ti_take_profits intent))))"

definition split_intent ::
  "dlib \<Rightarrow> (nat \<Rightarrow> uuid) \<Rightarrow> approved_intent \<Rightarrow> execution_error + order_bracket"
where
  "split_intent D ids a = (let intent = ap_intent a; qty = ap_quantity a in
     if qty \<le> 0 then Err (ExecInvalidIntent ''quantity must be > 0'')
     else Ok \<lparr>ob_entry = build_entry (ids 0) intent qty (Some (ap_id a)),
       ob_stop = build_stop (ids 1) intent qty (Some (ap_id a)),
       ob_take_profits = build_take_profits D (\<lambda>i. ids (2 + i)) intent qty (Some (ap_id a))\<rparr>)"

subsection \<open>Adapters and the router\<close>

type_synonym placement = "uuid \<times> timestamp"

record 'w adapter =
  ad_name :: string
  ad_place :: "placement \<Rightarrow> order_request \<Rightarrow> 'w \<Rightarrow> (execution_error + order_ack) \<times> 'w"
  ad_cancel :: "order_handle \<Rightarrow> 'w \<Rightarrow> (execution_error + unit) \<times> 'w"
  ad_status :: "order_handle \<Rightarrow> 'w \<Rightarrow> execution_error + order_ack"

type_synonym 'w router = "(run_mode, 'w adapter) hmap"

record routed_acks =
  ra_entry :: order_ack
  ra_stop :: order_ack
  ra_take_profits :: "order_ack list"

definition router_register :: "run_mode \<Rightarrow> 'w adapter \<Rightarrow> 'w router \<Rightarrow> 'w router" where
  "router_register mode ad r = hm_insert mode ad r"

text \<open>The loop over the take profits; the first error leaves it.\<close>

fun place_all ::
  "(placement \<Rightarrow> order_request \<Rightarrow> 'w \<Rightarrow> (execution_error + order_ack) \<times> 'w)
    \<Rightarrow> (nat \<Rightarrow> placement) \<Rightarrow> nat \<Rightarrow> order_request list \<Rightarrow> 'w \<Rightarrow> (execution_error + order_ack list) \<times> 'w"
where
  "place_all place envs i [] w = (Ok [], w)"
| "place_all place envs i (r # rs) w = (case place (envs i) r w of
     (Inl e, w') \<Rightarrow> (Err e, w')
   | (Inr a, w') \<Rightarrow> (case place_all place envs (Suc i) rs w' of
       (Inl e, w'') \<Rightarrow> (Err e, w'')
     | (Inr as, w'') \<Rightarrow> (Ok (a # as), w'')))"

definition route ::
  "dlib \<Rightarrow> (nat \<Rightarrow> uuid) \<Rightarrow> (nat \<Rightarrow> placement) \<Rightarrow> 'w router \<Rightarrow> approved_intent \<Rightarrow> 'w
    \<Rightarrow> (execution_error + routed_acks) \<times> 'w"
where
  "route D ids envs router a w = (case split_intent D ids a of
     Inl e \<Rightarrow> (Err e, w)
   | Inr b \<Rightarrow> (case hm_get router (ti_mode (ap_intent a)) of
       None \<Rightarrow> (Err (NoAdapter (ti_mode (ap_intent a))), w)
     | Some ad \<Rightarrow> (case ad_place ad (envs 0) (ob_entry b) w of
         (Inl e, w1) \<Rightarrow> (Err e, w1)
       | (Inr entry, w1) \<Rightarrow> (case ad_place ad (envs 1) (ob_stop b) w1 of
           (Inl e, w2) \<Rightarrow> (Err e, w2)
         | (Inr stop, w2) \<Rightarrow> (case place_all (ad_place ad) envs 2 (ob_take_profits b) w2 of
             (Inl e, w3) \<Rightarrow> (Err e, w3)
           | (Inr tps, w3) \<Rightarrow>
               (Ok \<lparr>ra_entry = entry, ra_stop = stop, ra_take_profits = tps\<rparr>, w3))))))"

subsection \<open>The simulator\<close>

record sim_adapter =
  sm_slippage_pct :: dec
  sm_fees :: fee_model
  sm_reference_price :: "dec option"
  sm_orders :: "(uuid, order_ack) hmap"

definition sim_new :: "dec \<Rightarrow> fee_model \<Rightarrow> sim_adapter" where
  "sim_new slip fees = \<lparr>sm_slippage_pct = slip, sm_fees = fees, sm_reference_price = None,
     sm_orders = hm_empty\<rparr>"

definition set_reference_price :: "dec \<Rightarrow> sim_adapter \<Rightarrow> sim_adapter" where
  "set_reference_price price s = s\<lparr>sm_reference_price := Some price\<rparr>"

definition sim_snapshot :: "sim_adapter \<Rightarrow> order_ack list" where
  "sim_snapshot s = hm_values (sm_orders s)"

definition apply_slip :: "dlib \<Rightarrow> dec \<Rightarrow> side \<Rightarrow> dec \<Rightarrow> dec" where
  "apply_slip D price sd slip = (let delta = d_mul D price slip in
     case sd of Long \<Rightarrow> d_add D price delta | Short \<Rightarrow> d_sub D price delta)"

definition fill_price :: "dlib \<Rightarrow> sim_adapter \<Rightarrow> order_request \<Rightarrow> execution_error + dec" where
  "fill_price D s r = (let slip = sm_slippage_pct s in case or_order_type r of
     Market \<Rightarrow> and_then (ok_or (AdapterError ''no reference price set'') (sm_reference_price s))
       (\<lambda>x. Ok (apply_slip D x (or_side r) slip))
   | Limit \<Rightarrow> ok_or (ExecInvalidIntent ''limit order needs price'') (or_price r)
   | Stop \<Rightarrow> and_then (ok_or (ExecInvalidIntent ''stop order needs stop_price'') (or_stop_price r))
       (\<lambda>sp. Ok (apply_slip D sp (or_side r) slip))
   | StopLimit \<Rightarrow> ok_or (ExecInvalidIntent ''stop_limit needs price'') (or_price r)
   | Oco \<Rightarrow> Err (ExecInvalidIntent ''oco/iceberg not supported by sim'')
   | Iceberg \<Rightarrow> Err (ExecInvalidIntent ''oco/iceberg not supported by sim''))"

text \<open>
  Placing an order; \<open>show_uuid\<close> is the text of an id, \<open>fid\<close> the fresh id of the fill.
\<close>

definition sim_place ::
  "dlib \<Rightarrow> (uuid \<Rightarrow> string) \<Rightarrow> placement \<Rightarrow> order_request \<Rightarrow> sim_adapter
    \<Rightarrow> (execution_error + order_ack) \<times> sim_adapter"
where
  "sim_place D show_uuid env r s = (case fill_price D s r of
     Inl e \<Rightarrow> (Err e, s)
   | Inr price \<Rightarrow>
     (let liq = (if or_order_type r = Limit \<and> or_post_only r then Maker else Taker);
        ctx = \<lparr>tx_venue = venue_as_key (in_venue (or_instrument r)),
          tx_symbol = in_symbol (or_instrument r), tx_price = price,
          tx_quantity = or_quantity r, tx_liquidity = liq\<rparr>
      in case sm_fees s ctx of
        Inl e \<Rightarrow> (Err (AdapterError (''fee model: '' @ show_fee_error e)), s)
      | Inr quote \<Rightarrow>
        (let now = snd env;
           ack = \<lparr>ak_client_order_id = or_client_order_id r,
             ak_venue_order_id = ''sim-'' @ show_uuid (or_client_order_id r),
             ak_status = Filled, ak_accepted_at = now,
             ak_fills = [\<lparr>fl_fill_id = fst env, fl_order_id = or_client_order_id r,
               fl_price = price, fl_quantity = or_quantity r, fl_fee = fq_total quote, fl_at = now\<rparr>]\<rparr>
         in (Ok ack, s\<lparr>sm_orders := hm_insert (or_client_order_id r) ack (sm_orders s)\<rparr>))))"

definition sim_cancel :: "order_handle \<Rightarrow> sim_adapter \<Rightarrow> (execution_error + unit) \<times> sim_adapter" where
  "sim_cancel h s = (case hm_get (sm_orders s) (oh_client_order_id h) of
     None \<Rightarrow> (Err (OrderNotFound (oh_client_order_id h)), s)
   | Some ack \<Rightarrow> if ak_status ack = Filled then (Err (AdapterError ''already filled''), s)
       else (Ok (), s\<lparr>sm_orders := hm_insert (oh_client_order_id h) (ack\<lparr>ak_status := Canceled\<rparr>)
              (sm_orders s)\<rparr>))"

definition sim_status :: "order_handle \<Rightarrow> sim_adapter \<Rightarrow> execution_error + order_ack" where
  "sim_status h s = ok_or (OrderNotFound (oh_client_order_id h))
     (hm_get (sm_orders s) (oh_client_order_id h))"

definition sim_as_adapter :: "dlib \<Rightarrow> (uuid \<Rightarrow> string) \<Rightarrow> sim_adapter adapter" where
  "sim_as_adapter D show_uuid = \<lparr>ad_name = ''sim'', ad_place = sim_place D show_uuid,
     ad_cancel = sim_cancel, ad_status = sim_status\<rparr>"

subsection \<open>What a bracket is\<close>

text \<open>Arithmetic whose results are multiples of a smallest step and exact on them.\<close>

definition stepped :: "dlib \<Rightarrow> rat \<Rightarrow> bool" where
  "stepped D u \<longleftrightarrow> grid D u \<and> (\<forall>x. on_grid u (d_rnd D x))"

lemma tp_children_sum:
  assumes "stepped D u" "on_grid u qty" "on_grid u allocated" "ts \<noteq> []"
    "i + length ts = length (ti_take_profits intent)"
  shows "sum_list (map or_quantity (tp_children D ids intent qty iid i allocated ts)) = qty - allocated"
  using assms
proof (induction ts arbitrary: i allocated)
  case Nil
  then show ?case by simp
next
  case (Cons t ts)
  obtain tg fr where t: "t = (tg, fr)" by fastforce
  have g: "grid D u" and st: "on_grid u (d_mul D qty fr)"
    using Cons.prems(1) by (simp_all add: stepped_def d_mul_def)
  show ?case
  proof (cases "ts = []")
    case True
    with Cons.prems g show ?thesis by (simp add: t build_tp_def grid_sub)
  next
    case False
    have "d_add D allocated (d_mul D qty fr) = allocated + d_mul D qty fr"
      using grid_add [OF g Cons.prems(3) st] .
    moreover have "on_grid u (allocated + d_mul D qty fr)"
      using Cons.prems(3) st by (rule on_grid_add)
    moreover have "i + 1 \<noteq> length (ti_take_profits intent)"
      using Cons.prems(5) False by (cases ts) auto
    ultimately show ?thesis
      using Cons.IH [of "allocated + d_mul D qty fr" "i + 1"] Cons.prems False
      by (simp add: t build_tp_def Let_def)
  qed
qed

lemma tp_children_shape:
  "map or_client_order_id (tp_children D ids intent qty iid i allocated ts) = map ids [i..<i + length ts]"
  "map or_price (tp_children D ids intent qty iid i allocated ts) = map (\<lambda>t. Some (tg_price (fst t))) ts"
  "r \<in> set (tp_children D ids intent qty iid i allocated ts) \<Longrightarrow>
     or_side r = opposite (ti_side intent) \<and> or_order_type r = Limit \<and> or_reduce_only r \<and>
     \<not> or_post_only r \<and> or_intent_id r = iid \<and> or_instrument r = ti_instrument intent \<and>
     or_price r \<noteq> None"
proof (induction ts arbitrary: i allocated)
  case Nil
  case 1 show ?case by simp
  case 2 show ?case by simp
  case 3 then show ?case by simp
next
  case (Cons t ts)
  obtain tg fr where t: "t = (tg, fr)" by fastforce
  have upt: "[i..<i + length (t # ts)] = i # [Suc i..<Suc i + length ts]" for i
    by (simp add: upt_conv_Cons del: upt_Suc)
  case 1 show ?case unfolding upt using Cons.IH(1)
    by (simp add: t build_tp_def Let_def del: upt_Suc) (metis add_Suc)
  case 2 show ?case using Cons.IH(2) by (simp add: t build_tp_def Let_def)
  case 3 then show ?case using Cons.IH(3) by (auto simp: t build_tp_def Let_def split: if_splits)
qed

lemma length_normalised [simp]: "length (normalised_weights D ts) = length ts"
  by (simp add: normalised_weights_def Let_def)

lemma split_intent_Ok:
  assumes "split_intent D ids a = Ok b"
  shows "0 < ap_quantity a"
    and "b = \<lparr>ob_entry = build_entry (ids 0) (ap_intent a) (ap_quantity a) (Some (ap_id a)),
       ob_stop = build_stop (ids 1) (ap_intent a) (ap_quantity a) (Some (ap_id a)),
       ob_take_profits =
         build_take_profits D (\<lambda>i. ids (2 + i)) (ap_intent a) (ap_quantity a) (Some (ap_id a))\<rparr>"
  using assms by (auto simp: split_intent_def Let_def split: if_splits)

lemma take_profits_length:
  "length (build_take_profits D ids intent qty iid) = length (ti_take_profits intent)"
proof -
  have "length (tp_children D ids intent qty iid i al ts) = length ts" for i al ts
    using tp_children_shape(2) [of D ids intent qty iid i al ts] by (metis length_map)
  then show ?thesis by (simp add: build_take_profits_def)
qed


lemma bracket_ids:
  assumes "split_intent D ids a = Ok b"
  shows "map or_client_order_id (bracket_orders b) = map ids [0..<length (bracket_orders b)]"
proof -
  let ?ts = "zip (ti_take_profits (ap_intent a)) (normalised_weights D (ti_take_profits (ap_intent a)))"
  have "map or_client_order_id (ob_take_profits b) = map (\<lambda>i. ids (2 + i)) [0..<length (ob_take_profits b)]"
    using tp_children_shape(1) [of D "\<lambda>i. ids (2 + i)" "ap_intent a" "ap_quantity a" "Some (ap_id a)" 0 0 ?ts]
    unfolding split_intent_Ok(2) [OF assms]
    by (auto simp: build_take_profits_def) (metis length_map length_upt minus_nat.diff_0)
  moreover have "[0..<Suc (Suc n)] = 0 # 1 # map (\<lambda>i. 2 + i) [0..<n]" for n
    by (rule nth_equalityI) (auto simp: nth_Cons nth_append less_Suc_eq split: nat.splits)
  ultimately show ?thesis
    unfolding bracket_orders_def
    by (simp add: split_intent_Ok(2) [OF assms] build_entry_def build_stop_def comp_def del: upt_Suc)
qed

subsection \<open>What the router relies on\<close>

text \<open>
  The contract of an adapter: an accepted order can be looked up with its acknowledgement under
  its client id, a placement touches no other order, and a refused one records nothing.
\<close>

locale order_book =
  fixes place :: "placement \<Rightarrow> order_request \<Rightarrow> 'w \<Rightarrow> (execution_error + order_ack) \<times> 'w"
    and lookup :: "uuid \<Rightarrow> 'w \<Rightarrow> order_ack option"
  assumes accepted: "place env r w = (Inr a, w') \<Longrightarrow>
      ak_client_order_id a = or_client_order_id r \<and> lookup (or_client_order_id r) w' = Some a"
    and others: "place env r w = (x, w') \<Longrightarrow> i \<noteq> or_client_order_id r \<Longrightarrow> lookup i w' = lookup i w"
    and refused: "place env r w = (Inl e, w') \<Longrightarrow> lookup i w' = lookup i w"
begin

lemma place_all_frame:
  "place_all place envs i rs w = (x, w') \<Longrightarrow> j \<notin> or_client_order_id ` set rs \<Longrightarrow> lookup j w' = lookup j w"
proof (induction rs arbitrary: i w x w')
  case (Cons r rs)
  then show ?case
    using others [of "envs i" r w]
    by (fastforce split: prod.splits sum.splits)
qed simp

lemma place_all_accepted:
  assumes "place_all place envs i rs w = (Inr as, w')" and "distinct (map or_client_order_id rs)"
  shows "map (\<lambda>r. lookup (or_client_order_id r) w') rs = map Some as"
    and "map ak_client_order_id as = map or_client_order_id rs"
  using assms
proof (induction rs arbitrary: i w as)
  case Nil
  case 1 then show ?case by simp
  case 2 then show ?case by simp
next
  case (Cons r rs)
  { fix i w as
    assume p: "place_all place envs i (r # rs) w = (Inr as, w')"
      and d: "distinct (map or_client_order_id (r # rs))"
    from p obtain a w1 bs where 1: "place (envs i) r w = (Inr a, w1)"
      "place_all place envs (Suc i) rs w1 = (Inr bs, w')" "as = a # bs"
      by (auto split: prod.splits sum.splits)
    have "lookup (or_client_order_id r) w' = Some a"
      using place_all_frame [OF 1(2)] accepted [OF 1(1)] d by auto
    then have "map (\<lambda>r. lookup (or_client_order_id r) w') (r # rs) = map Some as \<and>
        map ak_client_order_id as = map or_client_order_id (r # rs)"
      using Cons.IH(1) [OF 1(2)] Cons.IH(2) [OF 1(2)] accepted [OF 1(1)] d 1(3) by simp }
  note * = this
  case 1 then show ?case using * by blast
  case 2 then show ?case using * by blast
qed

text \<open>A failing sequence stops at one order; the ones before it stay, it and the rest do not exist.\<close>

lemma place_all_refused:
  assumes "place_all place envs i rs w = (Inl e, w')" and "distinct (map or_client_order_id rs)"
  shows "\<exists>ps r qs as. rs = ps @ r # qs \<and>
    map (\<lambda>p. lookup (or_client_order_id p) w') ps = map Some as \<and>
    (\<forall>q \<in> set (r # qs). lookup (or_client_order_id q) w' = lookup (or_client_order_id q) w)"
  using assms
proof (induction rs arbitrary: i w)
  case Nil
  then show ?case by simp
next
  case (Cons r rs)
  show ?case
  proof (cases "place (envs i) r w")
    case (Pair x w1)
    show ?thesis
    proof (cases x)
      case (Inl e')
      with Pair Cons.prems have "place (envs i) r w = (Inl e, w')" by simp
      with refused have "\<forall>q \<in> set (r # rs). lookup (or_client_order_id q) w' = lookup (or_client_order_id q) w"
        by blast
      then show ?thesis by (intro exI [of _ "[]"] exI [of _ r] exI [of _ rs]) simp
    next
      case (Inr a)
      with Pair Cons.prems have p: "place_all place envs (Suc i) rs w1 = (Inl e, w')"
        by (auto split: prod.splits sum.splits)
      have "distinct (map or_client_order_id rs)" using Cons.prems(2) by simp
      from Cons.IH [OF p this] obtain ps q qs as where h: "rs = ps @ q # qs"
        "map (\<lambda>p. lookup (or_client_order_id p) w') ps = map Some as"
        "\<forall>q \<in> set (q # qs). lookup (or_client_order_id q) w' = lookup (or_client_order_id q) w1"
        by blast
      have r: "lookup (or_client_order_id r) w' = Some a"
        using place_all_frame [OF p] accepted [of "envs i" r w a w1] Pair Inr Cons.prems(2) by auto
      have "\<forall>x \<in> set (q # qs). lookup (or_client_order_id x) w' = lookup (or_client_order_id x) w"
      proof
        fix x assume x: "x \<in> set (q # qs)"
        then have "or_client_order_id x \<noteq> or_client_order_id r" using h(1) Cons.prems(2)
          by (metis Un_iff distinct.simps(2) image_eqI image_set list.simps(9) set_append)
        with others [OF Pair] h(3) x
        show "lookup (or_client_order_id x) w' = lookup (or_client_order_id x) w" by auto
      qed
      with h r show ?thesis
        by (intro exI [of _ "r # ps"] exI [of _ q] exI [of _ qs] exI [of _ "a # as"]) simp
    qed
  qed
qed

end

definition sim_lookup :: "uuid \<Rightarrow> sim_adapter \<Rightarrow> order_ack option" where
  "sim_lookup i s = hm_get (sm_orders s) i"

interpretation sim: order_book "sim_place D show_uuid" sim_lookup
  by unfold_locales (auto simp: sim_place_def sim_lookup_def Let_def split: sum.splits)

lemma route_place_all:
  assumes "split_intent D ids a = Ok b" and "hm_get router (ti_mode (ap_intent a)) = Some ad"
  shows "route D ids envs router a w = (case place_all (ad_place ad) envs 0 (bracket_orders b) w of
     (Inl e, w') \<Rightarrow> (Err e, w')
   | (Inr as, w') \<Rightarrow> (Ok \<lparr>ra_entry = hd as, ra_stop = hd (tl as), ra_take_profits = tl (tl as)\<rparr>, w'))"
proof -
  show ?thesis
    by (simp add: route_def bracket_orders_def assms numeral_2_eq_2 split: prod.splits sum.splits)
qed

subsection \<open>The simulator fills everything\<close>

text \<open>Every leg of a bracket with an entry price has a price in the simulator.\<close>

lemma bracket_priced:
  assumes "split_intent D ids a = Ok b" and "ti_entry_price (ap_intent a) = Some e"
    and "r \<in> set (bracket_orders b)"
  shows "\<exists>p. fill_price D s r = Ok p"
proof -
  have "r = ob_entry b \<or> r = ob_stop b \<or> or_order_type r = Limit \<and> or_price r \<noteq> None"
    using assms(3) unfolding bracket_orders_def split_intent_Ok(2) [OF assms(1)]
    by (auto simp: build_take_profits_def dest: tp_children_shape(3) split: if_splits)
  then show ?thesis
    by (auto simp: fill_price_def split_intent_Ok(2) [OF assms(1)] build_entry_def build_stop_def assms(2))
qed

text \<open>The acknowledgement of an order: filled at once, for its whole quantity, at its price.\<close>

definition filled_as :: "dlib \<Rightarrow> sim_adapter \<Rightarrow> order_request \<Rightarrow> order_ack \<Rightarrow> bool" where
  "filled_as D s r a \<longleftrightarrow> ak_status a = Filled \<and> (\<exists>f. ak_fills a = [f] \<and>
     fl_quantity f = or_quantity r \<and> fill_price D s r = Ok (fl_price f) \<and>
     fl_order_id f = or_client_order_id r)"

lemma sim_place_filled:
  assumes "sim_place D su env r s = (x, s')"
  shows "sm_slippage_pct s' = sm_slippage_pct s \<and> sm_fees s' = sm_fees s \<and>
      sm_reference_price s' = sm_reference_price s"
    and "x = Inr a \<Longrightarrow> filled_as D s r a"
  using assms by (auto simp: sim_place_def filled_as_def Let_def split: sum.splits)

lemma filled_as_cong:
  "sm_slippage_pct s' = sm_slippage_pct s \<Longrightarrow> sm_reference_price s' = sm_reference_price s \<Longrightarrow>
     filled_as D s' r a = filled_as D s r a"
  by (simp add: filled_as_def fill_price_def Let_def cong: order_type.case_cong)

lemma place_all_filled:
  assumes "place_all (sim_place D su) envs i rs s = (Inr as, s')"
  shows "list_all2 (filled_as D s) rs as"
  using assms
proof (induction rs arbitrary: i s as)
  case Nil
  then show ?case by simp
next
  case (Cons r rs)
  from Cons.prems obtain a s1 bs where 1: "sim_place D su (envs i) r s = (Inr a, s1)"
    "place_all (sim_place D su) envs (Suc i) rs s1 = (Inr bs, s')" "as = a # bs"
    by (auto split: prod.splits sum.splits)
  have "list_all2 (filled_as D s1) rs bs" by (rule Cons.IH [OF 1(2)])
  moreover have "filled_as D s1 = filled_as D s"
    using sim_place_filled(1) [OF 1(1)] by (intro ext filled_as_cong) simp_all
  ultimately show ?case using sim_place_filled(2) [OF 1(1)] 1(3) by simp
qed

lemma place_all_total:
  assumes "\<forall>r \<in> set rs. \<exists>p. fill_price D s r = Ok p" and "\<forall>c. \<exists>q. sm_fees s c = Ok q"
  shows "\<exists>as s'. place_all (sim_place D su) envs i rs s = (Inr as, s')"
  using assms
proof (induction rs arbitrary: i s)
  case Nil
  then show ?case by simp
next
  case (Cons r rs)
  have "\<exists>a s1. sim_place D su (envs i) r s = (Inr a, s1)"
  proof -
    obtain p where "fill_price D s r = Inr p" using Cons.prems(1) by auto
    moreover obtain q where "sm_fees s \<lparr>tx_venue = venue_as_key (in_venue (or_instrument r)),
        tx_symbol = in_symbol (or_instrument r), tx_price = p, tx_quantity = or_quantity r,
        tx_liquidity = (if or_order_type r = Limit \<and> or_post_only r then Maker else Taker)\<rparr> = Inr q"
      using Cons.prems(2) by blast
    ultimately show ?thesis by (simp add: sim_place_def Let_def)
  qed
  then obtain a s1 where p: "sim_place D su (envs i) r s = (Inr a, s1)" by blast
  note same = sim_place_filled(1) [OF p]
  have "fill_price D s1 q = fill_price D s q" for q
    using same by (simp add: fill_price_def Let_def cong: order_type.case_cong)
  then obtain as s' where "place_all (sim_place D su) envs (Suc i) rs s1 = (Inr as, s')"
    using Cons.IH [of s1 "Suc i"] Cons.prems same by auto
  with p show ?case by simp
qed

text \<open>
  C15. Routing a bracket through the simulator, whose legs have fresh distinct ids. When it
  succeeds, all legs are filled at once and in full, the entry, the stop and every take profit,
  each at the price of its order type, and each can be looked up under its id. When it fails, it
  stops at one leg: the legs before it stay placed and filled, that leg and the later ones do not
  exist, and the error is all the caller gets, no acknowledgement of the legs that were filled.
\<close>

theorem sim_route_outcome:
  assumes "split_intent D ids a = Ok b"
    and "hm_get router (ti_mode (ap_intent a)) = Some (sim_as_adapter D show_uuid)"
    and "inj ids" and "\<forall>i. sim_lookup (ids i) s = None"
  shows "case route D ids envs router a s of
     (Inr acks, s') \<Rightarrow> (let as = ra_entry acks # ra_stop acks # ra_take_profits acks in
       list_all2 (filled_as D s) (bracket_orders b) as \<and>
       map (\<lambda>r. sim_lookup (or_client_order_id r) s') (bracket_orders b) = map Some as)
   | (Inl e, s') \<Rightarrow> (\<exists>ps r qs as. bracket_orders b = ps @ r # qs \<and>
       map (\<lambda>p. sim_lookup (or_client_order_id p) s') ps = map Some as \<and>
       (\<forall>q \<in> set (r # qs). sim_lookup (or_client_order_id q) s' = None))"
proof -
  have ad: "ad_place (sim_as_adapter D show_uuid) = sim_place D show_uuid"
    by (simp add: sim_as_adapter_def)
  have ids: "map or_client_order_id (bracket_orders b) = map ids [0..<length (bracket_orders b)]"
    by (rule bracket_ids [OF assms(1)])
  have d: "distinct (map or_client_order_id (bracket_orders b))"
    unfolding ids using assms(3) by (simp add: distinct_map inj_on_def)
  have fresh: "sim_lookup (or_client_order_id r) s = None" if "r \<in> set (bracket_orders b)" for r
  proof -
    have "or_client_order_id r \<in> set (map or_client_order_id (bracket_orders b))" using that by simp
    then show ?thesis unfolding ids using assms(4) by auto
  qed
  show ?thesis
  proof (cases "place_all (sim_place D show_uuid) envs 0 (bracket_orders b) s")
    case (Pair x s')
    show ?thesis
    proof (cases x)
      case (Inr as)
      with Pair have p: "place_all (sim_place D show_uuid) envs 0 (bracket_orders b) s = (Inr as, s')"
        by simp
      have f: "list_all2 (filled_as D s) (bracket_orders b) as" by (rule place_all_filled [OF p])
      then obtain a1 a2 tps where as: "as = a1 # a2 # tps"
        by (auto simp: bracket_orders_def list_all2_Cons1)
      show ?thesis
        using f sim.place_all_accepted(1) [OF p d]
        by (simp add: route_place_all [OF assms(1,2)] ad p as)
    next
      case (Inl e)
      with Pair have p: "place_all (sim_place D show_uuid) envs 0 (bracket_orders b) s = (Inl e, s')"
        by simp
      from sim.place_all_refused [OF p d] obtain ps r qs as where h:
        "bracket_orders b = ps @ r # qs"
        "map (\<lambda>p. sim_lookup (or_client_order_id p) s') ps = map Some as"
        "\<forall>q \<in> set (r # qs). sim_lookup (or_client_order_id q) s' = sim_lookup (or_client_order_id q) s"
        by blast
      have "\<forall>q \<in> set (r # qs). sim_lookup (or_client_order_id q) s' = None"
        using h(1,3) fresh by auto
      moreover have "route D ids envs router a s = (Inl e, s')"
        by (simp add: route_place_all [OF assms(1,2)] ad p)
      ultimately show ?thesis using h(1,2) by auto
    qed
  qed
qed

subsection \<open>Cancelling\<close>

text \<open>The states a simulator goes through.\<close>

inductive sim_reach :: "dlib \<Rightarrow> (uuid \<Rightarrow> string) \<Rightarrow> dec \<Rightarrow> fee_model \<Rightarrow> sim_adapter \<Rightarrow> bool"
  for D su slip fees
where
  start: "sim_reach D su slip fees (sim_new slip fees)"
| reference: "sim_reach D su slip fees s \<Longrightarrow> sim_reach D su slip fees (set_reference_price x s)"
| placed: "sim_reach D su slip fees s \<Longrightarrow> sim_reach D su slip fees (snd (sim_place D su env r s))"
| cancelled: "sim_reach D su slip fees s \<Longrightarrow> sim_reach D su slip fees (snd (sim_cancel h s))"

lemma sim_reach_filled:
  "sim_reach D su slip fees s \<Longrightarrow> sim_lookup i s = Some a \<Longrightarrow>
     ak_status a = Filled \<and> ak_client_order_id a = i \<and> length (ak_fills a) = 1"
proof (induction arbitrary: i a rule: sim_reach.induct)
  case start
  then show ?case by (simp add: sim_lookup_def sim_new_def)
next
  case (reference s x)
  then show ?case by (simp add: sim_lookup_def set_reference_price_def)
next
  case (placed s env r)
  obtain x s' where p: "sim_place D su env r s = (x, s')" by fastforce
  show ?case
  proof (cases "i = or_client_order_id r")
    case False
    with sim.others [OF p False] placed p show ?thesis by simp
  next
    case True
    show ?thesis
    proof (cases x)
      case (Inl e)
      with p sim.refused [of D su env r s e s'] placed show ?thesis by simp
    next
      case (Inr a')
      with p sim.accepted [of D su env r s a' s'] sim_place_filled(2) [OF p Inr] placed.prems True
      show ?thesis by (auto simp: filled_as_def)
    qed
  qed
next
  case (cancelled s h)
  then have "snd (sim_cancel h s) = s"
    by (auto simp: sim_cancel_def sim_lookup_def split: option.splits)
  with cancelled show ?case by simp
qed

text \<open>
  C26. In every state a simulator can reach, each order it holds is filled with a single fill, so a
  cancellation never succeeds: it answers that the order is filled or unknown and changes nothing.
\<close>

theorem sim_cancel_never_succeeds:
  assumes "sim_reach D show_uuid slip fees s"
  shows "(\<forall>i a. sim_lookup i s = Some a \<longrightarrow> ak_status a = Filled \<and> length (ak_fills a) = 1) \<and>
    sim_cancel h s = (Err (case sim_status h s of
       Inr a \<Rightarrow> AdapterError ''already filled'' | Inl e \<Rightarrow> OrderNotFound (oh_client_order_id h)), s)"
  using sim_reach_filled [OF assms]
  by (auto simp: sim_cancel_def sim_status_def sim_lookup_def split: option.splits)

subsection \<open>Witnesses\<close>

lemma stepped_exact_one_free: "stepped lib28 (1 / 10 ^ 28)"
  unfolding stepped_def
proof (intro conjI allI)
  show "grid lib28 (1 / 10 ^ 28)" by (rule grid_lib28)
  fix x :: rat
  have "rnd28 x = of_int (if 0 < x then \<lfloor>\<bar>x\<bar> * 10 ^ 28 + 1 / 2\<rfloor>
      else if x < 0 then - \<lfloor>\<bar>x\<bar> * 10 ^ 28 + 1 / 2\<rfloor> else 0) * (1 / 10 ^ 28)"
    by (simp add: rnd28_def)
  then show "on_grid (1 / 10 ^ 28) (d_rnd lib28 x)"
    unfolding on_grid_def by (auto simp: lib28_def)
qed

definition sample_order_approval :: approved_intent where
  "sample_order_approval = \<lparr>ap_id = 7, ap_approved_at = 5, ap_intent = sample_intent VolTarget,
     ap_quantity = 1, ap_notional = 100, ap_checks_passed = [], ap_adjustments = []\<rparr>"


definition free_fees :: fee_model where
  "free_fees ctx = Ok \<lparr>fq_total = 0, fq_percentage_component = 0, fq_flat_component = 0, fq_effective_rate = 0\<rparr>"

theorem sim_route_outcome_witness:
  "case route exact_lib Suc (\<lambda>i. (100 + i, int i))
      (router_register Dry (sim_as_adapter exact_lib show_nat) hm_empty) sample_order_approval
      (sim_new 0 free_fees) of
     (Inr acks, s') \<Rightarrow> sim_lookup 2 s' = Some (ra_stop acks) \<and> ak_status (ra_stop acks) = Filled
   | (Inl e, s') \<Rightarrow> sim_lookup 9 s' = None"
proof -
  let ?s = "sim_new 0 free_fees"
  let ?r = "router_register Dry (sim_as_adapter exact_lib show_nat) hm_empty"
  obtain b where b: "split_intent exact_lib Suc sample_order_approval = Ok b"
    by (simp add: split_intent_def sample_order_approval_def Let_def)
  have stop: "or_client_order_id (ob_stop b) = 2"
    by (simp add: split_intent_Ok(2) [OF b] build_stop_def)
  have m: "hm_get ?r (ti_mode (ap_intent sample_order_approval)) = Some (sim_as_adapter exact_lib show_nat)"
    by (simp add: router_register_def sample_order_approval_def)
  have n: "\<forall>i. sim_lookup (Suc i) ?s = None" by (simp add: sim_lookup_def sim_new_def)
  have priced: "\<forall>r \<in> set (bracket_orders b). \<exists>p. fill_price exact_lib ?s r = Ok p"
    using bracket_priced [OF b, of 100] by (simp add: sample_order_approval_def)
  have ok: "\<exists>acks s'. route exact_lib Suc (\<lambda>i. (100 + i, int i)) ?r sample_order_approval ?s = (Inr acks, s')"
  proof -
    have "\<forall>c. \<exists>q. sm_fees ?s c = Ok q" by (simp add: sim_new_def free_fees_def)
    with priced obtain as s' where "place_all (sim_place exact_lib show_nat)
        (\<lambda>i. (100 + i, int i)) 0 (bracket_orders b) ?s = (Inr as, s')"
      using place_all_total by blast
    moreover have "ad_place (sim_as_adapter exact_lib show_nat) = sim_place exact_lib show_nat"
      by (simp add: sim_as_adapter_def)
    ultimately show ?thesis by (simp add: route_place_all [OF b m])
  qed
  then obtain acks s' where a: "route exact_lib Suc (\<lambda>i. (100 + i, int i)) ?r sample_order_approval ?s = (Inr acks, s')"
    by blast
  from sim_route_outcome [OF b m inj_Suc n, of "\<lambda>i. (100 + i, int i)"] a stop
  show ?thesis by (simp add: Let_def bracket_orders_def filled_as_def)
qed

theorem sim_cancel_never_succeeds_witness:
  "\<forall>h s'. sim_cancel h (snd (sim_place exact_lib show_nat (1, 2)
     (build_entry 3 (sample_intent Kelly) 1 None) (sim_new 0 free_fees))) \<noteq> (Ok (), s')"
  using sim_cancel_never_succeeds [OF sim_reach.placed [OF sim_reach.start], of exact_lib show_nat
      "(1, 2)" "build_entry 3 (sample_intent Kelly) 1 None" 0 free_fees]
  by simp

end
