(* ===== verification/Portfolio.thy ===== *)
theory Portfolio
  imports PreTrade
begin

text \<open>
  \<open>qtss-portfolio\<close>: the netted position of an instrument (\<open>position.rs\<close>) and the engine that keeps
  cash, peak equity and the day anchor and hands the account snapshot to risk (\<open>engine.rs\<close>).
\<close>

subsection \<open>A position\<close>

record position =
  pf_symbol :: string
  pf_side :: "side option"
  pf_quantity :: dec
  pf_avg_entry :: dec
  pf_realised_pnl :: dec
  pf_unrealised_pnl :: dec
  pf_last_mark :: dec

definition pos_flat :: "string \<Rightarrow> position" where
  "pos_flat symbol = \<lparr>pf_symbol = symbol, pf_side = None, pf_quantity = 0, pf_avg_entry = 0,
     pf_realised_pnl = 0, pf_unrealised_pnl = 0, pf_last_mark = 0\<rparr>"

definition is_flat :: "position \<Rightarrow> bool" where
  "is_flat p \<longleftrightarrow> pf_side p = None \<or> pf_quantity p = 0"

fun signed :: "side \<Rightarrow> dec \<Rightarrow> dec" where
  "signed Long qty = qty"
| "signed Short qty = - qty"

definition same_or_zero :: "dec \<Rightarrow> dec \<Rightarrow> bool" where
  "same_or_zero a b = (if a = 0 \<or> b = 0 then True else (0 < a) = (0 < b))"

definition pos_mark :: "dlib \<Rightarrow> dec \<Rightarrow> position \<Rightarrow> position" where
  "pos_mark D mark p0 = (let p = p0\<lparr>pf_last_mark := mark\<rparr> in
     if is_flat p \<or> mark = 0 then p\<lparr>pf_unrealised_pnl := 0\<rparr>
     else (case pf_side p of
         Some Long \<Rightarrow> p\<lparr>pf_unrealised_pnl := d_mul D (d_sub D mark (pf_avg_entry p)) (pf_quantity p)\<rparr>
       | Some Short \<Rightarrow> p\<lparr>pf_unrealised_pnl := d_mul D (d_sub D (pf_avg_entry p) mark) (pf_quantity p)\<rparr>
       | None \<Rightarrow> p))"

text \<open>The signed quantity a position holds.\<close>

definition current_signed :: "position \<Rightarrow> dec" where
  "current_signed p = (case pf_side p of Some s \<Rightarrow> signed s (pf_quantity p) | None \<Rightarrow> 0)"

text \<open>The branch of a pure addition or first opening.\<close>

definition fill_add :: "dlib \<Rightarrow> side \<Rightarrow> dec \<Rightarrow> dec \<Rightarrow> dec \<Rightarrow> dec \<Rightarrow> position \<Rightarrow> position" where
  "fill_add D sd qty price abs_old abs_new p =
     (if abs_new = 0 then p\<lparr>pf_side := None, pf_quantity := 0, pf_avg_entry := 0\<rparr>
      else if abs_old = 0 then p\<lparr>pf_side := Some sd, pf_quantity := qty, pf_avg_entry := price\<rparr>
      else p\<lparr>pf_avg_entry := d_div D (d_add D (d_mul D (pf_avg_entry p) abs_old) (d_mul D price qty)) abs_new,
         pf_quantity := abs_new\<rparr>)"

text \<open>The branch of a reduction or flip, with the profit of the closed quantity.\<close>

definition fill_reduce :: "dlib \<Rightarrow> side \<Rightarrow> dec \<Rightarrow> dec \<Rightarrow> position \<Rightarrow> dec \<times> position" where
  "fill_reduce D sd qty price p = (let
       close_qty = min qty (pf_quantity p);
       pnl_per_unit = (case pf_side p of
           Some Long \<Rightarrow> d_sub D price (pf_avg_entry p)
         | Some Short \<Rightarrow> d_sub D (pf_avg_entry p) price
         | None \<Rightarrow> 0);
       gain = d_mul D pnl_per_unit close_qty;
       leftover = d_sub D qty close_qty;
       p1 = p\<lparr>pf_quantity := d_sub D (pf_quantity p) close_qty\<rparr>;
       p2 = (if pf_quantity p1 = 0 then p1\<lparr>pf_side := None, pf_avg_entry := 0\<rparr> else p1);
       p3 = (if 0 < leftover
         then p2\<lparr>pf_side := Some sd, pf_quantity := leftover, pf_avg_entry := price\<rparr> else p2)
     in (gain, p3))"

definition pos_apply_fill ::
  "dlib \<Rightarrow> side \<Rightarrow> dec \<Rightarrow> dec \<Rightarrow> dec \<Rightarrow> position \<Rightarrow> dec \<times> position"
where
  "pos_apply_fill D sd qty price fee p = (let
       cur = current_signed p;
       new_signed = d_add D cur (signed sd qty);
       (realised, p1) = (if same_or_zero cur new_signed
         then (- fee, fill_add D sd qty price \<bar>cur\<bar> \<bar>new_signed\<bar> p)
         else (let (gain, p') = fill_reduce D sd qty price p in (d_add D (- fee) gain, p')));
       p2 = p1\<lparr>pf_realised_pnl := d_add D (pf_realised_pnl p1) realised\<rparr>
     in (realised, pos_mark D (pf_last_mark p2) p2))"

subsection \<open>The engine\<close>

record portfolio =
  pe_starting_equity :: dec
  pe_positions :: "(string, position) hmap"
  pe_cash :: dec
  pe_realised_today :: dec
  pe_peak_equity :: dec
  pe_day_anchor :: dec
  pe_day_anchor_at :: timestamp
  pe_kill_switch_manual :: bool

definition portfolio_new :: "dec \<Rightarrow> timestamp \<Rightarrow> portfolio" where
  "portfolio_new starting_equity now = \<lparr>pe_starting_equity = starting_equity, pe_positions = hm_empty,
     pe_cash = starting_equity, pe_realised_today = 0, pe_peak_equity = starting_equity,
     pe_day_anchor = starting_equity, pe_day_anchor_at = now, pe_kill_switch_manual = False\<rparr>"

definition portfolio_position :: "portfolio \<Rightarrow> string \<Rightarrow> position option" where
  "portfolio_position e symbol = hm_get (pe_positions e) symbol"

definition open_position_count :: "portfolio \<Rightarrow> nat" where
  "open_position_count e = length (filter (\<lambda>p. \<not> is_flat p) (hm_values (pe_positions e)))"

definition set_kill_switch :: "bool \<Rightarrow> portfolio \<Rightarrow> portfolio" where
  "set_kill_switch on e = e\<lparr>pe_kill_switch_manual := on\<rparr>"

definition equity :: "dlib \<Rightarrow> portfolio \<Rightarrow> dec" where
  "equity D e = d_add D (pe_cash e) (d_sum D (map pf_unrealised_pnl (hm_values (pe_positions e))))"

definition day_pnl :: "dlib \<Rightarrow> portfolio \<Rightarrow> dec" where
  "day_pnl D e = d_sub D (equity D e) (pe_day_anchor e)"

definition refresh_peak :: "dlib \<Rightarrow> portfolio \<Rightarrow> portfolio" where
  "refresh_peak D e = (let eq = equity D e in
     if pe_peak_equity e < eq then e\<lparr>pe_peak_equity := eq\<rparr> else e)"

definition portfolio_apply_fill ::
  "dlib \<Rightarrow> string \<Rightarrow> side \<Rightarrow> dec \<Rightarrow> dec \<Rightarrow> dec \<Rightarrow> portfolio \<Rightarrow> portfolio"
where
  "portfolio_apply_fill D symbol sd qty price fee e = (let
       pos = (case hm_get (pe_positions e) symbol of Some p \<Rightarrow> p | None \<Rightarrow> pos_flat symbol);
       (realised, pos') = pos_apply_fill D sd qty price fee pos;
       notional = d_mul D qty price;
       flow = d_sub D (case sd of Long \<Rightarrow> - notional | Short \<Rightarrow> notional) fee
     in refresh_peak D (e\<lparr>pe_positions := hm_insert symbol pos' (pe_positions e),
          pe_realised_today := d_add D (pe_realised_today e) realised,
          pe_cash := d_add D (pe_cash e) flow\<rparr>))"

definition mark_one :: "dlib \<Rightarrow> string \<Rightarrow> dec \<Rightarrow> portfolio \<Rightarrow> portfolio" where
  "mark_one D symbol price e = (case hm_get (pe_positions e) symbol of
     Some p \<Rightarrow> e\<lparr>pe_positions := hm_insert symbol (pos_mark D price p) (pe_positions e)\<rparr>
   | None \<Rightarrow> e)"

definition portfolio_mark :: "dlib \<Rightarrow> string \<Rightarrow> dec \<Rightarrow> portfolio \<Rightarrow> portfolio" where
  "portfolio_mark D symbol price e = refresh_peak D (mark_one D symbol price e)"

definition portfolio_mark_all :: "dlib \<Rightarrow> (string, dec) hmap \<Rightarrow> portfolio \<Rightarrow> portfolio" where
  "portfolio_mark_all D prices e =
     refresh_peak D (foldl (\<lambda>e (symb, x). mark_one D symb x e) e prices)"

text \<open>\<open>date\<close> is the UTC date of a time.\<close>

definition rollover_day :: "dlib \<Rightarrow> (timestamp \<Rightarrow> int) \<Rightarrow> timestamp \<Rightarrow> portfolio \<Rightarrow> portfolio" where
  "rollover_day D date now e = (if date now = date (pe_day_anchor_at e) then e
     else e\<lparr>pe_day_anchor := equity D e, pe_day_anchor_at := now, pe_realised_today := 0\<rparr>)"

definition portfolio_snapshot :: "dlib \<Rightarrow> portfolio \<Rightarrow> account_state" where
  "portfolio_snapshot D e = (let eq = equity D e;
       gross_notional = d_sum D (map (\<lambda>p. d_mul D (max (pf_last_mark p) (pf_avg_entry p)) (pf_quantity p))
         (filter (\<lambda>p. \<not> is_flat p) (hm_values (pe_positions e))));
       leverage = (if 0 < eq then d_div D gross_notional eq else 0)
     in \<lparr>as_equity = eq, as_peak_equity = pe_peak_equity e, as_day_pnl = day_pnl D e,
          as_open_positions = open_position_count e, as_current_leverage = leverage,
          as_kill_switch_manual = pe_kill_switch_manual e\<rparr>)"

subsection \<open>Positions net their fills\<close>

definition pos_inv :: "rat \<Rightarrow> position \<Rightarrow> bool" where
  "pos_inv u p \<longleftrightarrow> 0 \<le> pf_quantity p \<and> (pf_side p = None \<longleftrightarrow> pf_quantity p = 0) \<and>
     on_grid u (pf_quantity p) \<and> (pf_side p = None \<longrightarrow> pf_avg_entry p = 0 \<and> pf_unrealised_pnl p = 0)"

lemma signed_abs [simp]: "\<bar>signed s q\<bar> = \<bar>q\<bar>"
  by (cases s) simp_all

lemma on_grid_signed: "on_grid u q \<Longrightarrow> on_grid u (signed s q)"
  by (cases s) (simp_all add: on_grid_neg)

lemma pos_mark_simps [simp]:
  "pf_side (pos_mark D m p) = pf_side p" "pf_quantity (pos_mark D m p) = pf_quantity p"
  "pf_avg_entry (pos_mark D m p) = pf_avg_entry p" "pf_last_mark (pos_mark D m p) = m"
  "pf_realised_pnl (pos_mark D m p) = pf_realised_pnl p" "pf_symbol (pos_mark D m p) = pf_symbol p"
  by (auto simp: pos_mark_def Let_def split: option.splits side.splits)

lemma pos_mark_unrealised:
  "pf_unrealised_pnl (pos_mark D m p) = (if is_flat p \<or> m = 0 then 0 else case pf_side p of
     Some Long \<Rightarrow> d_mul D (d_sub D m (pf_avg_entry p)) (pf_quantity p)
   | Some Short \<Rightarrow> d_mul D (d_sub D (pf_avg_entry p) m) (pf_quantity p)
   | None \<Rightarrow> 0)"
  by (auto simp: pos_mark_def is_flat_def Let_def split: option.splits side.splits)

lemma pos_mark_inv: "pos_inv u p \<Longrightarrow> pos_inv u (pos_mark D m p)"
  by (auto simp: pos_inv_def pos_mark_unrealised is_flat_def)

lemma current_signed_mark [simp]: "current_signed (pos_mark D m p) = current_signed p"
  by (cases "pf_side p") (simp_all add: current_signed_def)

text \<open>One fill: the signed quantities add up, on the smallest step of the quantities.\<close>

lemma fill_nets:
  assumes "grid D u" "pos_inv u p" "on_grid u qty" "0 < qty"
  shows "pos_inv u (snd (pos_apply_fill D sd qty price fee p)) \<and>
    current_signed (snd (pos_apply_fill D sd qty price fee p)) = current_signed p + signed sd qty"
proof -
  let ?c = "current_signed p" and ?n = "current_signed p + signed sd qty"
  have qg: "on_grid u (pf_quantity p)" and q0: "0 \<le> pf_quantity p"
    and flat: "pf_side p = None \<longleftrightarrow> pf_quantity p = 0"
    using assms(2) by (auto simp: pos_inv_def)
  have cg: "on_grid u ?c"
    using qg by (auto simp: current_signed_def on_grid_signed split: option.splits)
  then have n: "d_add D ?c (signed sd qty) = ?n"
    using assms(1,3) by (intro grid_add) (auto intro: on_grid_signed)
  have ng: "on_grid u ?n" using cg assms(3) by (intro on_grid_add on_grid_signed)
  have abs_c: "\<bar>?c\<bar> = pf_quantity p" using q0 flat by (auto simp: current_signed_def split: option.splits)
  define q where "q = (if same_or_zero ?c ?n then fill_add D sd qty price \<bar>?c\<bar> \<bar>?n\<bar> p
    else snd (fill_reduce D sd qty price p))"
  have k: "0 \<le> pf_quantity q \<and> (pf_side q = None \<longleftrightarrow> pf_quantity q = 0) \<and> on_grid u (pf_quantity q) \<and>
      (pf_side q = None \<longrightarrow> pf_avg_entry q = 0) \<and> current_signed q = ?n"
  proof (cases "same_or_zero ?c ?n")
    case True
    have q: "q = fill_add D sd qty price \<bar>?c\<bar> \<bar>?n\<bar> p" using True by (simp add: q_def)
    consider "?n = 0" | "?n \<noteq> 0" "?c = 0" | "?n \<noteq> 0" "?c \<noteq> 0" by blast
    then show ?thesis
    proof cases
      case 1
      then show ?thesis by (simp add: q fill_add_def current_signed_def)
    next
      case 2
      then show ?thesis using assms(3,4) by (simp add: q fill_add_def) (simp add: current_signed_def)
    next
      case 3
      then obtain s where s: "pf_side p = Some s" by (auto simp: current_signed_def split: option.splits)
      have "(0 < ?c) = (0 < ?n)" using True 3 by (simp add: same_or_zero_def)
      then have "signed s \<bar>?n\<bar> = ?n"
        using 3 q0 by (cases s) (auto simp: current_signed_def s)
      then show ?thesis
        using 3 s ng by (simp add: q fill_add_def on_grid_abs) (simp add: current_signed_def)
    qed
  next
    case False
    then have c0: "?c \<noteq> 0" "?n \<noteq> 0" "(0 < ?c) \<noteq> (0 < ?n)" by (auto simp: same_or_zero_def split: if_splits)
    from c0(1) abs_c have q1: "pf_quantity p \<noteq> 0" by auto
    with flat obtain s where s: "pf_side p = Some s" "pf_quantity p \<noteq> 0" by auto
    have lt: "pf_quantity p < qty" "sd \<noteq> s" "?n = signed sd (qty - pf_quantity p)"
      using c0 s q0 assms(4) by (cases s; cases sd; auto simp: current_signed_def)+
    have "d_sub D qty (pf_quantity p) = qty - pf_quantity p" "d_sub D (pf_quantity p) (pf_quantity p) = 0"
      using grid_sub [OF assms(1) assms(3) qg] grid_sub [OF assms(1) qg qg] by simp_all
    with False lt s show ?thesis
      using assms(3) qg
      by (auto simp: q_def fill_reduce_def Let_def min_def current_signed_def on_grid_sub)
  qed
  obtain r where r: "snd (pos_apply_fill D sd qty price fee p) =
      pos_mark D (pf_last_mark q) (q\<lparr>pf_realised_pnl := r\<rparr>)"
    unfolding pos_apply_fill_def n Let_def q_def
    by (cases "same_or_zero ?c ?n"; cases "fill_reduce D sd qty price p") auto
  show ?thesis
    unfolding r using k
    by (auto simp: pos_inv_def pos_mark_unrealised is_flat_def current_signed_def)
qed

text \<open>A run of fills and marks on one position.\<close>

datatype pos_op = OpFill side dec dec dec | OpMark dec

fun pos_step :: "dlib \<Rightarrow> position \<Rightarrow> pos_op \<Rightarrow> position" where
  "pos_step D p (OpFill sd qty price fee) = snd (pos_apply_fill D sd qty price fee p)"
| "pos_step D p (OpMark m) = pos_mark D m p"

fun op_qty :: "pos_op \<Rightarrow> dec" where
  "op_qty (OpFill sd qty price fee) = signed sd qty"
| "op_qty (OpMark m) = 0"

fun op_ok :: "rat \<Rightarrow> pos_op \<Rightarrow> bool" where
  "op_ok u (OpFill sd qty price fee) \<longleftrightarrow> 0 < qty \<and> on_grid u qty"
| "op_ok u (OpMark m) \<longleftrightarrow> True"

lemma pos_step_nets:
  assumes "grid D u" "pos_inv u p" "op_ok u x"
  shows "pos_inv u (pos_step D p x) \<and> current_signed (pos_step D p x) = current_signed p + op_qty x"
  using assms fill_nets by (cases x) (auto simp: pos_mark_inv)

text \<open>
  C7. A position nets its fills. After any sequence of fills of positive quantities on a smallest
  step, and marks, from a flat position, the signed quantity is the sum of the signed fills,
  through every addition, reduction, close and flip; the quantity is never negative, the side is
  absent exactly when it is zero, and a position without a side has no average entry and no
  unrealised result.
\<close>

theorem position_nets_fills:
  assumes "grid D u" and "\<forall>x \<in> set ops. op_ok u x"
  shows "current_signed (foldl (pos_step D) (pos_flat symbol) ops) = sum_list (map op_qty ops) \<and>
    pos_inv u (foldl (pos_step D) (pos_flat symbol) ops)"
proof -
  have "current_signed (foldl (pos_step D) p ops) = current_signed p + sum_list (map op_qty ops) \<and>
      pos_inv u (foldl (pos_step D) p ops)" if "pos_inv u p" for p
    using that assms(2)
  proof (induction ops arbitrary: p)
    case (Cons x ops)
    with pos_step_nets [OF assms(1), of p x] show ?case by simp
  qed simp
  from this [of "pos_flat symbol"] show ?thesis
    by (simp add: pos_inv_def pos_flat_def current_signed_def)
qed


subsection \<open>Runs of the engine\<close>

datatype pe_op =
    PFill string side dec dec dec
  | PMark string dec
  | PMarkAll "(string, dec) hmap"
  | PRoll timestamp
  | PKill bool

fun pe_step :: "dlib \<Rightarrow> (timestamp \<Rightarrow> int) \<Rightarrow> portfolio \<Rightarrow> pe_op \<Rightarrow> portfolio" where
  "pe_step D date e (PFill symb sd qty price fee) = portfolio_apply_fill D symb sd qty price fee e"
| "pe_step D date e (PMark symb x) = portfolio_mark D symb x e"
| "pe_step D date e (PMarkAll ps) = portfolio_mark_all D ps e"
| "pe_step D date e (PRoll now) = rollover_day D date now e"
| "pe_step D date e (PKill on) = set_kill_switch on e"

text \<open>The same run seen from one instrument.\<close>

fun view_step :: "dlib \<Rightarrow> string \<Rightarrow> position option \<Rightarrow> pe_op \<Rightarrow> position option" where
  "view_step D y v (PFill symb sd qty price fee) = (if symb = y
     then Some (snd (pos_apply_fill D sd qty price fee (case v of Some p \<Rightarrow> p | None \<Rightarrow> pos_flat y))) else v)"
| "view_step D y v (PMark symb x) = (if symb = y then map_option (pos_mark D x) v else v)"
| "view_step D y v (PMarkAll ps) = (case hm_get ps y of Some x \<Rightarrow> map_option (pos_mark D x) v | None \<Rightarrow> v)"
| "view_step D y v (PRoll now) = v"
| "view_step D y v (PKill on) = v"

fun pe_flow :: "pe_op \<Rightarrow> dec" where
  "pe_flow (PFill symb sd qty price fee) = - signed sd (qty * price) - fee"
| "pe_flow _ = 0"

fun pe_ok :: "pe_op \<Rightarrow> bool" where
  "pe_ok (PMarkAll ps) = hm_wf ps"
| "pe_ok _ = True"

lemma refresh_peak_simps [simp]:
  "pe_positions (refresh_peak D e) = pe_positions e" "pe_cash (refresh_peak D e) = pe_cash e"
  "pe_day_anchor (refresh_peak D e) = pe_day_anchor e"
  "pe_kill_switch_manual (refresh_peak D e) = pe_kill_switch_manual e"
  "pe_peak_equity (refresh_peak D e) = max (pe_peak_equity e) (equity D e)"
  by (simp_all add: refresh_peak_def Let_def max_def)

lemma equity_refresh [simp]: "equity D (refresh_peak D e) = equity D e"
  by (simp add: equity_def)

lemma mark_one_simps [simp]:
  "pe_cash (mark_one D y x e) = pe_cash e" "pe_peak_equity (mark_one D y x e) = pe_peak_equity e"
  "portfolio_position (mark_one D y x e) y' =
     (if y' = y then map_option (pos_mark D x) (portfolio_position e y) else portfolio_position e y')"
  by (auto simp: mark_one_def portfolio_position_def split: option.splits)

lemma mark_many_simps:
  "pe_cash (foldl (\<lambda>e (symb, x). mark_one D symb x e) e ps) = pe_cash e"
  "pe_peak_equity (foldl (\<lambda>e (symb, x). mark_one D symb x e) e ps) = pe_peak_equity e"
  by (induction ps arbitrary: e) auto

lemma mark_many_position:
  "distinct (map fst ps) \<Longrightarrow>
   portfolio_position (foldl (\<lambda>e (symb, x). mark_one D symb x e) e ps) y =
     (case map_of ps y of Some x \<Rightarrow> map_option (pos_mark D x) (portfolio_position e y)
      | None \<Rightarrow> portfolio_position e y)"
proof (induction ps arbitrary: e)
  case (Cons a ps)
  obtain symb x where a: "a = (symb, x)" by fastforce
  show ?case
  proof (cases "symb = y")
    case True
    then have "map_of ps y = None" using Cons.prems by (simp add: a map_of_eq_None_iff)
    then show ?thesis using Cons True by (simp add: a)
  next
    case False
    then show ?thesis using Cons by (simp add: a cong: option.case_cong)
  qed
qed simp

lemma portfolio_position_refresh [simp]:
  "portfolio_position (refresh_peak D e) y = portfolio_position e y"
  by (simp add: portfolio_position_def)

lemma pe_step_view:
  "pe_ok x \<Longrightarrow> portfolio_position (pe_step D date e x) y = view_step D y (portfolio_position e y) x"
proof (cases x)
  case (PFill symb sd qty price fee)
  then show ?thesis
    by (auto simp: portfolio_apply_fill_def portfolio_position_def Let_def split: prod.splits)
next
  case (PMarkAll ps)
  assume "pe_ok x"
  with PMarkAll show ?thesis
    by (simp add: portfolio_mark_all_def mark_many_position hm_wf_def hm_get_def)
next
  case (PMark symb m)
  then show ?thesis by (simp add: portfolio_mark_def)
qed (auto simp: rollover_day_def set_kill_switch_def portfolio_position_def)

lemma pe_step_peak:
  "equity D e \<le> pe_peak_equity e \<Longrightarrow>
     equity D (pe_step D date e x) \<le> pe_peak_equity (pe_step D date e x) \<and>
     pe_peak_equity e \<le> pe_peak_equity (pe_step D date e x)"
proof (cases x)
  case (PFill symb sd qty price fee)
  then show ?thesis by (simp add: portfolio_apply_fill_def Let_def split: prod.splits)
next
  case (PMark symb m)
  then show ?thesis by (simp add: portfolio_mark_def)
next
  case (PMarkAll ps)
  then show ?thesis by (simp add: portfolio_mark_all_def mark_many_simps)
qed (simp_all add: rollover_day_def set_kill_switch_def equity_def)

lemma pe_step_cash:
  "exact D \<Longrightarrow> pe_cash (pe_step D date e x) = pe_cash e + pe_flow x"
proof (cases x)
  case (PFill symb sd qty price fee)
  assume "exact D"
  with PFill show ?thesis
    by (cases sd) (simp_all add: portfolio_apply_fill_def exact_simps Let_def split: prod.splits)
qed (simp_all add: portfolio_mark_def portfolio_mark_all_def mark_many_simps rollover_day_def
    set_kill_switch_def)

lemma pe_run_view:
  "\<forall>x \<in> set xs. pe_ok x \<Longrightarrow>
   portfolio_position (foldl (pe_step D date) e xs) y = foldl (view_step D y) (portfolio_position e y) xs"
  by (induction xs arbitrary: e) (simp_all add: pe_step_view)

lemma pe_run_peak:
  "equity D e \<le> pe_peak_equity e \<Longrightarrow>
   equity D (foldl (pe_step D date) e xs) \<le> pe_peak_equity (foldl (pe_step D date) e xs) \<and>
   pe_peak_equity e \<le> pe_peak_equity (foldl (pe_step D date) e xs)"
proof (induction xs arbitrary: e)
  case (Cons x xs)
  then show ?case using pe_step_peak [OF Cons.prems, of date x] Cons.IH [of "pe_step D date e x"] by force
qed simp

lemma equity_new: "d_rnd D start = start \<Longrightarrow> equity D (portfolio_new start now) = start"
  by (simp add: equity_def portfolio_new_def hm_values_def hm_empty_def d_sum_def d_add_def)

text \<open>The net quantity of one instrument over a run of fills and marks.\<close>

fun fill_qty :: "string \<Rightarrow> pe_op \<Rightarrow> dec" where
  "fill_qty y (PFill symb sd qty price fee) = (if symb = y then signed sd qty else 0)"
| "fill_qty y _ = 0"

fun fill_or_mark :: "rat \<Rightarrow> pe_op \<Rightarrow> bool" where
  "fill_or_mark u (PFill symb sd qty price fee) \<longleftrightarrow> 0 < qty \<and> on_grid u qty"
| "fill_or_mark u (PMark symb x) \<longleftrightarrow> True"
| "fill_or_mark u _ \<longleftrightarrow> False"

definition net_quantity :: "position option \<Rightarrow> dec" where
  "net_quantity v = (case v of Some p \<Rightarrow> current_signed p | None \<Rightarrow> 0)"

definition view_inv :: "rat \<Rightarrow> position option \<Rightarrow> bool" where
  "view_inv u v \<longleftrightarrow> (\<forall>p. v = Some p \<longrightarrow> pos_inv u p)"

lemma view_step_nets:
  assumes "grid D u" "fill_or_mark u x" "view_inv u v"
  shows "view_inv u (view_step D y v x) \<and> net_quantity (view_step D y v x) = net_quantity v + fill_qty y x"
proof (cases x)
  case (PFill symb sd qty price fee)
  define p where "p = (case v of Some p \<Rightarrow> p | None \<Rightarrow> pos_flat y)"
  have "pos_inv u p \<and> current_signed p = net_quantity v"
    using assms(3) by (auto simp: p_def view_inv_def net_quantity_def pos_inv_def pos_flat_def
        current_signed_def split: option.splits)
  then show ?thesis
    using pos_step_nets [OF assms(1), of p "OpFill sd qty price fee"] assms(2,3) PFill
    by (auto simp: p_def [symmetric] view_inv_def net_quantity_def)
next
  case (PMark symb m)
  then show ?thesis using assms(3)
    by (cases v) (auto simp: view_inv_def net_quantity_def pos_mark_inv)
qed (use assms in auto)

lemma view_run_nets:
  assumes "grid D u" "\<forall>x \<in> set xs. fill_or_mark u x" "view_inv u v"
  shows "view_inv u (foldl (view_step D y) v xs) \<and>
    net_quantity (foldl (view_step D y) v xs) = net_quantity v + sum_list (map (fill_qty y) xs)"
  using assms(2,3)
proof (induction xs arbitrary: v)
  case (Cons x xs)
  then show ?case using view_step_nets [OF assms(1), of x v y] by simp
qed simp

text \<open>
  C19. The engine refines one position per instrument. After any run of fills, marks, bulk marks,
  rollovers and kill switch changes, the position of an instrument is what that instrument alone
  sees of the run; the peak is at least the equity at every point and never falls; and with exact
  arithmetic the cash is the starting equity less the notional bought, plus the notional sold,
  less the fees.
\<close>

theorem portfolio_refines_positions:
  assumes "d_rnd D start = start" and "\<forall>x \<in> set ops. pe_ok x"
  shows "portfolio_position (foldl (pe_step D date) (portfolio_new start now) ops) y
        = foldl (view_step D y) None ops \<and>
    equity D (foldl (pe_step D date) (portfolio_new start now) ops)
        \<le> pe_peak_equity (foldl (pe_step D date) (portfolio_new start now) ops) \<and>
    pe_peak_equity (foldl (pe_step D date) (portfolio_new start now) (take n ops))
        \<le> pe_peak_equity (foldl (pe_step D date) (portfolio_new start now) ops) \<and>
    (exact D \<longrightarrow> pe_cash (foldl (pe_step D date) (portfolio_new start now) ops)
        = start + sum_list (map pe_flow ops))"
proof -
  let ?run = "\<lambda>e. foldl (pe_step D date) e"
  let ?e = "portfolio_new start now"
  have start: "equity D ?e \<le> pe_peak_equity ?e"
    using assms(1) by (simp add: equity_new, simp add: portfolio_new_def)
  have "?run ?e ops = ?run (?run ?e (take n ops)) (drop n ops)"
    by (simp flip: foldl_append)
  then have "pe_peak_equity (?run ?e (take n ops)) \<le> pe_peak_equity (?run ?e ops)"
    using pe_run_peak [of D "?run ?e (take n ops)" date "drop n ops"] pe_run_peak [OF start, of date "take n ops"]
    by simp
  moreover have "pe_cash (?run e xs) = pe_cash e + sum_list (map pe_flow xs)" if "exact D" for e xs
    using that by (induction xs arbitrary: e) (simp_all add: pe_step_cash)
  ultimately show ?thesis
    using pe_run_view [OF assms(2)] pe_run_peak [OF start] by (simp add: portfolio_new_def portfolio_position_def)
qed

subsection \<open>Equity\<close>

lemma opening_equity:
  assumes "exact D" and "portfolio_position e y = None" and "0 < qty"
  shows "equity D (portfolio_apply_fill D y sd qty price fee e) = equity D e - fee - signed sd qty * price"
    and "mark \<noteq> 0 \<Longrightarrow> equity D (portfolio_mark D y mark (portfolio_apply_fill D y sd qty price fee e)) =
      equity D e - fee + signed sd qty * (mark - price) - signed sd qty * price"
proof -
  note ex = exact_simps [OF assms(1)] exact_sum [OF assms(1)]
  have g: "hm_get (pe_positions e) y = None" using assms(2) by (simp add: portfolio_position_def)
  obtain r p where p: "pos_apply_fill D sd qty price fee (pos_flat y) = (r, p)" by fastforce
  have f: "pf_side p = Some sd \<and> pf_quantity p = qty \<and> pf_avg_entry p = price \<and> pf_unrealised_pnl p = 0"
    using p assms(3)
    by (auto simp: pos_apply_fill_def pos_flat_def current_signed_def ex same_or_zero_def Let_def
        fill_add_def pos_mark_unrealised)
  define e1 where "e1 = portfolio_apply_fill D y sd qty price fee e"
  have pos: "pe_positions e1 = hm_insert y p (pe_positions e)"
    and cash: "pe_cash e1 = pe_cash e - signed sd (qty * price) - fee"
    using p by (cases sd; simp add: e1_def portfolio_apply_fill_def g Let_def ex)+
  show "equity D (portfolio_apply_fill D y sd qty price fee e) = equity D e - fee - signed sd qty * price"
    unfolding e1_def [symmetric] by (cases sd) (simp_all add: equity_def ex pos cash hm_sum_insert g f)
  assume m: "mark \<noteq> 0"
  define e2 where "e2 = portfolio_mark D y mark e1"
  have pos2: "pe_positions e2 = hm_insert y (pos_mark D mark p) (pe_positions e1)"
    and cash2: "pe_cash e2 = pe_cash e1"
    by (simp_all add: e2_def portfolio_mark_def mark_one_def pos)
  have u: "pf_unrealised_pnl (pos_mark D mark p) = signed sd qty * (mark - price)"
    using f assms(3) m by (cases sd) (simp_all add: pos_mark_unrealised is_flat_def ex algebra_simps)
  have "equity D e2 = equity D e - fee + signed sd qty * (mark - price) - signed sd qty * price"
    by (cases sd) (simp_all add: equity_def ex pos2 pos cash2 cash hm_sum_insert g f u)
  then show "equity D (portfolio_mark D y mark (portfolio_apply_fill D y sd qty price fee e)) =
      equity D e - fee + signed sd qty * (mark - price) - signed sd qty * price"
    by (simp add: e2_def e1_def)
qed


subsection \<open>Witnesses\<close>

theorem position_nets_fills_witness:
  "current_signed (foldl (pos_step lib28) (pos_flat ''X'') [OpFill Long 3 100 0, OpFill Short 5 90 1]) = - 2"
proof -
  have "\<forall>x \<in> set [OpFill Long 3 100 0, OpFill Short 5 90 1]. op_ok 1 x"
    using on_grid_one [of 3] on_grid_one [of 5] by simp
  then show ?thesis using position_nets_fills [OF grid_lib28_one, of "[OpFill Long 3 100 0, OpFill Short 5 90 1]" "''X''"]
    by simp
qed


theorem portfolio_refines_positions_witness:
  "pe_cash (foldl (pe_step exact_lib (\<lambda>t. t div 86400)) (portfolio_new 1000 0)
     [PFill ''X'' Long 2 100 1, PMark ''X'' 110]) = 799"
  using portfolio_refines_positions [of exact_lib 1000 "[PFill ''X'' Long 2 100 1, PMark ''X'' 110]"]
  by simp


end
