(* ===== verification/Pivots.thy ===== *)
theory Pivots
  imports Domain
begin

text \<open>
  \<open>qtss-pivots\<close> and \<open>qtss-domain/src/v2/pivot.rs\<close>: the zigzag of a window of bars (\<open>zigzag.rs\<close>), the
  five levels run side by side (\<open>engine.rs\<close>, \<open>config.rs\<close>), the average true range (\<open>atr.rs\<close>) and
  the pivot tree the detectors read. A bar index is a natural number, the wrap of \<open>u64\<close> is out of
  reach.
\<close>

subsection \<open>Data\<close>

datatype pivot_kind = High | Low

datatype swing_type = HH | LH | HL | LL

datatype pivot_level = L0 | L1 | L2 | L3 | L4

definition all_levels :: "pivot_level list" where
  "all_levels = [L0, L1, L2, L3, L4]"

fun level_index :: "pivot_level \<Rightarrow> nat" where
  "level_index L0 = 0"
| "level_index L1 = 1"
| "level_index L2 = 2"
| "level_index L3 = 3"
| "level_index L4 = 4"

record pivot =
  pv_bar_index :: nat
  pv_time :: timestamp
  pv_price :: dec
  pv_kind :: pivot_kind
  pv_level :: pivot_level
  pv_prominence :: dec
  pv_volume :: dec
  pv_swing_type :: "swing_type option"

record sample =
  sa_bar_index :: nat
  sa_time :: timestamp
  sa_high :: dec
  sa_low :: dec
  sa_volume :: dec

record confirmed_pivot =
  cp_bar_index :: nat
  cp_time :: timestamp
  cp_price :: dec
  cp_kind :: pivot_kind
  cp_prominence :: dec
  cp_volume :: dec
  cp_direction :: int

subsection \<open>The zigzag\<close>

record zigzag =
  zz_length :: nat
  zz_window :: "sample list"
  zz_dir :: int
  zz_pivots :: "confirmed_pivot list"

definition zz_with_length :: "nat \<Rightarrow> zigzag" where
  "zz_with_length len = \<lparr>zz_length = max len 1, zz_window = [], zz_dir = 0, zz_pivots = []\<rparr>"

text \<open>Whether a price of a kind is more extreme than another.\<close>

fun more_extreme :: "pivot_kind \<Rightarrow> dec \<Rightarrow> dec \<Rightarrow> bool" where
  "more_extreme High value price \<longleftrightarrow> price < value"
| "more_extreme Low value price \<longleftrightarrow> value < price"

text \<open>\<open>push_back\<close>, then \<open>pop_front\<close> while the window is too long.\<close>

definition slide :: "nat \<Rightarrow> sample list \<Rightarrow> sample \<Rightarrow> sample list" where
  "slide len w s = (let w' = w @ [s] in drop (length w' - len) w')"

text \<open>Steps A and B of \<open>push\<close>: what is emitted for a signal of a kind.\<close>

definition zz_emit ::
  "dlib \<Rightarrow> pivot_kind \<Rightarrow> int \<Rightarrow> dec \<Rightarrow> sample \<Rightarrow> zigzag \<Rightarrow> zigzag \<times> confirmed_pivot option"
where
  "zz_emit D kind new_dir value s z = (let
       same = (new_dir = zz_dir z \<and> zz_pivots z \<noteq> []) in
     if same \<and> \<not> more_extreme kind value (cp_price (last (zz_pivots z)))
     then (z\<lparr>zz_dir := new_dir\<rparr>, None)
     else let
       ps = (if same then butlast (zz_pivots z) else zz_pivots z);
       strong = (2 \<le> length ps \<and> more_extreme kind value (cp_price (ps ! (length ps - 2))));
       p = \<lparr>cp_bar_index = sa_bar_index s, cp_time = sa_time s, cp_price = value, cp_kind = kind,
         cp_prominence = (if ps = [] then 0 else \<bar>d_sub D value (cp_price (last ps))\<bar>),
         cp_volume = sa_volume s, cp_direction = (if strong then new_dir * 2 else new_dir)\<rparr>
     in (z\<lparr>zz_pivots := ps @ [p], zz_dir := new_dir\<rparr>, Some p))"

definition zz_push :: "dlib \<Rightarrow> sample \<Rightarrow> zigzag \<Rightarrow> zigzag \<times> confirmed_pivot option" where
  "zz_push D s z0 = (let z = z0\<lparr>zz_window := slide (zz_length z0) (zz_window z0) s\<rparr> in
     if length (zz_window z) < zz_length z then (z, None)
     else let
       rh = Max (set (map sa_high (zz_window z)));
       rl = Min (set (map sa_low (zz_window z)));
       high_hit = (rh \<le> sa_high s);
       low_hit = (sa_low s \<le> rl);
       phigh = (high_hit \<and> \<not> low_hit);
       plow = (low_hit \<and> \<not> high_hit)
     in if phigh then zz_emit D High 1 (sa_high s) s z
        else if plow then zz_emit D Low (- 1) (sa_low s) s z
        else (z, None))"

definition compute_pivots :: "dlib \<Rightarrow> sample list \<Rightarrow> nat \<Rightarrow> confirmed_pivot list" where
  "compute_pivots D bars len = zz_pivots (foldl (\<lambda>z s. fst (zz_push D s z)) (zz_with_length len) bars)"

subsection \<open>The prominence filter\<close>

text \<open>The inner loop: the new list and whether the candidate was absorbed.\<close>

function absorb ::
  "dlib \<Rightarrow> f64 \<Rightarrow> confirmed_pivot \<Rightarrow> confirmed_pivot list \<Rightarrow> confirmed_pivot list \<times> bool"
where
  "absorb D min_pct cand out = (if out = [] then (out, False)
     else let lst = last out;
         base = f64_max (f64_abs (decimal_to_f64 D (cp_price lst))) (round64 (1 / 10 ^ 9));
         delta = f64_abs (decimal_to_f64 D (d_sub D (cp_price cand) (cp_price lst)))
       in if f64_ge (f64_div delta base) min_pct then (out, False)
          else let out' = butlast out in
            if out' = [] then (out', True)
            else let prev = last out' in
              if cp_kind prev = cp_kind cand
              then (if more_extreme (cp_kind cand) (cp_price cand) (cp_price prev)
                    then butlast out' @ [cand] else out', True)
              else absorb D min_pct cand out')"
  by pat_completeness auto
termination by (relation "measure (\<lambda>(D, m, c, out). length out)") auto

declare absorb.simps [simp del]

definition filter_step ::
  "dlib \<Rightarrow> f64 \<Rightarrow> confirmed_pivot list \<Rightarrow> confirmed_pivot \<Rightarrow> confirmed_pivot list"
where
  "filter_step D min_pct out cand = (let (out', absorbed) = absorb D min_pct cand out in
     if absorbed then out' else out' @ [cand])"

definition filter_prominence :: "dlib \<Rightarrow> confirmed_pivot list \<Rightarrow> f64 \<Rightarrow> confirmed_pivot list" where
  "filter_prominence D ps min_pct = (if f64_le min_pct (Fin 0) \<or> length ps < 2 then ps
     else foldl (filter_step D min_pct) [] ps)"

subsection \<open>The engine\<close>

datatype pivot_error = PivotInvalidConfig string | NonMonotonic nat

definition pivot_config_defaults :: "nat list" where
  "pivot_config_defaults = [3, 5, 8, 13, 21]"

text \<open>\<open>validate\<close> over the five lengths: the first zero, then the first that does not grow.\<close>

definition pivot_config_validate :: "nat list \<Rightarrow> pivot_error option" where
  "pivot_config_validate ls =
     (case List.find (\<lambda>i. ls ! i = 0) [0..<length ls] of
        Some i \<Rightarrow> Some (PivotInvalidConfig (''lengths['' @ show_nat i @ ''] must be >= 1''))
      | None \<Rightarrow> (case List.find (\<lambda>i. ls ! i \<le> ls ! (i - 1)) [1..<length ls] of
          Some i \<Rightarrow> Some (PivotInvalidConfig
            (''lengths must be strictly increasing (level '' @ show_nat i @ '')''))
        | None \<Rightarrow> None))"

record pivot_engine =
  pg_bar_index :: nat
  pg_last_time :: "timestamp option"
  pg_zigzags :: "zigzag list"
  pg_confirmed :: "pivot list list"

record new_pivot =
  np_level :: pivot_level
  np_pivot :: pivot

definition pivot_engine_new :: "nat list \<Rightarrow> pivot_error + pivot_engine" where
  "pivot_engine_new ls = (case pivot_config_validate ls of
     Some e \<Rightarrow> Err e
   | None \<Rightarrow> Ok \<lparr>pg_bar_index = 0, pg_last_time = None, pg_zigzags = map zz_with_length ls,
       pg_confirmed = replicate 5 []\<rparr>)"

definition build_pivot :: "confirmed_pivot \<Rightarrow> pivot_level \<Rightarrow> pivot" where
  "build_pivot cp lvl = \<lparr>pv_bar_index = cp_bar_index cp, pv_time = cp_time cp, pv_price = cp_price cp,
     pv_kind = cp_kind cp, pv_level = lvl, pv_prominence = cp_prominence cp,
     pv_volume = cp_volume cp, pv_swing_type = None\<rparr>"

definition classify_swing :: "pivot list \<Rightarrow> pivot \<Rightarrow> swing_type option" where
  "classify_swing confirmed new = (case List.find (\<lambda>p. pv_kind p = pv_kind new) (rev confirmed) of
     None \<Rightarrow> None
   | Some prev \<Rightarrow> (case pv_kind new of
       High \<Rightarrow> if pv_price prev \<le> pv_price new then Some HH else Some LH
     | Low \<Rightarrow> if pv_price new \<le> pv_price prev then Some LL else Some HL))"

text \<open>One level of the loop of \<open>on_bar\<close>.\<close>

definition level_push ::
  "dlib \<Rightarrow> sample \<Rightarrow> pivot_level \<Rightarrow> zigzag \<Rightarrow> pivot list \<Rightarrow> zigzag \<times> pivot list \<times> new_pivot list"
where
  "level_push D s lvl z conf = (case zz_push D s z of
     (z', None) \<Rightarrow> (z', conf, [])
   | (z', Some cp) \<Rightarrow>
       (let p0 = build_pivot cp lvl in
        if conf \<noteq> [] \<and> pv_kind (last conf) = cp_kind cp
        then (let keep_new = (case cp_kind cp of
                  High \<Rightarrow> pv_price (last conf) \<le> pv_price p0
                | Low \<Rightarrow> pv_price p0 \<le> pv_price (last conf)) in
          if \<not> keep_new then (z', conf, [])
          else let p = p0\<lparr>pv_swing_type := classify_swing (butlast conf) p0\<rparr> in
            (z', conf[length conf - 1 := p], [\<lparr>np_level = lvl, np_pivot = p\<rparr>]))
        else let p = p0\<lparr>pv_swing_type := classify_swing conf p0\<rparr> in
          (z', conf @ [p], [\<lparr>np_level = lvl, np_pivot = p\<rparr>])))"

fun levels_push ::
  "dlib \<Rightarrow> sample \<Rightarrow> pivot_level list \<Rightarrow> zigzag list \<Rightarrow> pivot list list
    \<Rightarrow> zigzag list \<times> pivot list list \<times> new_pivot list"
where
  "levels_push D s (l # ls) (z # zs) (c # cs) = (let (z', c', n) = level_push D s l z c;
       (zs', cs', ns) = levels_push D s ls zs cs in (z' # zs', c' # cs', n @ ns))"
| "levels_push D s ls zs cs = (zs, cs, [])"

definition on_bar :: "dlib \<Rightarrow> bar \<Rightarrow> pivot_engine \<Rightarrow> (pivot_error + new_pivot list) \<times> pivot_engine" where
  "on_bar D b e0 = (let idx = pg_bar_index e0; e = e0\<lparr>pg_bar_index := idx + 1\<rparr> in
     if (case pg_last_time e of Some prev \<Rightarrow> bar_open_time b < prev | None \<Rightarrow> False)
     then (Err (NonMonotonic idx), e)
     else let s = \<lparr>sa_bar_index = idx, sa_time = bar_open_time b, sa_high = bar_high b,
         sa_low = bar_low b, sa_volume = bar_volume b\<rparr>;
       (zs, cs, emitted) = levels_push D s all_levels (pg_zigzags e) (pg_confirmed e)
     in (Ok emitted, e\<lparr>pg_last_time := Some (bar_open_time b), pg_zigzags := zs, pg_confirmed := cs\<rparr>))"

text \<open>The tree is the list of its five levels.\<close>

type_synonym pivot_tree = "pivot list list"

definition pivot_snapshot :: "pivot_engine \<Rightarrow> pivot_tree" where
  "pivot_snapshot e = pg_confirmed e"

definition at_level :: "pivot_tree \<Rightarrow> pivot_level \<Rightarrow> pivot list" where
  "at_level t l = t ! level_index l"

definition check_subset_invariant :: "pivot_tree \<Rightarrow> (pivot_level \<times> pivot_level) option" where
  "check_subset_invariant t = List.find (\<lambda>(lo, hi).
     \<exists>p \<in> set (at_level t hi). pv_bar_index p \<notin> pv_bar_index ` set (at_level t lo))
     [(L0, L1), (L1, L2), (L2, L3)]"

subsection \<open>Changes of character and breaks of structure\<close>

text \<open>The previous pivot of a kind before position \<open>i\<close>.\<close>

definition prev_of_kind :: "pivot list \<Rightarrow> nat \<Rightarrow> pivot_kind \<Rightarrow> pivot option" where
  "prev_of_kind ps i k = List.find (\<lambda>p. pv_kind p = k) (rev (take i ps))"

definition prev_swing_is :: "pivot list \<Rightarrow> nat \<Rightarrow> pivot_kind \<Rightarrow> swing_type \<Rightarrow> bool" where
  "prev_swing_is ps i k st \<longleftrightarrow> (case prev_of_kind ps i k of
     Some p \<Rightarrow> pv_swing_type p = Some st | None \<Rightarrow> False)"

definition choch_at :: "pivot list \<Rightarrow> nat \<Rightarrow> (nat \<times> swing_type) option" where
  "choch_at ps i = (case pv_swing_type (ps ! i) of
     Some LH \<Rightarrow> if prev_swing_is ps i High HH then Some (i, LH) else None
   | Some HL \<Rightarrow> if prev_swing_is ps i Low LL then Some (i, HL) else None
   | _ \<Rightarrow> None)"

definition detect_choch :: "pivot_tree \<Rightarrow> pivot_level \<Rightarrow> (nat \<times> swing_type) option" where
  "detect_choch t l = (let ps = at_level t l in
     if length ps < 4 then None else first_some (choch_at ps) (rev [1..<length ps]))"

definition bos_at :: "pivot list \<Rightarrow> nat \<Rightarrow> (nat \<times> swing_type) option" where
  "bos_at ps i = (case pv_swing_type (ps ! i) of
     Some HH \<Rightarrow> if prev_swing_is ps i High HH then Some (i, HH) else None
   | Some LL \<Rightarrow> if prev_swing_is ps i Low LL then Some (i, LL) else None
   | _ \<Rightarrow> None)"

definition detect_bos :: "pivot_tree \<Rightarrow> pivot_level \<Rightarrow> (nat \<times> swing_type) option" where
  "detect_bos t l = (let ps = at_level t l in first_some (bos_at ps) (rev [1..<length ps]))"

subsection \<open>Average true range\<close>

record atr_state =
  at_period :: nat
  at_seen :: nat
  at_warmup_sum :: dec
  at_prev_close :: "dec option"
  at_current :: "dec option"

definition atr_new :: "nat \<Rightarrow> atr_state" where
  "atr_new period = \<lparr>at_period = period, at_seen = 0, at_warmup_sum = 0, at_prev_close = None,
     at_current = None\<rparr>"

definition max3 :: "dec \<Rightarrow> dec \<Rightarrow> dec \<Rightarrow> dec" where
  "max3 a b c = (let ab = (if b < a then a else b) in if c < ab then ab else c)"

definition true_range :: "dlib \<Rightarrow> atr_state \<Rightarrow> dec \<Rightarrow> dec \<Rightarrow> dec" where
  "true_range D a high low = (let hl = d_sub D high low in case at_prev_close a of
     None \<Rightarrow> hl
   | Some pc \<Rightarrow> max3 hl \<bar>d_sub D high pc\<bar> \<bar>d_sub D low pc\<bar>)"

text \<open>\<open>None\<close> is the panic of \<open>expect\<close>, which a period of zero reaches at the first bar.\<close>

definition atr_update :: "dlib \<Rightarrow> dec \<Rightarrow> dec \<Rightarrow> dec \<Rightarrow> atr_state \<Rightarrow> atr_state option" where
  "atr_update D high low close a0 = (let tr = true_range D a0 high low;
       a = a0\<lparr>at_prev_close := Some close, at_seen := at_seen a0 + 1\<rparr>;
       period_dec = of_nat (at_period a)
     in if at_seen a \<le> at_period a
     then let a1 = a\<lparr>at_warmup_sum := d_add D (at_warmup_sum a) tr\<rparr> in
       Some (if at_seen a1 = at_period a1
         then a1\<lparr>at_current := Some (d_div D (at_warmup_sum a1) period_dec)\<rparr> else a1)
     else (case at_current a of
         None \<Rightarrow> None
       | Some prev \<Rightarrow> Some (a\<lparr>at_current :=
           Some (d_div D (d_add D (d_mul D prev (d_sub D period_dec 1)) tr) period_dec)\<rparr>)))"

subsection \<open>What a zigzag is\<close>

fun kind_sign :: "pivot_kind \<Rightarrow> int" where
  "kind_sign High = 1"
| "kind_sign Low = - 1"

text \<open>A pivot is in order after the ones before it.\<close>

definition beats_previous :: "confirmed_pivot list \<Rightarrow> pivot_kind \<Rightarrow> dec \<Rightarrow> bool" where
  "beats_previous before kind value \<longleftrightarrow>
     2 \<le> length before \<and> more_extreme kind value (cp_price (before ! (length before - 2)))"

definition pivot_ok :: "dlib \<Rightarrow> confirmed_pivot list \<Rightarrow> confirmed_pivot \<Rightarrow> bool" where
  "pivot_ok D before p \<longleftrightarrow> (before \<noteq> [] \<longrightarrow> cp_kind (last before) \<noteq> cp_kind p) \<and>
     cp_direction p = kind_sign (cp_kind p) * (if beats_previous before (cp_kind p) (cp_price p) then 2 else 1) \<and>
     cp_prominence p = (if before = [] then 0 else \<bar>d_sub D (cp_price p) (cp_price (last before))\<bar>)"

definition all_ok :: "dlib \<Rightarrow> confirmed_pivot list \<Rightarrow> bool" where
  "all_ok D ps \<longleftrightarrow> (\<forall>k < length ps. pivot_ok D (take k ps) (ps ! k))"

lemma all_ok_Nil [simp]: "all_ok D []"
  by (simp add: all_ok_def)

lemma all_ok_snoc: "all_ok D (ps @ [p]) \<longleftrightarrow> all_ok D ps \<and> pivot_ok D ps p"
  by (auto simp: all_ok_def nth_append less_Suc_eq)

lemma all_ok_single [simp]: "all_ok D [p] \<longleftrightarrow> pivot_ok D [] p"
  using all_ok_snoc [of D "[]" p] by simp

lemma all_ok_butlast: "all_ok D ps \<Longrightarrow> all_ok D (butlast ps)"
  by (cases ps rule: rev_cases) (simp_all add: all_ok_snoc)

definition zz_inv :: "dlib \<Rightarrow> zigzag \<Rightarrow> bool" where
  "zz_inv D z \<longleftrightarrow> all_ok D (zz_pivots z) \<and>
     zz_dir z = (if zz_pivots z = [] then 0 else kind_sign (cp_kind (last (zz_pivots z)))) \<and>
     0 < zz_length z \<and> length (zz_window z) \<le> zz_length z"

lemma kind_sign_inj [simp]: "kind_sign a = kind_sign b \<longleftrightarrow> a = b"
  by (cases a; cases b) simp_all

lemma kind_sign_nonzero [simp]: "kind_sign a \<noteq> 0"
  by (cases a) simp_all

lemma last_butlast_kind:
  assumes "all_ok D ps" and "butlast ps \<noteq> []"
  shows "cp_kind (last (butlast ps)) \<noteq> cp_kind (last ps)"
proof (cases ps rule: rev_cases)
  case (snoc qs p)
  with assms show ?thesis by (simp add: all_ok_snoc pivot_ok_def)
qed (use assms in simp)

text \<open>What a bar does to the list: nothing, a replaced head, or a new pivot.\<close>

definition zz_turn :: "dlib \<Rightarrow> sample \<Rightarrow> zigzag \<Rightarrow> zigzag \<Rightarrow> confirmed_pivot option \<Rightarrow> bool" where
  "zz_turn D s z z' r \<longleftrightarrow>
    (r = None \<and> zz_pivots z' = zz_pivots z \<and> zz_dir z' = zz_dir z) \<or>
    (\<exists>p. r = Some p \<and> cp_bar_index p = sa_bar_index s \<and> zz_dir z' = kind_sign (cp_kind p) \<and>
      ((zz_pivots z \<noteq> [] \<and> cp_kind (last (zz_pivots z)) = cp_kind p \<and>
          more_extreme (cp_kind p) (cp_price p) (cp_price (last (zz_pivots z))) \<and>
          zz_pivots z' = butlast (zz_pivots z) @ [p] \<and> pivot_ok D (butlast (zz_pivots z)) p) \<or>
       ((zz_pivots z = [] \<or> cp_kind (last (zz_pivots z)) \<noteq> cp_kind p) \<and>
          zz_pivots z' = zz_pivots z @ [p] \<and> pivot_ok D (zz_pivots z) p)))"

lemma zz_emit_turn:
  assumes "zz_inv D z" and "zz_emit D k (kind_sign k) v s z = (z', r)"
  shows "zz_turn D s z z' r \<and> zz_window z' = zz_window z \<and> zz_length z' = zz_length z"
proof -
  have dir: "zz_dir z = (if zz_pivots z = [] then 0 else kind_sign (cp_kind (last (zz_pivots z))))"
    and ok: "all_ok D (zz_pivots z)"
    using assms(1) by (simp_all add: zz_inv_def)
  have sgn: "kind_sign k = zz_dir z \<and> zz_pivots z \<noteq> [] \<longleftrightarrow> zz_pivots z \<noteq> [] \<and> cp_kind (last (zz_pivots z)) = k"
    unfolding dir by auto
  define same where "same \<longleftrightarrow> zz_pivots z \<noteq> [] \<and> cp_kind (last (zz_pivots z)) = k"
  show ?thesis
  proof (cases "same \<and> \<not> more_extreme k v (cp_price (last (zz_pivots z)))")
    case True
    with assms(2) have "r = None" "z' = z\<lparr>zz_dir := kind_sign k\<rparr>"
      unfolding zz_emit_def Let_def sgn same_def [symmetric] by simp_all
    moreover have "zz_dir z = kind_sign k" using True dir by (simp add: same_def)
    ultimately show ?thesis by (simp add: zz_turn_def)
  next
    case False
    define ps where "ps = (if same then butlast (zz_pivots z) else zz_pivots z)"
    define p where "p = \<lparr>cp_bar_index = sa_bar_index s, cp_time = sa_time s, cp_price = v, cp_kind = k,
         cp_prominence = (if ps = [] then 0 else \<bar>d_sub D v (cp_price (last ps))\<bar>),
         cp_volume = sa_volume s,
         cp_direction = (if beats_previous ps k v then kind_sign k * 2 else kind_sign k)\<rparr>"
    have "zz_emit D k (kind_sign k) v s z = (z\<lparr>zz_pivots := ps @ [p], zz_dir := kind_sign k\<rparr>, Some p)"
      unfolding zz_emit_def Let_def sgn same_def [symmetric] if_not_P [OF False] ps_def p_def
        beats_previous_def by (rule refl)
    with assms(2) have r: "r = Some p" "z' = z\<lparr>zz_pivots := ps @ [p], zz_dir := kind_sign k\<rparr>"
      by simp_all
    have "ps \<noteq> [] \<longrightarrow> cp_kind (last ps) \<noteq> k"
      using last_butlast_kind [OF ok] by (auto simp: ps_def same_def)
    then have "pivot_ok D ps p" by (auto simp: pivot_ok_def p_def)
    moreover have "cp_kind p = k" "cp_price p = v" "cp_bar_index p = sa_bar_index s"
      by (simp_all add: p_def)
    ultimately show ?thesis
      using r False by (cases same) (auto simp: zz_turn_def ps_def same_def)
  qed
qed

lemma slide_length: "length w \<le> n \<Longrightarrow> 0 < n \<Longrightarrow> length (slide n w s) \<le> n"
  by (simp add: slide_def Let_def)

lemma zz_push_turn:
  assumes "zz_inv D z" and "zz_push D s z = (z', r)"
  shows "zz_turn D s z z' r" and "zz_inv D z'"
proof -
  define w where "w = z\<lparr>zz_window := slide (zz_length z) (zz_window z) s\<rparr>"
  have w: "zz_inv D w" "zz_pivots w = zz_pivots z" "zz_dir w = zz_dir z"
    using assms(1) slide_length [of "zz_window z" "zz_length z" s] by (simp_all add: zz_inv_def w_def)
  have "zz_push D s z = (w, None) \<or>
      zz_push D s z = zz_emit D High (kind_sign High) (sa_high s) s w \<or>
      zz_push D s z = zz_emit D Low (kind_sign Low) (sa_low s) s w"
    unfolding zz_push_def Let_def w_def [symmetric] by simp
  moreover have "zz_turn D s w w None" by (simp add: zz_turn_def)
  ultimately have "zz_turn D s w z' r \<and> zz_window z' = zz_window w \<and> zz_length z' = zz_length w"
    using zz_emit_turn [OF w(1), of High "sa_high s" s z' r] zz_emit_turn [OF w(1), of Low "sa_low s" s z' r]
      assms(2) by auto
  then show t: "zz_turn D s z z' r" and "zz_inv D z'"
    using w(1) all_ok_butlast [of D "zz_pivots z"]
    by (auto simp: zz_turn_def w zz_inv_def all_ok_snoc)
qed

lemma zz_run_inv: "zz_inv D (foldl (\<lambda>z s. fst (zz_push D s z)) (zz_with_length len) bars)"
proof -
  have "zz_inv D z \<Longrightarrow> zz_inv D (foldl (\<lambda>z s. fst (zz_push D s z)) z bars)" for z
    by (induction bars arbitrary: z) (simp_all add: zz_push_turn(2) [OF _ prod.collapse [symmetric]])
  then show ?thesis by (simp add: zz_inv_def zz_with_length_def max_def)
qed

text \<open>
  C0. The zigzag of any bars, for any window length. Highs and lows alternate; each pivot's
  direction is that of its kind, doubled exactly when there is an earlier pivot of its kind, two
  places before it, that it beats; and its prominence is its distance from the pivot before it,
  zero for the first.
\<close>

theorem zigzag_pivots_in_order:
  "let ps = compute_pivots D bars len in \<forall>k < length ps. pivot_ok D (take k ps) (ps ! k)"
  using zz_run_inv [of D len bars] by (simp add: compute_pivots_def zz_inv_def all_ok_def Let_def)

subsection \<open>The engine follows its zigzags\<close>

text \<open>The pivot a level keeps for a zigzag pivot: classified against the one two places before.\<close>

definition level_pivot :: "pivot_level \<Rightarrow> confirmed_pivot list \<Rightarrow> confirmed_pivot \<Rightarrow> pivot" where
  "level_pivot lvl before p = (build_pivot p lvl)\<lparr>pv_swing_type :=
     if length before < 2 then None
     else let q = cp_price (before ! (length before - 2)) in
       (case cp_kind p of High \<Rightarrow> if q \<le> cp_price p then Some HH else Some LH
        | Low \<Rightarrow> if cp_price p \<le> q then Some LL else Some HL)\<rparr>"

definition level_view :: "pivot_level \<Rightarrow> confirmed_pivot list \<Rightarrow> pivot list" where
  "level_view lvl ps = map (\<lambda>k. level_pivot lvl (take k ps) (ps ! k)) [0..<length ps]"

lemma level_view_snoc: "level_view lvl (ps @ [p]) = level_view lvl ps @ [level_pivot lvl ps p]"
  by (simp add: level_view_def nth_append)

lemma level_view_length [simp]: "length (level_view lvl ps) = length ps"
  by (simp add: level_view_def)

lemma level_view_Nil [simp]: "level_view lvl [] = []"
  by (simp add: level_view_def)

lemma level_view_empty [simp]: "level_view lvl ps = [] \<longleftrightarrow> ps = []"
  by (simp add: level_view_def)

lemma level_pivot_simps [simp]:
  "pv_kind (level_pivot lvl b p) = cp_kind p" "pv_price (level_pivot lvl b p) = cp_price p"
  "pv_bar_index (level_pivot lvl b p) = cp_bar_index p" "pv_level (level_pivot lvl b p) = lvl"
  by (simp_all add: level_pivot_def build_pivot_def)

lemma level_view_last: "ps \<noteq> [] \<Longrightarrow> last (level_view lvl ps) = level_pivot lvl (butlast ps) (last ps)"
  by (cases ps rule: rev_cases) (simp_all add: level_view_snoc)

lemma level_view_butlast: "butlast (level_view lvl ps) = level_view lvl (butlast ps)"
  by (cases ps rule: rev_cases) (simp_all add: level_view_snoc)

lemma classify_level_view:
  assumes "all_ok D ps" and "pivot_ok D ps p"
  shows "(build_pivot p lvl)\<lparr>pv_swing_type := classify_swing (level_view lvl ps) (build_pivot p lvl)\<rparr>
    = level_pivot lvl ps p"
proof (cases ps rule: rev_cases)
  case Nil
  then show ?thesis by (simp add: classify_swing_def level_pivot_def)
next
  case (snoc qs b)
  then have b: "cp_kind b \<noteq> cp_kind p" using assms(2) by (simp add: pivot_ok_def)
  show ?thesis
  proof (cases qs rule: rev_cases)
    case Nil
    then show ?thesis
      using b by (simp add: snoc classify_swing_def level_view_def level_pivot_def build_pivot_def)
  next
    case s2: (snoc rs a)
    have "pivot_ok D qs b" using assms(1) unfolding snoc all_ok_snoc by blast
    then have "cp_kind a \<noteq> cp_kind b" by (simp add: s2 pivot_ok_def)
    then have a: "cp_kind a = cp_kind p" using b by (cases "cp_kind a"; cases "cp_kind b"; cases "cp_kind p") simp_all
    have "classify_swing (level_view lvl ps) (build_pivot p lvl) = (case cp_kind p of
        High \<Rightarrow> if cp_price a \<le> cp_price p then Some HH else Some LH
      | Low \<Rightarrow> if cp_price p \<le> cp_price a then Some LL else Some HL)"
      using a b 
      unfolding snoc s2 level_view_snoc by (simp add: classify_swing_def build_pivot_def cong: pivot_kind.case_cong)
    then show ?thesis by (simp add: level_pivot_def snoc s2 nth_append Let_def)
  qed
qed

lemma level_push_view:
  assumes "zz_inv D z" and "level_push D s lvl z (level_view lvl (zz_pivots z)) = (z', c', n)"
  shows "z' = fst (zz_push D s z) \<and> c' = level_view lvl (zz_pivots z')"
proof -
  obtain y r where p: "zz_push D s z = (y, r)" by fastforce
  note t = zz_push_turn [OF assms(1) p]
  have ok: "all_ok D (zz_pivots z)" using assms(1) by (simp add: zz_inv_def)
  from t(1) consider "r = None" "zz_pivots y = zz_pivots z"
    | cp where "r = Some cp" "zz_pivots z \<noteq> []" "cp_kind (last (zz_pivots z)) = cp_kind cp"
        "more_extreme (cp_kind cp) (cp_price cp) (cp_price (last (zz_pivots z)))"
        "zz_pivots y = butlast (zz_pivots z) @ [cp]" "pivot_ok D (butlast (zz_pivots z)) cp"
    | cp where "r = Some cp" "zz_pivots z = [] \<or> cp_kind (last (zz_pivots z)) \<noteq> cp_kind cp"
        "zz_pivots y = zz_pivots z @ [cp]" "pivot_ok D (zz_pivots z) cp"
    by (auto simp: zz_turn_def)
  then show ?thesis
  proof cases
    case 1
    then show ?thesis using assms(2) p by (simp add: level_push_def)
  next
    case 2
    let ?v = "level_view lvl (zz_pivots z)"
    have upd: "?v[length (zz_pivots z) - Suc 0 := x] = butlast ?v @ [x]" for x
    proof -
      have "?v = butlast ?v @ [last ?v]" using 2(2) by simp
      then show ?thesis using 2(2)
        by (metis One_nat_def length_butlast level_view_length list_update_length)
    qed
    have keep: "case cp_kind cp of High \<Rightarrow> cp_price (last (zz_pivots z)) \<le> cp_price cp
        | Low \<Rightarrow> cp_price cp \<le> cp_price (last (zz_pivots z))"
      using 2(4) by (cases "cp_kind cp") auto
    have cl: "(build_pivot cp lvl)\<lparr>pv_swing_type := classify_swing (level_view lvl (butlast (zz_pivots z)))
        (build_pivot cp lvl)\<rparr> = level_pivot lvl (butlast (zz_pivots z)) cp"
      by (rule classify_level_view [OF all_ok_butlast [OF ok] 2(6)])
    have "pv_price (build_pivot cp lvl) = cp_price cp" by (simp add: build_pivot_def)
    with assms(2) p keep 2(5) show ?thesis
      by (cases "cp_kind cp") (simp_all add: level_push_def 2(1-3) Let_def level_view_last upd
          level_view_butlast cl level_view_snoc)
  next
    case 3
    let ?v = "level_view lvl (zz_pivots z)" and ?p = "level_pivot lvl (zz_pivots z) cp"
    have cond: "\<not> (?v \<noteq> [] \<and> pv_kind (last ?v) = cp_kind cp)"
      using 3(2) by (cases "zz_pivots z = []") (simp_all add: level_view_last)
    have "level_push D s lvl z ?v = (y, ?v @ [?p], [\<lparr>np_level = lvl, np_pivot = ?p\<rparr>])"
      unfolding level_push_def p 3(1) prod.case option.case Let_def if_not_P [OF cond]
        classify_level_view [OF ok 3(4)] by (rule refl)
    then show ?thesis using assms(2) p 3(3) by (auto simp: level_view_snoc)
  qed
qed

definition engine_follows :: "dlib \<Rightarrow> nat list \<Rightarrow> sample list \<Rightarrow> pivot_engine \<Rightarrow> bool" where
  "engine_follows D ls bars e \<longleftrightarrow>
     pg_zigzags e = map (\<lambda>len. foldl (\<lambda>z s. fst (zz_push D s z)) (zz_with_length len) bars) ls \<and>
     pg_confirmed e = map (\<lambda>(lvl, len). level_view lvl (compute_pivots D bars len)) (zip all_levels ls)"

lemma levels_push_view:
  assumes "\<forall>z \<in> set zs. zz_inv D z" and "length zs = length ls"
    and "levels_push D s ls zs (map (\<lambda>(lvl, z). level_view lvl (zz_pivots z)) (zip ls zs)) = (zs', cs', n)"
  shows "zs' = map (\<lambda>z. fst (zz_push D s z)) zs \<and>
    cs' = map (\<lambda>(lvl, z). level_view lvl (zz_pivots z)) (zip ls zs')"
  using assms
proof (induction ls arbitrary: zs zs' cs' n)
  case Nil
  then show ?case by simp
next
  case (Cons l ls)
  then obtain z zs0 where zs: "zs = z # zs0" by (cases zs) auto
  obtain z1 c1 n1 where 1: "level_push D s l z (level_view l (zz_pivots z)) = (z1, c1, n1)"
    using prod_cases3 by blast
  obtain zs1 cs1 ns where 2: "levels_push D s ls zs0
      (map (\<lambda>(lvl, z). level_view lvl (zz_pivots z)) (zip ls zs0)) = (zs1, cs1, ns)"
    using prod_cases3 by blast
  have "zz_inv D z" using Cons.prems(1) by (simp add: zs)
  from level_push_view [OF this 1] Cons.IH [OF _ _ 2] Cons.prems show ?case
    by (auto simp: zs 1 2)
qed

lemma compute_pivots_snoc:
  "foldl (\<lambda>z s. fst (zz_push D s z)) z (bars @ [b]) =
     fst (zz_push D b (foldl (\<lambda>z s. fst (zz_push D s z)) z bars))"
  by simp

text \<open>A run of the engine: the samples of the bars it accepted so far.\<close>

fun engine_run :: "dlib \<Rightarrow> bar list \<Rightarrow> pivot_engine \<times> sample list \<Rightarrow> pivot_engine \<times> sample list" where
  "engine_run D [] (e, acc) = (e, acc)"
| "engine_run D (b # bs) (e, acc) = (case on_bar D b e of
     (Inl err, e') \<Rightarrow> engine_run D bs (e', acc)
   | (Inr emitted, e') \<Rightarrow> engine_run D bs (e', acc @ [\<lparr>sa_bar_index = pg_bar_index e,
       sa_time = bar_open_time b, sa_high = bar_high b, sa_low = bar_low b, sa_volume = bar_volume b\<rparr>]))"

lemma on_bar_follows:
  assumes "engine_follows D ls acc e" and "length ls = 5" and "on_bar D b e = (x, e')"
  shows "engine_follows D ls (case x of Inl err \<Rightarrow> acc | Inr em \<Rightarrow> acc @ [\<lparr>sa_bar_index = pg_bar_index e,
       sa_time = bar_open_time b, sa_high = bar_high b, sa_low = bar_low b, sa_volume = bar_volume b\<rparr>]) e'"
proof -
  define s where "s = \<lparr>sa_bar_index = pg_bar_index e, sa_time = bar_open_time b, sa_high = bar_high b,
    sa_low = bar_low b, sa_volume = bar_volume b\<rparr>"
  define run where "run len = foldl (\<lambda>z s. fst (zz_push D s z)) (zz_with_length len) acc" for len
  have z: "pg_zigzags e = map run ls"
    and c: "pg_confirmed e = map (\<lambda>(lvl, z). level_view lvl (zz_pivots z)) (zip all_levels (map run ls))"
    using assms(1) by (simp_all add: engine_follows_def run_def zip_map2 compute_pivots_def split_def)
  obtain zs cs n where p: "levels_push D s all_levels (map run ls)
      (map (\<lambda>(lvl, z). level_view lvl (zz_pivots z)) (zip all_levels (map run ls))) = (zs, cs, n)"
    using prod_cases3 by blast
  have inv: "\<forall>z \<in> set (map run ls). zz_inv D z" using zz_run_inv by (simp add: run_def)
  have lp: "zs = map (\<lambda>len. fst (zz_push D s (run len))) ls"
    "cs = map (\<lambda>(lvl, z). level_view lvl (zz_pivots z)) (zip all_levels zs)"
    using levels_push_view [OF inv _ p] assms(2) by (simp_all add: all_levels_def comp_def)
  show ?thesis
  proof (cases x)
    case (Inl err)
    then have "pg_zigzags e' = pg_zigzags e \<and> pg_confirmed e' = pg_confirmed e"
      using assms(3) by (auto simp: on_bar_def Let_def split: if_splits prod.splits)
    then show ?thesis using assms(1) Inl by (simp add: engine_follows_def)
  next
    case (Inr em)
    then have "pg_zigzags e' = zs \<and> pg_confirmed e' = cs"
      using assms(3) p by (auto simp: on_bar_def Let_def z c s_def split: if_splits prod.splits)
    then show ?thesis
      using lp by (simp add: engine_follows_def Inr s_def [symmetric] run_def compute_pivots_def
          zip_map2 split_def)
  qed
qed

lemma engine_run_follows:
  assumes "length ls = 5" and "pivot_engine_new ls = Ok e0"
    and "engine_run D bars (e0, []) = (e, acc)"
  shows "engine_follows D ls acc e"
proof -
  have start: "engine_follows D ls [] e0"
    using assms(1,2)
    by (auto simp: pivot_engine_new_def engine_follows_def compute_pivots_def zz_with_length_def
        all_levels_def length_Suc_conv numeral_eq_Suc split: option.splits)
  have "engine_run D bars (e1, acc1) = (e, acc) \<Longrightarrow> engine_follows D ls acc1 e1 \<Longrightarrow> engine_follows D ls acc e"
    for e1 acc1
  proof (induction bars arbitrary: e1 acc1)
    case (Cons b bs)
    obtain x e2 where o: "on_bar D b e1 = (x, e2)" by fastforce
    with Cons on_bar_follows [OF Cons.prems(2) assms(1) o] show ?case by (cases x) auto
  qed simp
  from this [OF assms(3) start] show ?thesis .
qed

text \<open>
  C0. The levels of the engine are the zigzags. After any bars, accepted or refused as out of
  order, each of the five lists of confirmed pivots is the zigzag of that level's window over the
  accepted bars, pivot by pivot, each classified against the pivot of its kind two places before
  it: the code that merges runs of one kind never drops a pivot, because the zigzag has already
  replaced its head.
\<close>

theorem engine_levels_are_zigzags:
  assumes "length ls = 5" and "pivot_engine_new ls = Ok e0"
    and "engine_run D bars (e0, []) = (e, acc)"
  shows "pivot_snapshot e = map (\<lambda>(lvl, len). level_view lvl (compute_pivots D acc len)) (zip all_levels ls)"
  using engine_run_follows [OF assms] by (simp add: engine_follows_def pivot_snapshot_def)

subsection \<open>The subset invariant\<close>

definition sample_bar :: "int \<Rightarrow> dec \<Rightarrow> dec \<Rightarrow> bar" where
  "sample_bar t h l = \<lparr>bar_instrument = sample_instrument, bar_timeframe = H1, bar_open_time = t,
     bar_open = l, bar_high = h, bar_low = l, bar_close = h, bar_volume = 1, bar_closed = True\<rparr>"

text \<open>
  Five bars, the last of which is an outside bar of the three but not of the five: its low is
  below those of the two bars before it and above that of the first.
\<close>

definition outside_bars :: "bar list" where
  "outside_bars = [sample_bar 0 10 1, sample_bar 1 10 2, sample_bar 2 10 5, sample_bar 3 9 6,
     sample_bar 4 20 4]"

definition default_engine_start :: pivot_engine where
  "default_engine_start = \<lparr>pg_bar_index = 0, pg_last_time = None,
     pg_zigzags = map zz_with_length pivot_config_defaults, pg_confirmed = replicate 5 []\<rparr>"

lemma default_engine_start: "pivot_engine_new pivot_config_defaults = Ok default_engine_start"
proof -
  have "pivot_config_validate pivot_config_defaults = None"
    by (simp add: pivot_config_validate_def pivot_config_defaults_def upt_rec)
  then show ?thesis by (simp add: pivot_engine_new_def default_engine_start_def)
qed

lemma outside_levels:
  "map cp_bar_index (compute_pivots D (snd (engine_run D outside_bars (default_engine_start, []))) 3) = [2]"
  "map cp_bar_index (compute_pivots D (snd (engine_run D outside_bars (default_engine_start, []))) 5) = [4]"
  by (simp_all add: outside_bars_def sample_bar_def default_engine_start_def on_bar_def Let_def
      compute_pivots_def zz_push_def zz_emit_def zz_with_length_def slide_def split: prod.splits)

theorem engine_levels_are_zigzags_witness:
  "map pv_bar_index (at_level (pivot_snapshot (fst (engine_run exact_lib outside_bars
     (default_engine_start, [])))) L1) = [4]"
proof -
  obtain e acc where r: "engine_run exact_lib outside_bars (default_engine_start, []) = (e, acc)"
    by fastforce
  have l: "length pivot_config_defaults = 5" by (simp add: pivot_config_defaults_def)
  from engine_levels_are_zigzags [OF l default_engine_start r]
  have "at_level (pivot_snapshot e) L1 = level_view L1 (compute_pivots exact_lib acc 5)"
    by (simp add: at_level_def all_levels_def pivot_config_defaults_def)
  moreover have "map pv_bar_index (level_view lvl ps) = map cp_bar_index ps" for lvl ps
    by (rule nth_equalityI) (simp_all add: level_view_def)
  ultimately show ?thesis using outside_levels(2) [of exact_lib] by (simp add: r)
qed

lemma level_view_bar_index: "map pv_bar_index (level_view lvl ps) = map cp_bar_index ps"
  by (rule nth_equalityI) (simp_all add: level_view_def)

text \<open>
  C0. The subset invariant. The check of a tree finds nothing exactly when the bars of level one
  are bars of level zero, those of two of one, and those of three of two; level four is not
  looked at. And the engine does not keep the invariant: five bars through the default windows
  leave a tree whose check names levels zero and one, because a bar that is an outside bar of the
  short window and not of the longer one is a pivot of the longer one only.
\<close>

theorem subset_invariant_not_kept:
  "(check_subset_invariant t = None \<longleftrightarrow>
      pv_bar_index ` set (at_level t L1) \<subseteq> pv_bar_index ` set (at_level t L0) \<and>
      pv_bar_index ` set (at_level t L2) \<subseteq> pv_bar_index ` set (at_level t L1) \<and>
      pv_bar_index ` set (at_level t L3) \<subseteq> pv_bar_index ` set (at_level t L2)) \<and>
   check_subset_invariant (pivot_snapshot (fst (engine_run D outside_bars (default_engine_start, []))))
      = Some (L0, L1)"
proof
  show "check_subset_invariant t = None \<longleftrightarrow>
      pv_bar_index ` set (at_level t L1) \<subseteq> pv_bar_index ` set (at_level t L0) \<and>
      pv_bar_index ` set (at_level t L2) \<subseteq> pv_bar_index ` set (at_level t L1) \<and>
      pv_bar_index ` set (at_level t L3) \<subseteq> pv_bar_index ` set (at_level t L2)"
    by (auto simp: check_subset_invariant_def)
  obtain e acc where r: "engine_run D outside_bars (default_engine_start, []) = (e, acc)" by fastforce
  have "length pivot_config_defaults = 5" by (simp add: pivot_config_defaults_def)
  from engine_run_follows [OF this default_engine_start r]
  have v: "at_level (pivot_snapshot e) L0 = level_view L0 (compute_pivots D acc 3)"
    "at_level (pivot_snapshot e) L1 = level_view L1 (compute_pivots D acc 5)"
    by (simp_all add: engine_follows_def pivot_snapshot_def at_level_def all_levels_def pivot_config_defaults_def)
  have "map pv_bar_index (at_level (pivot_snapshot e) L0) = [2]"
    "map pv_bar_index (at_level (pivot_snapshot e) L1) = [4]"
    using outside_levels [of D] by (simp_all add: v level_view_bar_index r)
  then have "pv_bar_index ` set (at_level (pivot_snapshot e) L0) = {2}"
    "pv_bar_index ` set (at_level (pivot_snapshot e) L1) = {4}"
    by (metis list.set(1,2) set_map)+
  then have "\<exists>p \<in> set (at_level (pivot_snapshot e) L1).
      pv_bar_index p \<notin> pv_bar_index ` set (at_level (pivot_snapshot e) L0)"
    by (metis imageE insert_iff numeral_eq_iff semiring_norm(85) singletonD singletonI verit_eq_simplify(8))
  then show "check_subset_invariant (pivot_snapshot (fst (engine_run D outside_bars (default_engine_start, []))))
      = Some (L0, L1)"
    by (simp add: check_subset_invariant_def r)
qed

subsection \<open>The filter keeps the alternation\<close>

definition in_order :: "confirmed_pivot \<Rightarrow> confirmed_pivot \<Rightarrow> bool" where
  "in_order a b \<longleftrightarrow> cp_kind a \<noteq> cp_kind b \<and> cp_bar_index a < cp_bar_index b"

text \<open>The output while the pivots up to \<open>c\<close> have been taken.\<close>

definition filtered_to :: "confirmed_pivot \<Rightarrow> confirmed_pivot list \<Rightarrow> bool" where
  "filtered_to c out \<longleftrightarrow> successively in_order out \<and>
     (out = [] \<or> cp_kind (last out) = cp_kind c \<and> cp_bar_index (last out) \<le> cp_bar_index c)"

lemma other_kind: "(a :: pivot_kind) \<noteq> b \<Longrightarrow> c \<noteq> b \<Longrightarrow> a = c"
  by (cases a; cases b; cases c) simp_all

lemma absorb_snoc:
  "\<exists>b. absorb D m x (qs @ [l]) = (if b then (qs @ [l], False) else if qs = [] then ([], True)
     else if cp_kind (last qs) = cp_kind x
       then (if more_extreme (cp_kind x) (cp_price x) (cp_price (last qs)) then butlast qs @ [x] else qs, True)
       else absorb D m x qs)"
  by (subst absorb.simps) (auto simp: Let_def intro: exI [of _ True] exI [of _ False])

lemma filter_step_to:
  assumes "filtered_to c out" and "in_order c x"
  shows "filtered_to x (filter_step D m out x) \<and> set (filter_step D m out x) \<subseteq> insert x (set out)"
proof (cases out rule: rev_cases)
  case Nil
  then show ?thesis by (simp add: filter_step_def absorb.simps filtered_to_def)
next
  case (snoc qs l)
  have l: "cp_kind l \<noteq> cp_kind x" "cp_bar_index l < cp_bar_index x"
    using assms snoc by (auto simp: filtered_to_def in_order_def)
  have suc: "successively in_order out" using assms(1) by (simp add: filtered_to_def)
  consider "absorb D m x out = (out, False)"
    | "qs = []" "absorb D m x out = ([], True)"
    | rs p where "qs = rs @ [p]" "cp_kind p = cp_kind x"
        "absorb D m x out = (if more_extreme (cp_kind x) (cp_price x) (cp_price p) then rs @ [x] else qs, True)"
  proof -
    obtain b where b: "absorb D m x out = (if b then (out, False) else if qs = [] then ([], True)
       else if cp_kind (last qs) = cp_kind x
         then (if more_extreme (cp_kind x) (cp_price x) (cp_price (last qs)) then butlast qs @ [x] else qs, True)
         else absorb D m x qs)"
      using absorb_snoc [of D m x qs l] unfolding snoc by blast
    show ?thesis
    proof (cases qs rule: rev_cases)
      case Nil
      then show ?thesis using that(1,2) b by (cases b) simp_all
    next
      case s2: (snoc rs p)
      have "cp_kind p \<noteq> cp_kind l" using suc by (simp add: snoc s2 successively_append_iff in_order_def)
      with l(1) have "cp_kind p = cp_kind x" by (metis other_kind)
      then show ?thesis using that(1) that(3) [OF s2] b by (cases b) (simp_all add: s2)
    qed
  qed
  then show ?thesis
  proof cases
    case 1
    then show ?thesis using suc l
      by (auto simp: filter_step_def filtered_to_def snoc successively_append_iff in_order_def)
  next
    case 2
    then show ?thesis by (simp add: filter_step_def filtered_to_def)
  next
    case (3 rs p)
    then have r: "successively in_order (rs @ [p])" and "cp_bar_index p < cp_bar_index l"
      using suc by (simp_all add: snoc successively_append_iff in_order_def)
    with 3 l show ?thesis
      by (auto simp: filter_step_def filtered_to_def snoc successively_append_iff in_order_def)
  qed
qed

text \<open>
  C0. The prominence filter keeps what detectors rely on: of pivots that alternate and move
  forward in time it returns, for any threshold, pivots of the input that still alternate and
  still move forward.
\<close>

theorem filter_prominence_alternates:
  assumes "successively in_order ps"
  shows "successively in_order (filter_prominence D ps m) \<and> set (filter_prominence D ps m) \<subseteq> set ps"
proof -
  have run: "successively in_order (foldl (filter_step D m) out xs) \<and>
      set (foldl (filter_step D m) out xs) \<subseteq> set out \<union> set xs"
    if "filtered_to c out" "successively in_order (c # xs)" for c out xs
    using that
  proof (induction xs arbitrary: c out)
    case Nil
    then show ?case by (simp add: filtered_to_def)
  next
    case (Cons x xs)
    then have "in_order c x" "successively in_order (x # xs)" by (simp_all add: successively_Cons)
    with Cons.IH [of x "filter_step D m out x"] filter_step_to [OF Cons.prems(1), of x D m]
    show ?case by auto
  qed
  show ?thesis
  proof (cases "f64_le m (Fin 0) \<or> length ps < 2")
    case True
    then show ?thesis using assms by (simp add: filter_prominence_def)
  next
    case False
    then obtain x xs where ps: "ps = x # xs" by (cases ps) auto
    have "filter_step D m [] x = [x]" by (simp add: filter_step_def absorb.simps)
    moreover have "filtered_to x [x]" by (simp add: filtered_to_def)
    ultimately show ?thesis
      using False run [of x "[x]" xs] assms by (simp add: filter_prominence_def ps)
  qed
qed

theorem filter_prominence_alternates_witness:
  "set (filter_prominence exact_lib (compute_pivots exact_lib
     (snd (engine_run exact_lib outside_bars (default_engine_start, []))) 5) (Fin (1 / 2)))
   \<subseteq> set (compute_pivots exact_lib (snd (engine_run exact_lib outside_bars (default_engine_start, []))) 5)"
proof -
  let ?ps = "compute_pivots exact_lib (snd (engine_run exact_lib outside_bars (default_engine_start, []))) 5"
  have "length ?ps = 1" using outside_levels(2) [of exact_lib] by (metis length_map length_Cons list.size(3) One_nat_def)
  then obtain p where "?ps = [p]" by (auto simp: length_Suc_conv)
  then have "successively in_order ?ps" by simp
  from filter_prominence_alternates [OF this, of exact_lib "Fin (1 / 2)"] show ?thesis by blast
qed

end
