(* ===== verification/Strategy.thy ===== *)
theory Strategy
  imports Domain Pivots
begin

text \<open>
  From detections to intents: the detections and their validated form (\<open>qtss-domain/src/v2/detection.rs\<close>,
  \<open>regime.rs\<close>), the strategy boundary and the confidence threshold strategy (\<open>qtss-strategy/src/v2\<close>).
  The fields of a detection that only the chart reads are kept as the JSON they are. What number a
  JSON scalar is comes from \<open>serde_json\<close> and is a parameter.
\<close>

subsection \<open>Detections\<close>

datatype pattern_kind = Elliott string | Harmonic string | Classical string | Wyckoff string
  | RangePattern string | GapPattern string | Candle string | CustomPattern string

datatype pattern_state = Forming | Confirmed | Invalidated | Completed

record pivot_ref =
  pr_bar_index :: nat
  pr_price :: dec
  pr_level :: pivot_level
  pr_label :: "string option"

datatype regime_kind = TrendingUp | TrendingDown | Ranging | Squeeze | Volatile | Uncertain

datatype trend_strength = TrendNone | TrendWeak | TrendModerate | TrendStrong | TrendVeryStrong

record regime_snapshot =
  rg_at :: timestamp
  rg_kind :: regime_kind
  rg_trend_strength :: trend_strength
  rg_adx :: dec
  rg_bb_width :: dec
  rg_atr_pct :: dec
  rg_choppiness :: dec
  rg_confidence :: f64

definition neutral_default :: "timestamp \<Rightarrow> regime_snapshot" where
  "neutral_default now = \<lparr>rg_at = now, rg_kind = Uncertain, rg_trend_strength = TrendNone, rg_adx = 0,
     rg_bb_width = 0, rg_atr_pct = 0, rg_choppiness = 0, rg_confidence = Fin 0\<rparr>"

record 's detection =
  dt_id :: uuid
  dt_instrument :: instrument
  dt_timeframe :: timeframe
  dt_kind :: pattern_kind
  dt_state :: pattern_state
  dt_anchors :: "pivot_ref list"
  dt_structural_score :: f64
  dt_invalidation_price :: dec
  dt_regime_at_detection :: regime_snapshot
  dt_detected_at :: timestamp
  dt_raw_meta :: "'s json"
  dt_projected_anchors :: "pivot_ref list"
  dt_sub_wave_anchors :: "pivot_ref list list"
  dt_render_geometry :: "'s json option"
  dt_render_style :: "string option"
  dt_render_labels :: "'s json option"

record channel_score =
  cs_channel :: string
  cs_score :: f64
  cs_weight :: f64

record 's validated_detection =
  vd_detection :: "'s detection"
  vd_channel_scores :: "channel_score list"
  vd_confidence :: f64
  vd_validated_at :: timestamp

text \<open>\<open>Detection::new\<close>; \<open>null\<close> is the JSON null.\<close>

definition detection_new ::
  "uuid \<Rightarrow> timestamp \<Rightarrow> 's \<Rightarrow> instrument \<Rightarrow> timeframe \<Rightarrow> pattern_kind \<Rightarrow> pattern_state \<Rightarrow> pivot_ref list
    \<Rightarrow> f64 \<Rightarrow> dec \<Rightarrow> regime_snapshot \<Rightarrow> 's detection"
where
  "detection_new new_id now null inst tf kind state anchors score invalidation regime =
     \<lparr>dt_id = new_id, dt_instrument = inst, dt_timeframe = tf, dt_kind = kind, dt_state = state,
       dt_anchors = anchors, dt_structural_score = score, dt_invalidation_price = invalidation,
       dt_regime_at_detection = regime, dt_detected_at = now, dt_raw_meta = JScalar null,
       dt_projected_anchors = [], dt_sub_wave_anchors = [], dt_render_geometry = None,
       dt_render_style = None, dt_render_labels = None\<rparr>"

subsection \<open>The strategy boundary\<close>

datatype strategy_error = StrategyRejected string string | StrategyInvalidConfig string | StrategyInternal string

fun show_strategy_error :: "strategy_error \<Rightarrow> string" where
  "show_strategy_error (StrategyRejected sid why) =
     ''strategy '' @ [CHR 0x27] @ sid @ [CHR 0x27] @ '' rejected the signal: '' @ why"
| "show_strategy_error (StrategyInvalidConfig why) = ''invalid strategy config: '' @ why"
| "show_strategy_error (StrategyInternal why) = ''internal: '' @ why"

text \<open>
  A provider is a value of the trait; the first argument of \<open>sp_evaluate\<close> is the fresh id and the
  time that the call may use.
\<close>

record 's strategy_provider =
  sp_id :: string
  sp_evaluate :: "uuid \<times> timestamp \<Rightarrow> 's validated_detection \<Rightarrow> run_mode \<Rightarrow> strategy_error + trade_intent list"

subsection \<open>The confidence threshold strategy\<close>

record threshold_config =
  tc_min_confidence :: f64
  tc_risk_pct :: dec
  tc_time_in_force :: time_in_force
  tc_time_stop_secs :: "int option"
  tc_act_on_forming :: bool

record threshold_strategy =
  ts_id :: string
  ts_config :: threshold_config

definition threshold_strategy_new :: "string \<Rightarrow> threshold_config \<Rightarrow> strategy_error + threshold_strategy" where
  "threshold_strategy_new sid cfg = (
     if \<not> (f64_le (Fin 0) (tc_min_confidence cfg) \<and> f64_le (tc_min_confidence cfg) (Fin 1))
       then Err (StrategyInvalidConfig ''min_confidence must be in 0..1'')
     else if tc_risk_pct cfg \<le> 0 then Err (StrategyInvalidConfig ''risk_pct must be positive'')
     else Ok \<lparr>ts_id = sid, ts_config = cfg\<rparr>)"

fun passes_state :: "threshold_strategy \<Rightarrow> pattern_state \<Rightarrow> bool" where
  "passes_state st Confirmed = True"
| "passes_state st Forming = tc_act_on_forming (ts_config st)"
| "passes_state st Invalidated = False"
| "passes_state st Completed = False"

text \<open>The price that the metadata of a detection gives under \<open>entry_price\<close>.\<close>

definition meta_entry :: "dlib \<Rightarrow> ('s \<Rightarrow> f64 option) \<Rightarrow> 's detection \<Rightarrow> dec option" where
  "meta_entry D num d = Option.bind (Option.bind (json_get (dt_raw_meta d) ''entry_price'') (json_f64 num))
     (d_of_f64 D)"

definition side_for :: "dlib \<Rightarrow> ('s \<Rightarrow> f64 option) \<Rightarrow> 's validated_detection \<Rightarrow> side" where
  "side_for D num signal = (let invalidation = dt_invalidation_price (vd_detection signal);
       first_target = (case meta_entry D num (vd_detection signal) of Some x \<Rightarrow> x | None \<Rightarrow> invalidation)
     in if first_target \<ge> invalidation then Long else Short)"

definition threshold_evaluate ::
  "dlib \<Rightarrow> ('s \<Rightarrow> f64 option) \<Rightarrow> threshold_strategy \<Rightarrow> uuid \<times> timestamp \<Rightarrow> 's validated_detection \<Rightarrow> run_mode
    \<Rightarrow> strategy_error + trade_intent list"
where
  "threshold_evaluate D num st fresh signal mode = (let cfg = ts_config st; d = vd_detection signal in
     if \<not> passes_state st (dt_state d) then Ok []
     else if f64_lt (vd_confidence signal) (tc_min_confidence cfg) then Ok []
     else Ok [\<lparr>ti_id = fst fresh, ti_created_at = snd fresh, ti_strategy_id = ts_id st,
       ti_instrument = dt_instrument d, ti_timeframe = dt_timeframe d, ti_side = side_for D num signal,
       ti_sizing = RiskPct (tc_risk_pct cfg), ti_entry_price = None,
       ti_stop_loss = dt_invalidation_price d, ti_take_profits = [],
       ti_time_in_force = tc_time_in_force cfg, ti_time_stop_secs = tc_time_stop_secs cfg,
       ti_source_signals = [dt_id d], ti_conviction = vd_confidence signal, ti_mode = mode\<rparr>])"

definition threshold_provider :: "dlib \<Rightarrow> ('s \<Rightarrow> f64 option) \<Rightarrow> threshold_strategy \<Rightarrow> 's strategy_provider" where
  "threshold_provider D num st = \<lparr>sp_id = ts_id st, sp_evaluate = threshold_evaluate D num st\<rparr>"

text \<open>What the intents of the strategy have in common.\<close>

lemma threshold_intents:
  assumes "threshold_evaluate D num st fresh signal mode = Ok intents" "i \<in> set intents"
  shows "ti_entry_price i = None" "ti_take_profits i = []" "ti_mode i = mode"
    "ti_stop_loss i = dt_invalidation_price (vd_detection signal)" "ti_side i = side_for D num signal"
  using assms by (auto simp: threshold_evaluate_def Let_def split: if_splits)

text \<open>
  C0. The threshold strategy never fails and emits at most one intent. A validly configured strategy
  emits one exactly for a confirmed detection, or a forming one when it is told to act on those, whose
  confidence is at least the minimum or not a number. Its stop is the invalidation price. It is a short
  exactly when the metadata of the detection hold an entry price below the invalidation price: a
  detection without that entry is always traded long.
\<close>

theorem threshold_strategy_fires:
  assumes "threshold_strategy_new sid cfg = Ok st"
  shows "\<exists>intents. threshold_evaluate D num st fresh signal mode = Ok intents \<and>
    (intents = [] \<or> (\<exists>i. intents = [i] \<and> ti_stop_loss i = dt_invalidation_price (vd_detection signal) \<and>
       (ti_side i = Short \<longleftrightarrow> (\<exists>x. meta_entry D num (vd_detection signal) = Some x \<and> x < ti_stop_loss i)) \<and>
       (\<exists>pct > 0. ti_sizing i = RiskPct pct))) \<and>
    (intents \<noteq> [] \<longleftrightarrow> (dt_state (vd_detection signal) = Confirmed \<or>
         dt_state (vd_detection signal) = Forming \<and> tc_act_on_forming cfg) \<and>
       (vd_confidence signal = NaN \<or> f64_le (tc_min_confidence cfg) (vd_confidence signal)))"
proof -
  from assms have st: "ts_config st = cfg" "0 < tc_risk_pct cfg" "tc_min_confidence cfg \<noteq> NaN"
    by (auto simp: threshold_strategy_new_def split: if_splits)
  have state: "passes_state st s \<longleftrightarrow> s = Confirmed \<or> s = Forming \<and> tc_act_on_forming cfg" for s
    by (cases s) (simp_all add: st)
  have conf: "\<not> f64_lt c (tc_min_confidence cfg) \<longleftrightarrow> c = NaN \<or> f64_le (tc_min_confidence cfg) c" for c
    using st(3) by (cases c; cases "tc_min_confidence cfg") auto
  have side: "side_for D num signal = Short \<longleftrightarrow>
      (\<exists>x. meta_entry D num (vd_detection signal) = Some x \<and> x < dt_invalidation_price (vd_detection signal))"
    by (auto simp: side_for_def Let_def split: option.splits)
  show ?thesis
    using st(2) by (auto simp: threshold_evaluate_def Let_def state st(1) side simp flip: conf)
qed

definition sample_detection :: "f64 option json \<Rightarrow> f64 option validated_detection" where
  "sample_detection meta = \<lparr>vd_detection = (detection_new 3 0 None sample_instrument H1 (Elliott ''impulse_5'')
       Confirmed [] (Fin (3 / 4)) 110 (neutral_default 0))\<lparr>dt_raw_meta := meta\<rparr>,
     vd_channel_scores = [], vd_confidence = Fin (3 / 4), vd_validated_at = 1\<rparr>"

definition sample_threshold :: threshold_strategy where
  "sample_threshold = \<lparr>ts_id = ''conf'', ts_config = \<lparr>tc_min_confidence = Fin (1 / 2), tc_risk_pct = 1 / 100,
     tc_time_in_force = Gtc, tc_time_stop_secs = None, tc_act_on_forming = False\<rparr>\<rparr>"

theorem threshold_strategy_fires_witness:
  "\<exists>i. threshold_evaluate exact_lib id sample_threshold (1, 2)
      (sample_detection (JObject [(''entry_price'', JScalar (Some (Fin 100)))])) Backtest = Ok [i] \<and>
    ti_side i = Short \<and> ti_stop_loss i = 110"
proof -
  let ?s = "sample_detection (JObject [(''entry_price'', JScalar (Some (Fin 100)))])"
  have new: "threshold_strategy_new ''conf'' (ts_config sample_threshold) = Ok sample_threshold"
    by (simp add: threshold_strategy_new_def sample_threshold_def)
  have m: "meta_entry exact_lib id (vd_detection ?s) = Some 100"
    by (simp add: meta_entry_def sample_detection_def)
  have d: "dt_state (vd_detection ?s) = Confirmed" "dt_invalidation_price (vd_detection ?s) = 110"
    "vd_confidence ?s = Fin (3 / 4)"
    by (simp_all add: sample_detection_def detection_new_def)
  have c: "tc_min_confidence (ts_config sample_threshold) = Fin (1 / 2)" by (simp add: sample_threshold_def)
  from threshold_strategy_fires [OF new, of exact_lib id "(1, 2)" ?s Backtest]
  show ?thesis by (auto simp: m d c)
qed

end
