(* ===== verification/BacktestRun.thy ===== *)
theory BacktestRun
  imports Execution Portfolio Strategy
begin

text \<open>
  The runtime context (\<open>qtss-runtime\<close>) and the replay of bars through strategy, risk approval, router and
  portfolio (\<open>qtss-backtest/src/v2.rs\<close>). A run is modelled over the bars its stream yields; the strategy,
  the source of signals, the approval closure and the adapters are arguments, as they are arguments of
  the runner.
\<close>

subsection \<open>The runtime context\<close>

record storage_namespace =
  ns_live_schema :: string
  ns_dry_schema :: string
  ns_backtest_schema :: string

fun for_mode :: "storage_namespace \<Rightarrow> run_mode \<Rightarrow> string" where
  "for_mode ns Live = ns_live_schema ns"
| "for_mode ns Dry = ns_dry_schema ns"
| "for_mode ns Backtest = ns_backtest_schema ns"

record runtime_policy =
  rp_real_broker_calls :: bool
  rp_live_marketdata_subscription :: bool
  rp_writes_live_tables :: bool
  rp_writes_dry_tables :: bool
  rp_writes_backtest_tables :: bool
  rp_allows_live_ai :: bool
  rp_allows_notifications :: bool

fun policy_of :: "run_mode \<Rightarrow> runtime_policy" where
  "policy_of Live = \<lparr>rp_real_broker_calls = True, rp_live_marketdata_subscription = True,
     rp_writes_live_tables = True, rp_writes_dry_tables = False, rp_writes_backtest_tables = False,
     rp_allows_live_ai = True, rp_allows_notifications = True\<rparr>"
| "policy_of Dry = \<lparr>rp_real_broker_calls = False, rp_live_marketdata_subscription = True,
     rp_writes_live_tables = False, rp_writes_dry_tables = True, rp_writes_backtest_tables = False,
     rp_allows_live_ai = True, rp_allows_notifications = True\<rparr>"
| "policy_of Backtest = \<lparr>rp_real_broker_calls = False, rp_live_marketdata_subscription = False,
     rp_writes_live_tables = False, rp_writes_dry_tables = False, rp_writes_backtest_tables = True,
     rp_allows_live_ai = False, rp_allows_notifications = False\<rparr>"

datatype runtime_error = NotAllowed string run_mode | RuntimeInvalidConfig string

record runtime_context =
  rx_id :: string
  rx_mode :: run_mode
  rx_storage :: storage_namespace

definition context_schema :: "runtime_context \<Rightarrow> string" where
  "context_schema c = for_mode (rx_storage c) (rx_mode c)"

definition context_require :: "runtime_context \<Rightarrow> string \<Rightarrow> (runtime_policy \<Rightarrow> bool) \<Rightarrow> runtime_error option" where
  "context_require c op allowed = (if allowed (policy_of (rx_mode c)) then None
     else Some (NotAllowed op (rx_mode c)))"

subsection \<open>The runner\<close>

record backtest_summary =
  bk_bars_processed :: nat
  bk_intents_emitted :: nat
  bk_intents_approved :: nat
  bk_orders_filled :: nat
  bk_final_equity :: dec
  bk_peak_equity :: dec

definition summary_zero :: backtest_summary where
  "summary_zero = \<lparr>bk_bars_processed = 0, bk_intents_emitted = 0, bk_intents_approved = 0,
     bk_orders_filled = 0, bk_final_equity = 0, bk_peak_equity = 0\<rparr>"

text \<open>What one call of the strategy, or the approval and routing of one intent, draws: ids and times.\<close>

record call_env =
  ce_fresh :: "uuid \<times> timestamp"
  ce_ids :: "nat \<Rightarrow> uuid"
  ce_places :: "nat \<Rightarrow> placement"

type_synonym risk_approver = "uuid \<times> timestamp \<Rightarrow> trade_intent \<Rightarrow> approved_intent option"

record ('s, 'w) backtest_runner =
  br_ctx :: runtime_context
  br_strategy :: "'s strategy_provider"
  br_router :: "'w router"
  br_portfolio :: portfolio
  br_risk :: risk_approver

definition runner_new ::
  "runtime_context \<Rightarrow> dec \<Rightarrow> timestamp \<Rightarrow> 's strategy_provider \<Rightarrow> 'w router \<Rightarrow> risk_approver
    \<Rightarrow> runtime_error + ('s, 'w) backtest_runner"
where
  "runner_new ctx starting_equity now strategy router risk = (
     if rx_mode ctx \<noteq> Backtest then Err (NotAllowed ''backtest_run'' (rx_mode ctx))
     else Ok \<lparr>br_ctx = ctx, br_strategy = strategy, br_router = router,
       br_portfolio = portfolio_new starting_equity now, br_risk = risk\<rparr>)"

text \<open>The state of a run: the portfolio, the counters, the adapters' world and the calls made.\<close>

record 'w run_state =
  rs_portfolio :: portfolio
  rs_summary :: backtest_summary
  rs_world :: 'w
  rs_calls :: nat

definition absorb :: "dlib \<Rightarrow> approved_intent \<Rightarrow> routed_acks \<Rightarrow> portfolio \<Rightarrow> portfolio" where
  "absorb D a acks e = foldl (\<lambda>e f. portfolio_apply_fill D (in_symbol (ti_instrument (ap_intent a)))
     (ti_side (ap_intent a)) (fl_quantity f) (fl_price f) (fl_fee f) e) e (ak_fills (ra_entry acks))"

definition run_intent ::
  "dlib \<Rightarrow> (nat \<Rightarrow> call_env) \<Rightarrow> ('s, 'w) backtest_runner \<Rightarrow> trade_intent \<Rightarrow> 'w run_state \<Rightarrow> 'w run_state"
where
  "run_intent D env r intent st0 = (let ce = env (rs_calls st0); st = st0\<lparr>rs_calls := rs_calls st0 + 1\<rparr> in
     case br_risk r (ce_fresh ce) intent of
       None \<Rightarrow> st
     | Some approved \<Rightarrow>
       (let sm = (rs_summary st)\<lparr>bk_intents_approved := bk_intents_approved (rs_summary st) + 1\<rparr> in
        case route D (ce_ids ce) (ce_places ce) (br_router r) approved (rs_world st) of
          (Inr acks, w) \<Rightarrow> st\<lparr>rs_portfolio := absorb D approved acks (rs_portfolio st),
            rs_summary := sm\<lparr>bk_orders_filled := bk_orders_filled sm + 1\<rparr>, rs_world := w\<rparr>
        | (Inl e, w) \<Rightarrow> st\<lparr>rs_summary := sm, rs_world := w\<rparr>))"

definition run_intents ::
  "dlib \<Rightarrow> (nat \<Rightarrow> call_env) \<Rightarrow> ('s, 'w) backtest_runner \<Rightarrow> trade_intent list \<Rightarrow> 'w run_state \<Rightarrow> 'w run_state"
where
  "run_intents D env r intents st = foldl (\<lambda>s i. run_intent D env r i s)
     (st\<lparr>rs_summary := (rs_summary st)\<lparr>bk_intents_emitted := bk_intents_emitted (rs_summary st) + length intents\<rparr>\<rparr>)
     intents"

text \<open>The signals of one bar; an error of the strategy ends the run.\<close>

fun run_signals ::
  "dlib \<Rightarrow> (nat \<Rightarrow> call_env) \<Rightarrow> ('s, 'w) backtest_runner \<Rightarrow> 's validated_detection list \<Rightarrow> 'w run_state
    \<Rightarrow> runtime_error option \<times> 'w run_state"
where
  "run_signals D env r [] st = (None, st)"
| "run_signals D env r (sig # sigs) st =
     (case sp_evaluate (br_strategy r) (ce_fresh (env (rs_calls st))) sig (rx_mode (br_ctx r)) of
       Inl e \<Rightarrow> (Some (RuntimeInvalidConfig (show_strategy_error e)), st)
     | Inr intents \<Rightarrow>
         run_signals D env r sigs (run_intents D env r intents (st\<lparr>rs_calls := rs_calls st + 1\<rparr>)))"

type_synonym ('s, 'q) signal_source = "timestamp \<Rightarrow> 'q \<Rightarrow> 's validated_detection list \<times> 'q"

definition mark_bar :: "dlib \<Rightarrow> bar \<Rightarrow> 'w run_state \<Rightarrow> 'w run_state" where
  "mark_bar D b st = st\<lparr>rs_portfolio := portfolio_mark D (in_symbol (bar_instrument b)) (bar_close b) (rs_portfolio st),
     rs_summary := (rs_summary st)\<lparr>bk_bars_processed := bk_bars_processed (rs_summary st) + 1\<rparr>\<rparr>"

fun run_bars ::
  "dlib \<Rightarrow> (nat \<Rightarrow> call_env) \<Rightarrow> ('s, 'w) backtest_runner \<Rightarrow> ('s, 'q) signal_source \<Rightarrow> bar list \<Rightarrow> 'q
    \<Rightarrow> 'w run_state \<Rightarrow> runtime_error option \<times> 'w run_state"
where
  "run_bars D env r source [] q st = (None, st)"
| "run_bars D env r source (b # bs) q st = (let (sigs, q') = source (bar_open_time b) q in
     case run_signals D env r sigs (mark_bar D b st) of
       (Some e, st') \<Rightarrow> (Some e, st')
     | (None, st') \<Rightarrow> run_bars D env r source bs q' st')"

definition run ::
  "dlib \<Rightarrow> (nat \<Rightarrow> call_env) \<Rightarrow> ('s, 'w) backtest_runner \<Rightarrow> ('s, 'q) signal_source \<Rightarrow> bar list \<Rightarrow> 'q \<Rightarrow> 'w
    \<Rightarrow> (runtime_error + backtest_summary) \<times> 'w run_state"
where
  "run D env r source bars q w = (case run_bars D env r source bars q
       \<lparr>rs_portfolio = br_portfolio r, rs_summary = summary_zero, rs_world = w, rs_calls = 0\<rparr> of
     (Some e, st) \<Rightarrow> (Err e, st)
   | (None, st) \<Rightarrow> (let snap = portfolio_snapshot D (rs_portfolio st) in
       (Ok ((rs_summary st)\<lparr>bk_final_equity := as_equity snap, bk_peak_equity := as_peak_equity snap\<rparr>), st)))"

subsection \<open>Invariants of a run\<close>

text \<open>
  What holds through a run: kept by marking a bar, and by handling intents of a kind \<open>Q\<close> where the
  strategy emits no others.
\<close>

locale run_invariant =
  fixes D :: dlib and env :: "nat \<Rightarrow> call_env" and r :: "('s, 'w) backtest_runner"
    and Q :: "trade_intent \<Rightarrow> bool" and P :: "'w run_state \<Rightarrow> bool"
  assumes emits: "sp_evaluate (br_strategy r) fresh sig mode = Inr intents \<Longrightarrow> i \<in> set intents \<Longrightarrow> Q i"
    and at_mark: "P st \<Longrightarrow> P (mark_bar D b st)"
    and at_intents: "\<forall>i \<in> set intents. Q i \<Longrightarrow> P st \<Longrightarrow> P (run_intents D env r intents (st\<lparr>rs_calls := n\<rparr>))"
begin

lemma signals_keep: "P st \<Longrightarrow> P (snd (run_signals D env r sigs st))"
proof (induction sigs arbitrary: st)
  case (Cons sig sigs)
  show ?case
  proof (cases "sp_evaluate (br_strategy r) (ce_fresh (env (rs_calls st))) sig (rx_mode (br_ctx r))")
    case (Inr intents)
    have "P (run_intents D env r intents (st\<lparr>rs_calls := rs_calls st + 1\<rparr>))"
      by (rule at_intents) (use emits [OF Inr] Cons.prems in auto)
    from Cons.IH [OF this] show ?thesis by (simp add: Inr)
  qed (simp add: Cons.prems)
qed simp

lemma bars_keep: "P st \<Longrightarrow> P (snd (run_bars D env r source bs q st))"
proof (induction bs arbitrary: st q)
  case (Cons b bs)
  obtain sigs q' where s: "source (bar_open_time b) q = (sigs, q')" by fastforce
  obtain e st' where st': "run_signals D env r sigs (mark_bar D b st) = (e, st')" by fastforce
  then have "P st'" using signals_keep [OF at_mark [OF Cons.prems], of sigs b] by simp
  then show ?case using Cons.IH by (cases e) (simp_all add: s st')
qed simp

lemma run_keeps:
  assumes "P \<lparr>rs_portfolio = br_portfolio r, rs_summary = summary_zero, rs_world = w, rs_calls = 0\<rparr>"
    and "run D env r source bars q w = (res, st)"
  shows "P st"
  using bars_keep [OF assms(1), of source bars q] assms(2)
  by (auto simp: run_def Let_def split: prod.splits option.splits)

end

text \<open>The counters: what is filled was approved, what is approved was emitted.\<close>

definition counts_ok :: "'w run_state \<Rightarrow> bool" where
  "counts_ok st \<longleftrightarrow> bk_orders_filled (rs_summary st) \<le> bk_intents_approved (rs_summary st) \<and>
     bk_intents_approved (rs_summary st) \<le> bk_intents_emitted (rs_summary st)"

lemma run_intent_counts:
  "bk_intents_emitted (rs_summary (run_intent D env r i st)) = bk_intents_emitted (rs_summary st)"
  "bk_bars_processed (rs_summary (run_intent D env r i st)) = bk_bars_processed (rs_summary st)"
  "bk_intents_approved (rs_summary (run_intent D env r i st)) \<le> bk_intents_approved (rs_summary st) + 1"
  "bk_orders_filled (rs_summary st) \<le> bk_intents_approved (rs_summary st) \<Longrightarrow>
     bk_orders_filled (rs_summary (run_intent D env r i st)) \<le> bk_intents_approved (rs_summary (run_intent D env r i st))"
  by (auto simp: run_intent_def Let_def split: option.splits sum.splits prod.splits)

lemma run_intents_counts:
  "counts_ok st \<Longrightarrow> counts_ok (run_intents D env r intents st)"
proof -
  define st1 where "st1 = st\<lparr>rs_summary := (rs_summary st)\<lparr>bk_intents_emitted :=
      bk_intents_emitted (rs_summary st) + length intents\<rparr>\<rparr>"
  let ?run = "\<lambda>is s. foldl (\<lambda>s i. run_intent D env r i s) s is"
  assume "counts_ok st"
  then have "bk_orders_filled (rs_summary st1) \<le> bk_intents_approved (rs_summary st1)"
    and "bk_intents_approved (rs_summary st1) + length intents \<le> bk_intents_emitted (rs_summary st1)"
    by (simp_all add: counts_ok_def st1_def)
  then have "counts_ok (?run intents st1)"
  proof (induction intents arbitrary: st1)
    case (Cons i intents)
    have "counts_ok (?run intents (run_intent D env r i st1))"
      by (rule Cons.IH) (use Cons.prems run_intent_counts(1,3) [of D env r i st1] run_intent_counts(4) [of st1 D env r i] in auto)
    then show ?case by simp
  qed (simp add: counts_ok_def)
  then show ?thesis by (simp add: run_intents_def st1_def)
qed

interpretation counts: run_invariant D env r "\<lambda>_. True" counts_ok
proof unfold_locales
  show "counts_ok (run_intents D env r intents (st\<lparr>rs_calls := n\<rparr>))" if "counts_ok st" for intents n st
    by (rule run_intents_counts) (use that in \<open>simp add: counts_ok_def\<close>)
qed (simp_all add: counts_ok_def mark_bar_def)

lemma run_intents_bars:
  "bk_bars_processed (rs_summary (run_intents D env r intents st)) = bk_bars_processed (rs_summary st)"
proof -
  have "bk_bars_processed (rs_summary (foldl (\<lambda>s i. run_intent D env r i s) s intents)) =
      bk_bars_processed (rs_summary s)" for s
    by (induction intents arbitrary: s) (simp_all add: run_intent_counts)
  then show ?thesis by (simp add: run_intents_def)
qed

lemma run_signals_bars:
  "bk_bars_processed (rs_summary (snd (run_signals D env r sigs st))) = bk_bars_processed (rs_summary st)"
  by (induction D env r sigs st rule: run_signals.induct) (auto simp: run_intents_bars split: sum.splits)

lemma run_bars_count:
  "bk_bars_processed (rs_summary (snd (run_bars D env r source bs q st))) \<le> bk_bars_processed (rs_summary st) + length bs \<and>
   (fst (run_bars D env r source bs q st) = None \<longrightarrow>
     bk_bars_processed (rs_summary (snd (run_bars D env r source bs q st))) = bk_bars_processed (rs_summary st) + length bs)"
proof (induction bs arbitrary: st q)
  case (Cons b bs)
  obtain sigs q' where s: "source (bar_open_time b) q = (sigs, q')" by fastforce
  obtain e st' where st': "run_signals D env r sigs (mark_bar D b st) = (e, st')" by fastforce
  then have "bk_bars_processed (rs_summary st') = bk_bars_processed (rs_summary st) + 1"
    using run_signals_bars [of D env r sigs "mark_bar D b st"] by (simp add: mark_bar_def)
  then show ?case using Cons.IH [of q' st'] by (cases e) (simp_all add: s st')
qed simp

subsection \<open>What a run over the simulator holds\<close>

definition sim_only :: "dlib \<Rightarrow> (uuid \<Rightarrow> string) \<Rightarrow> sim_adapter router \<Rightarrow> bool" where
  "sim_only D show_uuid router \<longleftrightarrow> (\<forall>m ad. hm_get router m = Some ad \<longrightarrow> ad = sim_as_adapter D show_uuid)"

lemma sim_entry_fill:
  assumes "route D ids envs router a w = (Inr acks, w')" "sim_only D show_uuid router"
  shows "0 < ap_quantity a \<and> (\<exists>f. ak_fills (ra_entry acks) = [f] \<and> fl_quantity f = ap_quantity a)"
proof -
  obtain b where b: "split_intent D ids a = Inr b"
    using assms(1) by (auto simp: route_def split: sum.splits)
  obtain ad where m: "hm_get router (ti_mode (ap_intent a)) = Some ad"
    using assms(1) b by (auto simp: route_def split: option.splits)
  then have "ad = sim_as_adapter D show_uuid" using assms(2) unfolding sim_only_def by blast
  then have ad: "ad_place ad = sim_place D show_uuid" by (simp add: sim_as_adapter_def)
  obtain as where p: "place_all (sim_place D show_uuid) envs 0 (bracket_orders b) w = (Inr as, w')"
    and acks: "ra_entry acks = hd as"
    using assms(1) unfolding route_place_all [OF b m] ad by (auto split: prod.splits sum.splits)
  from place_all_filled [OF p] have "filled_as D w (ob_entry b) (hd as)"
    by (auto simp: bracket_orders_def list_all2_Cons1)
  then show ?thesis
    using split_intent_Ok [OF b] by (auto simp: filled_as_def acks build_entry_def)
qed

text \<open>The quantity that approvals add to an instrument when only their entries count.\<close>

definition entries_of :: "string \<Rightarrow> approved_intent list \<Rightarrow> dec" where
  "entries_of y as = sum_list (map (\<lambda>a. if in_symbol (ti_instrument (ap_intent a)) = y
     then signed (ti_side (ap_intent a)) (ap_quantity a) else 0) as)"

definition approved_by :: "risk_approver \<Rightarrow> approved_intent \<Rightarrow> bool" where
  "approved_by risk a \<longleftrightarrow> (\<exists>fresh i. risk fresh i = Some a)"

definition entries_held ::
  "dlib \<Rightarrow> rat \<Rightarrow> risk_approver \<Rightarrow> portfolio \<Rightarrow> 'w run_state \<Rightarrow> bool"
where
  "entries_held D u risk e0 st \<longleftrightarrow> (\<exists>as ops. rs_portfolio st = foldl (pe_step D (\<lambda>t. 0)) e0 ops \<and>
     (\<forall>x \<in> set ops. fill_or_mark u x) \<and> (\<forall>y. sum_list (map (fill_qty y) ops) = entries_of y as) \<and>
     length as = bk_orders_filled (rs_summary st) \<and> (\<forall>a \<in> set as. approved_by risk a))"

lemma entries_held_cong:
  "rs_portfolio st' = rs_portfolio st \<Longrightarrow>
   bk_orders_filled (rs_summary st') = bk_orders_filled (rs_summary st) \<Longrightarrow>
   entries_held D u risk e0 st \<Longrightarrow> entries_held D u risk e0 st'"
  by (simp add: entries_held_def)

lemma entries_held_mark:
  assumes "entries_held D u risk e0 st"
  shows "entries_held D u risk e0 (mark_bar D b st)"
proof -
  from assms obtain as ops where h: "rs_portfolio st = foldl (pe_step D (\<lambda>t. 0)) e0 ops"
    "\<forall>x \<in> set ops. fill_or_mark u x" "\<forall>y. sum_list (map (fill_qty y) ops) = entries_of y as"
    "length as = bk_orders_filled (rs_summary st)" "\<forall>a \<in> set as. approved_by risk a"
    unfolding entries_held_def by blast
  show ?thesis
    unfolding entries_held_def
    by (rule exI [of _ as], rule exI [of _ "ops @ [PMark (in_symbol (bar_instrument b)) (bar_close b)]"])
      (use h in \<open>simp add: mark_bar_def\<close>)
qed

lemma entries_held_fill:
  assumes "entries_held D u risk e0 st" "risk fresh i = Some a"
    and "ak_fills (ra_entry acks) = [f]" "fl_quantity f = ap_quantity a" "0 < ap_quantity a" "on_grid u (ap_quantity a)"
    and "rs_portfolio st' = absorb D a acks (rs_portfolio st)"
    and "bk_orders_filled (rs_summary st') = bk_orders_filled (rs_summary st) + 1"
  shows "entries_held D u risk e0 st'"
proof -
  from assms(1) obtain as ops where h: "rs_portfolio st = foldl (pe_step D (\<lambda>t. 0)) e0 ops"
    "\<forall>x \<in> set ops. fill_or_mark u x" "\<forall>y. sum_list (map (fill_qty y) ops) = entries_of y as"
    "length as = bk_orders_filled (rs_summary st)" "\<forall>a \<in> set as. approved_by risk a"
    unfolding entries_held_def by blast
  let ?op = "PFill (in_symbol (ti_instrument (ap_intent a))) (ti_side (ap_intent a)) (ap_quantity a) (fl_price f) (fl_fee f)"
  have "sum_list (map (fill_qty y) (ops @ [?op])) = entries_of y (as @ [a])" for y
    using h(3) by (simp add: entries_of_def)
  moreover have approved: "approved_by risk a" using assms(2) unfolding approved_by_def by blast
  ultimately show ?thesis
    unfolding entries_held_def
    by (intro exI [of _ "as @ [a]"] exI [of _ "ops @ [?op]"])
      (use h assms approved in \<open>auto simp: absorb_def\<close>)
qed

lemma entries_held_intent:
  assumes "sim_only D show_uuid (br_router r)"
    and "\<And>fresh i a. br_risk r fresh i = Some a \<Longrightarrow> on_grid u (ap_quantity a)"
    and "entries_held D u (br_risk r) e0 st"
  shows "entries_held D u (br_risk r) e0 (run_intent D env r i st)"
proof (cases "br_risk r (ce_fresh (env (rs_calls st))) i")
  case None
  with assms(3) show ?thesis by (simp add: run_intent_def Let_def entries_held_def)
next
  case (Some a)
  let ?ce = "env (rs_calls st)"
  obtain x w where x: "route D (ce_ids ?ce) (ce_places ?ce) (br_router r) a (rs_world st) = (x, w)" by fastforce
  show ?thesis
  proof (cases x)
    case (Inl e)
    show ?thesis by (rule entries_held_cong [OF _ _ assms(3)]) (simp_all add: run_intent_def Some x Inl Let_def)
  next
    case (Inr acks)
    from sim_entry_fill [OF x [unfolded Inr] assms(1)] obtain f where
      "0 < ap_quantity a" "ak_fills (ra_entry acks) = [f]" "fl_quantity f = ap_quantity a" by blast
    then show ?thesis
      by (intro entries_held_fill [OF assms(3) Some, of acks f])
        (simp_all add: assms(2) [OF Some] run_intent_def Some x Inr Let_def)
  qed
qed

lemma entries_held_intents:
  assumes "sim_only D show_uuid (br_router r)"
    and "\<And>fresh i a. br_risk r fresh i = Some a \<Longrightarrow> on_grid u (ap_quantity a)"
    and "entries_held D u (br_risk r) e0 st"
  shows "entries_held D u (br_risk r) e0 (run_intents D env r intents (st\<lparr>rs_calls := n\<rparr>))"
proof -
  have "entries_held D u (br_risk r) e0 (foldl (\<lambda>s i. run_intent D env r i s) s intents)"
    if "entries_held D u (br_risk r) e0 s" for s
    using that by (induction intents arbitrary: s) (simp_all add: entries_held_intent [OF assms(1,2)])
  then show ?thesis
    unfolding run_intents_def using assms(3) by (simp add: entries_held_def)
qed

lemma entries_invariant:
  assumes "sim_only D show_uuid (br_router r)"
    and "\<And>fresh i a. br_risk r fresh i = Some a \<Longrightarrow> on_grid u (ap_quantity a)"
  shows "run_invariant D env r (\<lambda>_. True) (entries_held D u (br_risk r) (br_portfolio r))"
  by unfold_locales (simp_all add: entries_held_mark entries_held_intents [OF assms])

subsection \<open>Properties of a run\<close>

definition peak_ok :: "dlib \<Rightarrow> dec \<Rightarrow> 'w run_state \<Rightarrow> bool" where
  "peak_ok D start st \<longleftrightarrow> equity D (rs_portfolio st) \<le> pe_peak_equity (rs_portfolio st) \<and>
     start \<le> pe_peak_equity (rs_portfolio st)"

lemma absorb_run: "absorb D a acks e = foldl (pe_step D (\<lambda>t. 0)) e (map (\<lambda>f. PFill
    (in_symbol (ti_instrument (ap_intent a))) (ti_side (ap_intent a)) (fl_quantity f) (fl_price f) (fl_fee f))
    (ak_fills (ra_entry acks)))"
  by (simp add: absorb_def foldl_map)

lemma run_intent_peak: "peak_ok D start st \<Longrightarrow> peak_ok D start (run_intent D env r i st)"
proof -
  assume p: "peak_ok D start st"
  have "peak_ok D start st'" if "rs_portfolio st' = absorb D a acks (rs_portfolio st)" for st' :: "'a run_state" and a acks
    using p pe_run_peak [of D "rs_portfolio st" "\<lambda>t. 0"] unfolding peak_ok_def that absorb_run
    by (meson order_trans)
  moreover have "peak_ok D start st'" if "rs_portfolio st' = rs_portfolio st" for st' :: "'a run_state"
    using p that by (simp add: peak_ok_def)
  ultimately show ?thesis
    by (auto simp: run_intent_def Let_def split: option.splits sum.splits prod.splits)
qed

interpretation peak: run_invariant D env r "\<lambda>_. True" "peak_ok D start"
proof unfold_locales
  show "peak_ok D start (mark_bar D b st)" if "peak_ok D start st" for b st
    using that pe_step_peak [of D "rs_portfolio st" "\<lambda>t. 0" "PMark (in_symbol (bar_instrument b)) (bar_close b)"]
    by (auto simp: peak_ok_def mark_bar_def)
  show "peak_ok D start (run_intents D env r intents (st\<lparr>rs_calls := n\<rparr>))" if "peak_ok D start st" for intents n st
  proof -
    have "peak_ok D start (foldl (\<lambda>s i. run_intent D env r i s) s intents)" if "peak_ok D start s" for s
      using that by (induction intents arbitrary: s) (simp_all add: run_intent_peak)
    then show ?thesis unfolding run_intents_def using that by (simp add: peak_ok_def)
  qed
qed simp

definition strategy_error_text :: "'s strategy_provider \<Rightarrow> run_mode \<Rightarrow> runtime_error \<Rightarrow> bool" where
  "strategy_error_text strategy mode e \<longleftrightarrow> (\<exists>fresh sig e'. sp_evaluate strategy fresh sig mode = Inl e' \<and>
     e = RuntimeInvalidConfig (show_strategy_error e'))"

lemma run_signals_error:
  "fst (run_signals D env r sigs st) = Some e \<Longrightarrow> strategy_error_text (br_strategy r) (rx_mode (br_ctx r)) e"
proof (induction sigs arbitrary: st)
  case (Cons sig sigs)
  show ?case
  proof (cases "sp_evaluate (br_strategy r) (ce_fresh (env (rs_calls st))) sig (rx_mode (br_ctx r))")
    case (Inl e')
    then show ?thesis using Cons.prems unfolding strategy_error_text_def
      by (intro exI [of _ "ce_fresh (env (rs_calls st))"] exI [of _ sig] exI [of _ e']) simp
  qed (use Cons in simp)
qed simp

lemma run_bars_error:
  "fst (run_bars D env r source bs q st) = Some e \<Longrightarrow> strategy_error_text (br_strategy r) (rx_mode (br_ctx r)) e"
proof (induction bs arbitrary: st q)
  case (Cons b bs)
  obtain sigs q' where s: "source (bar_open_time b) q = (sigs, q')" by fastforce
  obtain x st' where st': "run_signals D env r sigs (mark_bar D b st) = (x, st')" by fastforce
  show ?case
  proof (cases x)
    case None
    then show ?thesis using Cons s st' by simp
  next
    case (Some e')
    then show ?thesis using Cons.prems s st' run_signals_error [of D env r sigs "mark_bar D b st"] by simp
  qed
qed simp

text \<open>
  C0. The outcome of a backtest, for any strategy, signals, approval and adapters. A runner exists only
  for a backtest context. A run either handles every bar and reports the equity of its portfolio, which
  is at most the reported peak, as is the starting equity; or it ends in an error, which is the text of
  an error of the strategy and of nothing else: no refused order ends a run. In both cases no more
  orders are counted as filled than intents were approved, and no more approved than emitted.
\<close>

theorem backtest_outcome:
  assumes "runner_new ctx start now strategy router risk = Ok r" and "d_rnd D start = start"
    and "run D env r source bars q w = (res, st)"
  shows "rx_mode ctx = Backtest \<and>
    bk_orders_filled (rs_summary st) \<le> bk_intents_approved (rs_summary st) \<and>
    bk_intents_approved (rs_summary st) \<le> bk_intents_emitted (rs_summary st) \<and>
    (case res of
       Inr sm \<Rightarrow> sm = (rs_summary st)\<lparr>bk_bars_processed := length bars,
           bk_final_equity := equity D (rs_portfolio st), bk_peak_equity := pe_peak_equity (rs_portfolio st)\<rparr> \<and>
         bk_final_equity sm \<le> bk_peak_equity sm \<and> start \<le> bk_peak_equity sm
     | Inl e \<Rightarrow> bk_bars_processed (rs_summary st) \<le> length bars \<and>
         strategy_error_text strategy Backtest e)"
proof -
  let ?s = "\<lparr>rs_portfolio = br_portfolio r, rs_summary = summary_zero, rs_world = w, rs_calls = 0\<rparr>"
  from assms(1) have r: "rx_mode ctx = Backtest" "br_portfolio r = portfolio_new start now"
      "br_strategy r = strategy" "br_ctx r = ctx"
    by (auto simp: runner_new_def split: if_splits)
  have c: "counts_ok st"
    by (rule counts.run_keeps [OF _ assms(3)]) (simp add: counts_ok_def summary_zero_def)
  have p: "peak_ok D start st"
    by (rule peak.run_keeps [OF _ assms(3)])
      (simp add: peak_ok_def r equity_new [OF assms(2)], simp add: portfolio_new_def)
  note n = run_bars_count [of D env r source bars q ?s]
  obtain e st' where b: "run_bars D env r source bars q ?s = (e, st')" by fastforce
  show ?thesis
  proof (cases e)
    case None
    then have "st' = st" "bk_bars_processed (rs_summary st) = length bars"
        "res = Inr ((rs_summary st)\<lparr>bk_final_equity := equity D (rs_portfolio st),
           bk_peak_equity := pe_peak_equity (rs_portfolio st)\<rparr>)"
      using assms(3) b n by (auto simp: run_def Let_def portfolio_snapshot_def summary_zero_def)
    then show ?thesis using c p by (simp add: r counts_ok_def peak_ok_def)
  next
    case (Some e')
    then have "st' = st" "res = Inl e'" "bk_bars_processed (rs_summary st) \<le> length bars"
      using assms(3) b n by (auto simp: run_def summary_zero_def)
    then show ?thesis
      using c run_bars_error [of D env r source bars q ?s e'] b Some by (simp add: r counts_ok_def)
  qed
qed

text \<open>
  C0. What a backtest over the simulator holds. The net quantity of every instrument at the end is the
  sum of the signed entry quantities of approved intents, one for each order counted as filled. The
  stops and take profits, which the simulator fills when the bracket is placed, are never absorbed, so
  no position is ever closed or reduced by its own exits.
\<close>

theorem backtest_holds_entries:
  assumes "runner_new ctx start now strategy router risk = Ok r" and "grid D u"
    and "sim_only D show_uuid router" and "\<forall>fresh i a. risk fresh i = Some a \<longrightarrow> on_grid u (ap_quantity a)"
    and "run D env r source bars q w = (res, st)"
  shows "\<exists>as. length as = bk_orders_filled (rs_summary st) \<and> (\<forall>a \<in> set as. approved_by risk a) \<and>
    (\<forall>y. net_quantity (portfolio_position (rs_portfolio st) y) = entries_of y as)"
proof -
  from assms(1) have r: "br_portfolio r = portfolio_new start now" "br_router r = router" "br_risk r = risk"
    by (auto simp: runner_new_def split: if_splits)
  have i: "run_invariant D env r (\<lambda>_. True) (entries_held D u risk (portfolio_new start now))"
    using entries_invariant [of D show_uuid r u env] assms(3,4) by (simp add: r)
  have "entries_held D u risk (portfolio_new start now) st"
    by (rule run_invariant.run_keeps [OF i _ assms(5)])
      (auto simp: entries_held_def r entries_of_def summary_zero_def intro!: exI [of _ "[]"])
  then obtain as ops where h: "rs_portfolio st = foldl (pe_step D (\<lambda>t. 0)) (portfolio_new start now) ops"
    "\<forall>x \<in> set ops. fill_or_mark u x" "\<forall>y. sum_list (map (fill_qty y) ops) = entries_of y as"
    "length as = bk_orders_filled (rs_summary st)" "\<forall>a \<in> set as. approved_by risk a"
    unfolding entries_held_def by blast
  have ok: "\<forall>x \<in> set ops. pe_ok x" using h(2) by (metis fill_or_mark.simps(3) pe_ok.elims(3))
  have none: "portfolio_position (portfolio_new start now) y = None" for y
    by (simp add: portfolio_position_def portfolio_new_def)
  have "net_quantity (portfolio_position (rs_portfolio st) y) = entries_of y as" for y
    using view_run_nets [OF assms(2) h(2), of None y] h(3)
    by (simp add: h(1) pe_run_view [OF ok] none view_inv_def net_quantity_def)
  with h(4,5) show ?thesis by blast
qed

subsection \<open>Witnesses\<close>

text \<open>One bar with one signal; every intent is approved for one unit and routed to the simulator.\<close>

definition sample_bar :: bar where
  "sample_bar = \<lparr>bar_instrument = sample_instrument, bar_timeframe = H1, bar_open_time = 0, bar_open = 100,
     bar_high = 101, bar_low = 99, bar_close = 100, bar_volume = 5, bar_closed = True\<rparr>"

definition sample_context :: "run_mode \<Rightarrow> runtime_context" where
  "sample_context mode = \<lparr>rx_id = ''bt-1'', rx_mode = mode, rx_storage = \<lparr>ns_live_schema = ''public'',
     ns_dry_schema = ''dry'', ns_backtest_schema = ''bt''\<rparr>\<rparr>"

definition sample_strategy :: "f64 option strategy_provider" where
  "sample_strategy = \<lparr>sp_id = ''s'', sp_evaluate = (\<lambda>fresh sig mode. Ok [sample_intent Kelly])\<rparr>"

definition sample_env :: "nat \<Rightarrow> call_env" where
  "sample_env n = \<lparr>ce_fresh = (n, int n), ce_ids = Suc, ce_places = (\<lambda>i. (100 + i, int i))\<rparr>"

definition sample_router :: "sim_adapter router" where
  "sample_router = router_register Dry (sim_as_adapter exact_lib show_nat) hm_empty"

definition sample_runner :: "(f64 option, sim_adapter) backtest_runner" where
  "sample_runner = \<lparr>br_ctx = sample_context Backtest, br_strategy = sample_strategy, br_router = sample_router,
     br_portfolio = portfolio_new 1000 0, br_risk = (\<lambda>fresh i. Some sample_order_approval)\<rparr>"

definition sample_run :: "(runtime_error + backtest_summary) \<times> sim_adapter run_state" where
  "sample_run = run exact_lib sample_env sample_runner (\<lambda>t q. ([sample_detection (JObject [])], q)) [sample_bar] ()
     (sim_new 0 free_fees)"

lemma sample_runner_new: "runner_new (sample_context Backtest) 1000 0 sample_strategy sample_router
    (\<lambda>fresh i. Some sample_order_approval) = Ok sample_runner"
  by (simp add: runner_new_def sample_runner_def sample_context_def)

theorem backtest_outcome_witness:
  "\<exists>sm. fst sample_run = Ok sm \<and> bk_bars_processed sm = 1 \<and> 1000 \<le> bk_peak_equity sm"
proof -
  obtain res st where r: "sample_run = (res, st)" by fastforce
  have "\<not> strategy_error_text sample_strategy Backtest e" for e
    by (simp add: strategy_error_text_def sample_strategy_def)
  moreover note t = backtest_outcome [OF sample_runner_new _ r [unfolded sample_run_def]]
  ultimately obtain sm where sm: "res = Inr sm" by (cases res) auto
  with t have "bk_bars_processed sm = 1" "1000 \<le> bk_peak_equity sm" by auto
  then show ?thesis by (simp add: r sm)
qed

theorem backtest_holds_entries_witness:
  "net_quantity (portfolio_position (rs_portfolio (snd sample_run)) ''BTCUSDT'')
     = of_nat (bk_orders_filled (rs_summary (snd sample_run)))"
proof -
  obtain res st where r: "sample_run = (res, st)" by fastforce
  have s: "sim_only exact_lib show_nat sample_router"
    by (auto simp: sim_only_def sample_router_def router_register_def split: if_splits)
  have g: "\<forall>fresh i a. Some sample_order_approval = Some a \<longrightarrow> on_grid 1 (ap_quantity a)"
    using on_grid_one [of 1] by (simp add: sample_order_approval_def)
  from backtest_holds_entries [OF sample_runner_new exact_grid [OF exact_exact_lib] s g r [unfolded sample_run_def]]
  obtain as where a: "length as = bk_orders_filled (rs_summary st)"
    "\<forall>a \<in> set as. approved_by (\<lambda>fresh i. Some sample_order_approval) a"
    "net_quantity (portfolio_position (rs_portfolio st) ''BTCUSDT'') = entries_of ''BTCUSDT'' as" by blast
  have "entries_of ''BTCUSDT'' as = of_nat (length as)" if "\<forall>a \<in> set as. a = sample_order_approval" for as
    using that by (induction as)
      (simp_all add: entries_of_def sample_order_approval_def sample_instrument_def)
  moreover have "\<forall>a \<in> set as. a = sample_order_approval" using a(2) by (auto simp: approved_by_def)
  ultimately show ?thesis using a by (simp add: r)
qed

end
