(* ===== verification/OrderedMap.thy ===== *)
theory OrderedMap
  imports Prelude "HOL-Library.List_Lexorder" "HOL-Library.Char_ord"
begin

text \<open>
  \<open>BTreeMap\<close> and \<open>BTreeSet\<close> of the standard library: association lists in ascending order of their
  keys, which is the order in which they iterate, with the laws of the map as a locale. Strings are
  compared byte by byte, as \<open>str\<close> is.
\<close>

type_synonym ('k, 'v) btree = "('k \<times> 'v) list"

primrec bt_insert :: "'k::linorder \<Rightarrow> 'v \<Rightarrow> ('k, 'v) btree \<Rightarrow> ('k, 'v) btree" where
  "bt_insert k v [] = [(k, v)]"
| "bt_insert k v (x # m) = (if k < fst x then (k, v) # x # m
     else if k = fst x then (k, v) # m else x # bt_insert k v m)"

definition bt_get :: "('k, 'v) btree \<Rightarrow> 'k \<Rightarrow> 'v option" where
  "bt_get m k = map_of m k"

definition bt_keys :: "('k, 'v) btree \<Rightarrow> 'k list" where
  "bt_keys m = map fst m"

definition bt_collect :: "('k::linorder \<times> 'v) list \<Rightarrow> ('k, 'v) btree" where
  "bt_collect xs = foldl (\<lambda>m (k, v). bt_insert k v m) [] xs"

definition bt_set :: "'k::linorder list \<Rightarrow> 'k list" where
  "bt_set ks = bt_keys (bt_collect (map (\<lambda>k. (k, ())) ks))"

lemma bt_get_insert [simp]: "bt_get (bt_insert k v m) = (bt_get m)(k \<mapsto> v)"
  by (induction m) (auto simp: bt_get_def fun_eq_iff)

lemma bt_insert_keys: "set (bt_keys (bt_insert k v m)) = insert k (set (bt_keys m))"
  by (induction m) (auto simp: bt_keys_def)

lemma bt_insert_sorted: "sorted_wrt (<) (bt_keys m) \<Longrightarrow> sorted_wrt (<) (bt_keys (bt_insert k v m))"
proof (induction m)
  case (Cons x m)
  have "set (map fst (bt_insert k v m)) = insert k (set (map fst m))"
    using bt_insert_keys [of k v m] by (simp add: bt_keys_def)
  with Cons show ?case by (auto simp: bt_keys_def dest: less_trans)
qed (simp add: bt_keys_def)

text \<open>What a client of an ordered map relies on, and what collecting pairs into one gives.\<close>

locale ordered_map =
  fixes put :: "'k::linorder \<Rightarrow> 'v \<Rightarrow> 'm \<Rightarrow> 'm" and empty :: 'm
    and get :: "'m \<Rightarrow> 'k \<Rightarrow> 'v option" and keys :: "'m \<Rightarrow> 'k list"
  assumes get_empty: "get empty k = None"
    and get_put: "get (put k v m) = (get m)(k \<mapsto> v)"
    and keys_empty: "keys empty = []"
    and keys_put: "set (keys (put k v m)) = insert k (set (keys m))"
    and keys_sorted: "sorted_wrt (<) (keys m) \<Longrightarrow> sorted_wrt (<) (keys (put k v m))"
begin

definition collect :: "('k \<times> 'v) list \<Rightarrow> 'm" where
  "collect xs = foldl (\<lambda>m (k, v). put k v m) empty xs"

lemma collect_snoc: "collect (xs @ [x]) = put (fst x) (snd x) (collect xs)"
  by (simp add: collect_def split_def)

lemma get_collect: "get (collect xs) = map_of (rev xs)"
  by (induction xs rule: rev_induct) (auto simp: collect_snoc get_put fun_eq_iff collect_def get_empty)

lemma keys_collect: "set (keys (collect xs)) = fst ` set xs"
  by (induction xs rule: rev_induct) (simp_all add: collect_snoc keys_put, simp add: collect_def keys_empty)

lemma sorted_collect: "sorted_wrt (<) (keys (collect xs))"
  by (induction xs rule: rev_induct) (simp_all add: collect_snoc keys_sorted, simp add: collect_def keys_empty)

end

interpretation bt: ordered_map bt_insert "[]" bt_get bt_keys
  rewrites "ordered_map.collect bt_insert [] = bt_collect"
proof -
  show l: "ordered_map bt_insert [] bt_get bt_keys"
    by unfold_locales (simp_all add: bt_insert_keys bt_insert_sorted, simp_all add: bt_get_def bt_keys_def)
  show "ordered_map.collect bt_insert [] = bt_collect"
    by (rule ext) (simp add: ordered_map.collect_def [OF l] bt_collect_def)
qed

lemma bt_set_set: "set (bt_set ks) = set ks"
  by (simp add: bt_set_def bt.keys_collect image_image)

lemma bt_set_sorted: "sorted_wrt (<) (bt_set ks)"
  by (simp add: bt_set_def bt.sorted_collect)

lemma bt_entries:
  assumes "(k, v) \<in> set (bt_collect xs)"
  shows "bt_get (bt_collect xs) k = Some v"
proof -
  have "distinct (map fst (bt_collect xs))"
    using bt.sorted_collect [of xs] by (simp add: bt_keys_def strict_sorted_iff)
  then show ?thesis using assms by (simp add: bt_get_def)
qed

lemma bt_entries_iff: "(k, v) \<in> set (bt_collect xs) \<longleftrightarrow> bt_get (bt_collect xs) k = Some v"
  using bt_entries by (auto simp: bt_get_def dest: map_of_SomeD)

end
