(* ===== verification/AuditChain.thy ===== *)
theory AuditChain
  imports OrderedMap
begin

text \<open>
  \<open>qtss-audit\<close>: the canonical form of an event, the chain of row hashes and its verifier
  (\<open>chain.rs\<close>), the records (\<open>types.rs\<close>) and the sink that appends them (\<open>sink.rs\<close>). Bytes are
  characters. Three things of other crates are parameters: the digest \<open>H\<close> of \<open>sha2\<close>, the text of
  a JSON scalar that \<open>serde_json\<close> prints, and the bytes of a \<open>Uuid\<close>; \<open>hex\<close> only enters messages.
\<close>

subsection \<open>Data\<close>

record 's audit_event =
  ae_actor :: string
  ae_action :: string
  ae_subject :: string
  ae_payload :: "'s json"
  ae_correlation_id :: "uuid option"

record 's audit_record =
  ar_id :: int
  ar_at :: timestamp
  ar_actor :: string
  ar_action :: string
  ar_subject :: string
  ar_payload :: "'s json"
  ar_correlation_id :: "uuid option"
  ar_prev_hash :: "string option"
  ar_row_hash :: string

datatype audit_error = ChainBroken int string string | HashMismatch int string string

text \<open>What the crate takes from others.\<close>

record 's audit_lib =
  al_hash :: "string \<Rightarrow> string"
  al_scalar :: "'s \<Rightarrow> string"
  al_uuid :: "uuid \<Rightarrow> string"
  al_hex :: "string \<Rightarrow> string"

subsection \<open>The canonical form\<close>

fun join :: "string \<Rightarrow> string list \<Rightarrow> string" where
  "join sep [] = []"
| "join sep [x] = x"
| "join sep (x # y # xs) = x @ sep @ join sep (y # xs)"

primrec canonicalize_value :: "('s \<Rightarrow> string) \<Rightarrow> 's json \<Rightarrow> string" where
  "canonicalize_value sc (JScalar s) = sc s"
| "canonicalize_value sc (JArray items) =
     ''['' @ join '','' (map (canonicalize_value sc) items) @ '']''"
| "canonicalize_value sc (JObject kvs) =
     ''{'' @ join '','' (map (\<lambda>(k, t). k @ '':'' @ t)
       (sort_key fst (map (map_prod id (canonicalize_value sc)) kvs))) @ ''}''"

definition canonical_payload :: "'s audit_lib \<Rightarrow> 's audit_event \<Rightarrow> string" where
  "canonical_payload A e = ae_actor e @ [CHR 0x00] @ ae_action e @ [CHR 0x00] @ ae_subject e @ [CHR 0x00]
     @ (case ae_correlation_id e of Some c \<Rightarrow> al_uuid A c | None \<Rightarrow> []) @ [CHR 0x00]
     @ canonicalize_value (al_scalar A) (ae_payload e)"

definition hash_row :: "'s audit_lib \<Rightarrow> string option \<Rightarrow> string \<Rightarrow> string" where
  "hash_row A prev canonical = al_hash A ((case prev of Some h \<Rightarrow> h | None \<Rightarrow> []) @ canonical)"

subsection \<open>The verifier\<close>

definition event_of :: "'s audit_record \<Rightarrow> 's audit_event" where
  "event_of r = \<lparr>ae_actor = ar_actor r, ae_action = ar_action r, ae_subject = ar_subject r,
     ae_payload = ar_payload r, ae_correlation_id = ar_correlation_id r\<rparr>"

definition hex_or_empty :: "'s audit_lib \<Rightarrow> string option \<Rightarrow> string" where
  "hex_or_empty A h = (case h of Some x \<Rightarrow> al_hex A x | None \<Rightarrow> [])"

fun verify_from :: "'s audit_lib \<Rightarrow> string option \<Rightarrow> 's audit_record list \<Rightarrow> audit_error option" where
  "verify_from A expected [] = None"
| "verify_from A expected (r # rs) = (
     if ar_prev_hash r \<noteq> expected
     then Some (ChainBroken (ar_id r) (hex_or_empty A expected) (hex_or_empty A (ar_prev_hash r)))
     else let recomputed = hash_row A (ar_prev_hash r) (canonical_payload A (event_of r)) in
       if recomputed \<noteq> ar_row_hash r
       then Some (HashMismatch (ar_id r) (al_hex A (ar_row_hash r)) (al_hex A recomputed))
       else verify_from A (Some (ar_row_hash r)) rs)"

definition verify_chain :: "'s audit_lib \<Rightarrow> 's audit_record list \<Rightarrow> audit_error option" where
  "verify_chain A rs = verify_from A None rs"

subsection \<open>The sink\<close>

definition sink_append ::
  "'s audit_lib \<Rightarrow> timestamp \<Rightarrow> 's audit_event \<Rightarrow> 's audit_record list \<Rightarrow> 's audit_record list"
where
  "sink_append A now e rs = (let
       prev_hash = (if rs = [] then None else Some (ar_row_hash (last rs)));
       row_hash = hash_row A prev_hash (canonical_payload A e)
     in rs @ [\<lparr>ar_id = int (length rs) + 1, ar_at = now, ar_actor = ae_actor e, ar_action = ae_action e,
       ar_subject = ae_subject e, ar_payload = ae_payload e, ar_correlation_id = ae_correlation_id e,
       ar_prev_hash = prev_hash, ar_row_hash = row_hash\<rparr>])"

text \<open>The bytes that enter the digests of a chain.\<close>

definition row_input :: "'s audit_lib \<Rightarrow> 's audit_record \<Rightarrow> string" where
  "row_input A r = (case ar_prev_hash r of Some h \<Rightarrow> h | None \<Rightarrow> []) @ canonical_payload A (event_of r)"

definition head_hash :: "'s audit_record list \<Rightarrow> string option" where
  "head_hash rs = (if rs = [] then None else Some (ar_row_hash (last rs)))"

subsection \<open>Appending keeps the chain\<close>

lemma verify_from_snoc:
  "verify_from A p (rs @ [r]) = None \<longleftrightarrow> verify_from A p rs = None \<and>
     ar_prev_hash r = (if rs = [] then p else Some (ar_row_hash (last rs))) \<and>
     ar_row_hash r = al_hash A (row_input A r)"
  by (induction rs arbitrary: p) (auto simp: Let_def hash_row_def row_input_def)

lemma verify_chain_snoc:
  "verify_chain A (rs @ [r]) = None \<longleftrightarrow> verify_chain A rs = None \<and>
     ar_prev_hash r = head_hash rs \<and> ar_row_hash r = al_hash A (row_input A r)"
  by (simp add: verify_chain_def verify_from_snoc head_hash_def)

lemma verify_chain_Nil: "verify_chain A [] = None"
  by (simp add: verify_chain_def)

lemma sink_append_verify:
  "verify_chain A rs = None \<Longrightarrow> verify_chain A (sink_append A now e rs) = None"
  by (simp add: sink_append_def Let_def verify_chain_snoc head_hash_def row_input_def event_of_def
      hash_row_def canonical_payload_def)

text \<open>The log after appending timed events to an empty one.\<close>

definition sink_log :: "'s audit_lib \<Rightarrow> (timestamp \<times> 's audit_event) list \<Rightarrow> 's audit_record list" where
  "sink_log A es = foldl (\<lambda>rs (now, e). sink_append A now e rs) [] es"

lemma sink_log_Nil: "sink_log A [] = []"
  by (simp add: sink_log_def)

lemma sink_log_snoc: "sink_log A (es @ [x]) = sink_append A (fst x) (snd x) (sink_log A es)"
  by (simp add: sink_log_def split_def)

lemma sink_log_verify: "verify_chain A (sink_log A es) = None"
  by (induction es rule: rev_induct)
    (simp_all only: sink_log_snoc sink_append_verify sink_log_Nil verify_chain_Nil)

lemma sink_log_length [simp]: "length (sink_log A es) = length es"
  by (induction es rule: rev_induct) (simp_all add: sink_log_snoc sink_log_Nil sink_append_def Let_def)

lemma sink_log_events: "map event_of (sink_log A es) = map snd es"
  by (induction es rule: rev_induct)
    (simp_all add: sink_log_snoc sink_log_Nil sink_append_def event_of_def Let_def)

lemma sink_log_ids: "map ar_id (sink_log A es) = map int [1..<length es + 1]"
  by (induction es rule: rev_induct) (simp_all add: sink_log_snoc sink_log_Nil sink_append_def Let_def)

lemma sink_log_take: "take n (sink_log A es) = sink_log A (take n es)"
proof (induction es rule: rev_induct)
  case Nil
  then show ?case by (simp add: sink_log_Nil)
next
  case (snoc x es)
  have "take n (sink_log A (es @ [x])) = take n (sink_log A es)" if "n \<le> length es"
    using that by (simp add: sink_log_snoc sink_append_def Let_def)
  with snoc show ?case by (cases "n \<le> length es") simp_all
qed

text \<open>
  C0. A chain that only the sink wrote verifies. After appending any events to an empty log the
  verifier finds nothing, the records hold the events in order under the ids from one on, and the
  first \<open>n\<close> rows are the log of the first \<open>n\<close> events, so they verify too: cutting off the newest rows
  goes unnoticed.
\<close>

theorem appended_chain_verifies:
  "verify_chain A (sink_log A es) = None \<and> map event_of (sink_log A es) = map snd es \<and>
    map ar_id (sink_log A es) = map int [1..<length es + 1] \<and>
    take n (sink_log A es) = sink_log A (take n es) \<and> verify_chain A (take n (sink_log A es)) = None"
  by (simp only: sink_log_take sink_log_verify sink_log_events sink_log_ids)

subsection \<open>The head of a chain fixes the chain\<close>

lemma row_input_cong:
  assumes "row_input A r = row_input A s" "ar_prev_hash r = head_hash rs" "ar_prev_hash s = head_hash ss"
    and "length rs = length ss"
    and "\<And>x. x \<in> set rs \<union> set ss \<Longrightarrow> length (ar_row_hash x) = 32"
  shows "ar_prev_hash r = ar_prev_hash s"
    and "canonical_payload A (event_of r) = canonical_payload A (event_of s)"
proof -
  have l: "length (case head_hash rs of Some h \<Rightarrow> h | None \<Rightarrow> []) =
      length (case head_hash ss of Some h \<Rightarrow> h | None \<Rightarrow> [])"
    using assms(4, 5) by (auto simp: head_hash_def)
  then have "(case head_hash rs of Some h \<Rightarrow> h | None \<Rightarrow> []) = (case head_hash ss of Some h \<Rightarrow> h | None \<Rightarrow> [])
      \<and> canonical_payload A (event_of r) = canonical_payload A (event_of s)"
    using assms(1-3) by (simp add: row_input_def)
  then show "ar_prev_hash r = ar_prev_hash s"
    and "canonical_payload A (event_of r) = canonical_payload A (event_of s)"
    using assms(2-4) by (auto simp: head_hash_def split: if_splits)
qed

lemma verified_hash_length:
  assumes "verify_chain A rs = None" "\<forall>x. length (al_hash A x) = 32" "r \<in> set rs"
  shows "length (ar_row_hash r) = 32"
  using assms(1, 3)
  by (induction rs rule: rev_induct) (auto simp: verify_chain_snoc assms(2))

lemma heads_fix_chain:
  assumes "length rs = length ss" "verify_chain A rs = None" "verify_chain A ss = None"
    and "head_hash rs = head_hash ss" "\<forall>x. length (al_hash A x) = 32"
    and "inj_on (al_hash A) (row_input A ` (set rs \<union> set ss))"
  shows "map (canonical_payload A \<circ> event_of) rs = map (canonical_payload A \<circ> event_of) ss \<and>
    map ar_prev_hash rs = map ar_prev_hash ss \<and> map ar_row_hash rs = map ar_row_hash ss"
  using assms(1-4, 6)
proof (induction rs arbitrary: ss rule: rev_induct)
  case Nil
  then show ?case by simp
next
  case (snoc r rs)
  obtain ss' s where ss: "ss = ss' @ [s]" using snoc.prems(1) by (cases ss rule: rev_cases) auto
  note v = snoc.prems(2, 3) [unfolded ss verify_chain_snoc]
  have h: "ar_row_hash r = ar_row_hash s" using snoc.prems(4) by (simp add: ss head_hash_def)
  have "row_input A r = row_input A s"
    by (rule inj_onD [OF snoc.prems(5)]) (use v h in \<open>auto simp: ss\<close>)
  moreover have len: "length rs = length ss'" using snoc.prems(1) by (simp add: ss)
  moreover have "length (ar_row_hash x) = 32" if "x \<in> set rs \<union> set ss'" for x
    using that v assms(5) by (auto intro: verified_hash_length)
  ultimately have pc: "ar_prev_hash r = ar_prev_hash s"
      "canonical_payload A (event_of r) = canonical_payload A (event_of s)"
    using row_input_cong [of A r s rs ss'] v by blast+
  have "head_hash rs = head_hash ss'" using pc(1) v by simp
  moreover have "inj_on (al_hash A) (row_input A ` (set rs \<union> set ss'))"
    using snoc.prems(5) by (rule inj_on_subset) (auto simp: ss)
  ultimately show ?case using snoc.IH [OF len] v pc h by (simp add: ss)
qed

lemma NUL_prefix:
  assumes "x @ [CHR 0x00] @ u = y @ [CHR 0x00] @ v" "CHR 0x00 \<notin> set x" "CHR 0x00 \<notin> set y"
  shows "x = y \<and> u = v"
  using assms by (induction x arbitrary: y) (auto simp: Cons_eq_append_conv append_eq_Cons_conv)

definition nul_free :: "'s audit_event \<Rightarrow> bool" where
  "nul_free e \<longleftrightarrow> CHR 0x00 \<notin> set (ae_actor e) \<union> set (ae_action e) \<union> set (ae_subject e)"

lemma canonical_payload_names:
  assumes "canonical_payload A e = canonical_payload A f" "nul_free e" "nul_free f"
  shows "ae_actor e = ae_actor f \<and> ae_action e = ae_action f \<and> ae_subject e = ae_subject f"
  using assms NUL_prefix [of "ae_actor e" _ "ae_actor f"] NUL_prefix [of "ae_action e" _ "ae_action f"]
    NUL_prefix [of "ae_subject e" _ "ae_subject f"]
  unfolding canonical_payload_def nul_free_def by (metis (no_types, lifting) UnCI)

text \<open>
  C0. Who keeps the hash of the newest row can tell any rewriting of the rows below it. If two chains
  of the same length verify and end in the same row hash, and the digest is 32 bytes long and does not
  collide on the rows of the two chains, then all rows carry the same canonical payload and hashes;
  where the names hold no NUL byte, the actors, actions and subjects are the same.
\<close>

theorem equal_heads_equal_chains:
  assumes "length rs = length ss" "verify_chain A rs = None" "verify_chain A ss = None"
    and "head_hash rs = head_hash ss" "\<forall>x. length (al_hash A x) = 32"
    and "inj_on (al_hash A) (row_input A ` (set rs \<union> set ss))"
  shows "map (canonical_payload A \<circ> event_of) rs = map (canonical_payload A \<circ> event_of) ss \<and>
    map ar_prev_hash rs = map ar_prev_hash ss \<and> map ar_row_hash rs = map ar_row_hash ss \<and>
    (\<forall>i < length rs. nul_free (event_of (rs ! i)) \<and> nul_free (event_of (ss ! i)) \<longrightarrow>
       ar_actor (rs ! i) = ar_actor (ss ! i) \<and> ar_action (rs ! i) = ar_action (ss ! i) \<and>
       ar_subject (rs ! i) = ar_subject (ss ! i))"
proof -
  note * = heads_fix_chain [OF assms]
  have "canonical_payload A (event_of (rs ! i)) = canonical_payload A (event_of (ss ! i))"
    if "i < length rs" for i
    using * that assms(1) by (metis comp_apply nth_map)
  then show ?thesis
    using * canonical_payload_names [of A "event_of (rs ! i)" "event_of (ss ! i)" for i]
    by (simp add: event_of_def)
qed

definition witness_lib :: "string audit_lib" where
  "witness_lib = \<lparr>al_hash = (\<lambda>x. take 32 (rev x @ replicate 32 CHR ''z'')), al_scalar = id,
     al_uuid = (\<lambda>u. replicate 16 CHR ''u''), al_hex = id\<rparr>"

definition witness_event :: "string \<Rightarrow> string json \<Rightarrow> string audit_event" where
  "witness_event actor p = \<lparr>ae_actor = actor, ae_action = ''set'', ae_subject = ''k'',
     ae_payload = p, ae_correlation_id = None\<rparr>"

definition witness_chain :: "timestamp \<Rightarrow> string audit_record list" where
  "witness_chain t = sink_log witness_lib
     [(t, witness_event ''ann'' (JScalar ''1'')), (t + 1, witness_event ''bob'' (JScalar ''2''))]"

theorem equal_heads_equal_chains_witness:
  "witness_chain 5 \<noteq> witness_chain 9 \<and>
   map ar_row_hash (witness_chain 5) = map ar_row_hash (witness_chain 9)"
proof -
  have "map ar_at (witness_chain 5) = [5, 6]" "map ar_at (witness_chain 9) = [9, 10]"
    by (simp_all add: witness_chain_def sink_log_def sink_append_def Let_def)
  then have "witness_chain 5 \<noteq> witness_chain 9" by auto
  moreover have "length (witness_chain 5) = length (witness_chain 9)"
    by (simp add: witness_chain_def)
  moreover have "verify_chain witness_lib (witness_chain t) = None" for t
    by (simp add: witness_chain_def sink_log_verify)
  moreover have h: "head_hash (witness_chain 5) = head_hash (witness_chain 9)" by code_simp
  moreover have "\<forall>x. length (al_hash witness_lib x) = 32" by (simp add: witness_lib_def min_def)
  moreover have "inj_on (al_hash witness_lib)
      (row_input witness_lib ` (set (witness_chain 5) \<union> set (witness_chain 9)))"
    by code_simp
  ultimately show ?thesis using equal_heads_equal_chains [of "witness_chain 5" "witness_chain 9"] by blast
qed

subsection \<open>What the canonical form does not tell apart\<close>

lemma verify_from_same_payload:
  assumes "canonical_payload A (event_of r) = canonical_payload A (event_of s)"
    and "ar_prev_hash r = ar_prev_hash s" "ar_row_hash r = ar_row_hash s"
  shows "verify_from A p (rs @ r # ss) = None \<longleftrightarrow> verify_from A p (rs @ s # ss) = None"
  using assms by (induction rs arbitrary: p) (auto simp: Let_def)

text \<open>
  C0. The canonical form neither quotes nor escapes the keys of an object, so two different payloads
  can have the same form. In a verified chain the payload of any row with two fields can be replaced
  by an object with one field, whose key spells out the first field and the second key, and the chain
  still verifies.
\<close>

theorem payload_swap_undetected:
  assumes "verify_chain A (pre @ r # post) = None"
    and "ar_payload r = JObject [(k, JScalar u), (l, JScalar v)]" "k \<le> l"
  shows "verify_chain A
     (pre @ r\<lparr>ar_payload := JObject [(k @ '':'' @ al_scalar A u @ '','' @ l, JScalar v)]\<rparr> # post) = None"
  using assms verify_from_same_payload
    [of A r "r\<lparr>ar_payload := JObject [(k @ '':'' @ al_scalar A u @ '','' @ l, JScalar v)]\<rparr>" None pre post]
  by (simp add: verify_chain_def event_of_def canonical_payload_def)

theorem payload_swap_undetected_witness:
  "let r = hd (sink_log witness_lib
       [(5, witness_event ''ann'' (JObject [(''a'', JScalar ''1''), (''b'', JScalar ''2'')]))])
   in verify_chain witness_lib [r\<lparr>ar_payload := JObject [(''a:1,b'', JScalar ''2'')]\<rparr>] = None"
proof -
  define r where "r = hd (sink_log witness_lib
       [(5, witness_event ''ann'' (JObject [(''a'', JScalar ''1''), (''b'', JScalar ''2'')]))])"
  have "sink_log witness_lib
       [(5, witness_event ''ann'' (JObject [(''a'', JScalar ''1''), (''b'', JScalar ''2'')]))] = [r]"
    by (simp add: r_def sink_log_def sink_append_def Let_def)
  then have "verify_chain witness_lib ([] @ r # []) = None" by (metis append_Nil sink_log_verify)
  moreover have "ar_payload r = JObject [(''a'', JScalar ''1''), (''b'', JScalar ''2'')]"
    by (simp add: r_def sink_log_def sink_append_def Let_def witness_event_def)
  moreover have "''a'' \<le> ''b''" by code_simp
  ultimately show ?thesis using payload_swap_undetected [of witness_lib "[]" r "[]" "''a''" "''1''" "''b''" "''2''"]
    by (simp add: r_def [symmetric] Let_def) (simp add: witness_lib_def)
qed

end
