(* ===== verification/BrokerReconcile.thy ===== *)
theory BrokerReconcile
  imports Decimals OrderedMap
begin

text \<open>
  \<open>qtss-reconcile/src/v2.rs\<close>: the comparison of the positions and open orders of a broker with those
  of the engine. The debug assertion that both name the same venue is not part of a release build and
  is left out.
\<close>

subsection \<open>Data\<close>

record broker_position =
  bp_symbol :: string
  bp_net_qty :: dec
  bp_avg_entry :: dec

record engine_position =
  ep_symbol :: string
  ep_net_qty :: dec
  ep_avg_entry :: dec

record broker_open_order =
  bo_client_order_id :: string
  bo_symbol :: string
  bo_remaining_qty :: dec

record engine_open_order =
  eo_client_order_id :: string
  eo_symbol :: string
  eo_remaining_qty :: dec

record broker_snapshot =
  bs_venue :: string
  bs_positions :: "broker_position list"
  bs_open_orders :: "broker_open_order list"

record engine_snapshot =
  es_venue :: string
  es_positions :: "engine_position list"
  es_open_orders :: "engine_open_order list"

datatype drift_severity = SevNone | SevSoft | SevDrift | SevCritical

record position_drift =
  pd_symbol :: string
  pd_broker_qty :: dec
  pd_engine_qty :: dec
  pd_abs_delta :: dec
  pd_severity :: drift_severity

datatype order_drift_side = BrokerOnly | EngineOnly | QuantityMismatch

record order_drift =
  od_client_order_id :: string
  od_symbol :: string
  od_side :: order_drift_side

record reconcile_report =
  rp_venue :: string
  rp_positions :: "position_drift list"
  rp_orders :: "order_drift list"
  rp_overall :: drift_severity

definition is_clean :: "reconcile_report \<Rightarrow> bool" where
  "is_clean r \<longleftrightarrow> rp_overall r = SevNone"

record reconcile_tolerance =
  position_qty_eps :: dec

subsection \<open>Operations\<close>

definition classify_position :: "dec \<Rightarrow> dec \<Rightarrow> dec \<Rightarrow> reconcile_tolerance \<Rightarrow> drift_severity" where
  "classify_position broker engine delta tol = (
     let broker_flat = broker = 0; engine_flat = engine = 0 in
     if broker_flat \<noteq> engine_flat then SevCritical
     else if delta = 0 then SevNone
     else if (broker > 0) \<noteq> (engine > 0) then SevCritical
     else if delta \<le> position_qty_eps tol then SevSoft else SevDrift)"

definition unwrap_zero :: "dec option \<Rightarrow> dec" where
  "unwrap_zero q = (case q of Some x \<Rightarrow> x | None \<Rightarrow> 0)"

definition symbol_drift ::
  "dlib \<Rightarrow> reconcile_tolerance \<Rightarrow> (string, dec) btree \<Rightarrow> (string, dec) btree \<Rightarrow> string \<Rightarrow> position_drift option"
where
  "symbol_drift D tol broker engine symb = (let
       b = unwrap_zero (bt_get broker symb); e = unwrap_zero (bt_get engine symb);
       delta = \<bar>d_sub D b e\<bar>; severity = classify_position b e delta tol in
     if severity = SevNone then None
     else Some \<lparr>pd_symbol = symb, pd_broker_qty = b, pd_engine_qty = e, pd_abs_delta = delta,
       pd_severity = severity\<rparr>)"

definition diff_positions ::
  "dlib \<Rightarrow> broker_position list \<Rightarrow> engine_position list \<Rightarrow> reconcile_tolerance \<Rightarrow> position_drift list"
where
  "diff_positions D bp ep tol = (let
       broker = bt_collect (map (\<lambda>p. (bp_symbol p, bp_net_qty p)) bp);
       engine = bt_collect (map (\<lambda>p. (ep_symbol p, ep_net_qty p)) ep);
       symbols = bt_set (bt_keys broker @ bt_keys engine)
     in List.map_filter (symbol_drift D tol broker engine) symbols)"

definition broker_order_drift ::
  "(string, engine_open_order) btree \<Rightarrow> string \<times> broker_open_order \<Rightarrow> order_drift option"
where
  "broker_order_drift engine = (\<lambda>(oid, b). case bt_get engine oid of
       None \<Rightarrow> Some \<lparr>od_client_order_id = oid, od_symbol = bo_symbol b, od_side = BrokerOnly\<rparr>
     | Some e \<Rightarrow> if eo_remaining_qty e \<noteq> bo_remaining_qty b
         then Some \<lparr>od_client_order_id = oid, od_symbol = bo_symbol b, od_side = QuantityMismatch\<rparr>
         else None)"

definition engine_order_drift ::
  "(string, broker_open_order) btree \<Rightarrow> string \<times> engine_open_order \<Rightarrow> order_drift option"
where
  "engine_order_drift broker = (\<lambda>(oid, e). if bt_get broker oid = None
     then Some \<lparr>od_client_order_id = oid, od_symbol = eo_symbol e, od_side = EngineOnly\<rparr> else None)"

definition diff_orders :: "broker_open_order list \<Rightarrow> engine_open_order list \<Rightarrow> order_drift list" where
  "diff_orders bo eo = (let
       broker = bt_collect (map (\<lambda>b. (bo_client_order_id b, b)) bo);
       engine = bt_collect (map (\<lambda>e. (eo_client_order_id e, e)) eo)
     in List.map_filter (broker_order_drift engine) broker
        @ List.map_filter (engine_order_drift broker) engine)"

primrec sev_rank :: "drift_severity \<Rightarrow> nat" where
  "sev_rank SevNone = 0"
| "sev_rank SevSoft = 1"
| "sev_rank SevDrift = 2"
| "sev_rank SevCritical = 3"

definition max_sev :: "drift_severity \<Rightarrow> drift_severity \<Rightarrow> drift_severity" where
  "max_sev a b = (if sev_rank a \<ge> sev_rank b then a else b)"

definition roll_up :: "position_drift list \<Rightarrow> order_drift list \<Rightarrow> drift_severity" where
  "roll_up ps os = (let worst = foldl (\<lambda>w p. max_sev w (pd_severity p)) SevNone ps in
     if os \<noteq> [] then max_sev worst SevDrift else worst)"

definition reconcile ::
  "dlib \<Rightarrow> broker_snapshot \<Rightarrow> engine_snapshot \<Rightarrow> reconcile_tolerance \<Rightarrow> reconcile_report"
where
  "reconcile D broker engine tol = (let
       ps = diff_positions D (bs_positions broker) (es_positions engine) tol;
       os = diff_orders (bs_open_orders broker) (es_open_orders engine)
     in \<lparr>rp_venue = bs_venue broker, rp_positions = ps, rp_orders = os, rp_overall = roll_up ps os\<rparr>)"

subsection \<open>The order of severities\<close>

text \<open>The derived order of the severities; \<open>max_sev\<close> is its maximum.\<close>

instantiation drift_severity :: linorder
begin

definition less_eq_drift_severity :: "drift_severity \<Rightarrow> drift_severity \<Rightarrow> bool" where
  "a \<le> b \<longleftrightarrow> sev_rank a \<le> sev_rank b"

definition less_drift_severity :: "drift_severity \<Rightarrow> drift_severity \<Rightarrow> bool" where
  "a < b \<longleftrightarrow> sev_rank a < sev_rank b"

instance
proof
  fix x y :: drift_severity
  show "x = y" if "x \<le> y" "y \<le> x"
    using that by (cases x; cases y) (simp_all add: less_eq_drift_severity_def)
qed (auto simp: less_eq_drift_severity_def less_drift_severity_def)

end

lemma sev_simps [simp]:
  "SevNone \<le> s" "s \<le> SevCritical" "s \<le> SevNone \<longleftrightarrow> s = SevNone" "SevCritical \<le> s \<longleftrightarrow> s = SevCritical"
  by (cases s; simp add: less_eq_drift_severity_def)+

lemma max_sev_max: "max_sev a b = max a b"
  by (cases a; cases b) (simp_all add: max_sev_def max_def less_eq_drift_severity_def)

lemma max_sev_extremes [simp]:
  "max_sev a b = SevNone \<longleftrightarrow> a = SevNone \<and> b = SevNone"
  "max_sev a b = SevCritical \<longleftrightarrow> a = SevCritical \<or> b = SevCritical"
  by (cases a; cases b; simp add: max_sev_def)+

lemma fold_sev_extremes:
  "foldl (\<lambda>w p. max_sev w (pd_severity p)) s ps = SevNone \<longleftrightarrow> s = SevNone \<and> (\<forall>p \<in> set ps. pd_severity p = SevNone)"
  "foldl (\<lambda>w p. max_sev w (pd_severity p)) s ps = SevCritical \<longleftrightarrow>
     s = SevCritical \<or> (\<exists>p \<in> set ps. pd_severity p = SevCritical)"
  by (induction ps arbitrary: s) auto

lemma roll_up_extremes:
  "roll_up ps os = SevNone \<longleftrightarrow> (\<forall>p \<in> set ps. pd_severity p = SevNone) \<and> os = []"
  "roll_up ps os = SevCritical \<longleftrightarrow> (\<exists>p \<in> set ps. pd_severity p = SevCritical)"
  by (auto simp: roll_up_def Let_def fold_sev_extremes)

lemma fold_sev_Max:
  "foldl (\<lambda>w p. max_sev w (pd_severity p)) s ps = Max (insert s (pd_severity ` set ps))"
proof (induction ps rule: rev_induct)
  case (snoc p ps)
  then show ?case by (cases "ps = []") (simp_all add: max_sev_max max.commute max.left_commute)
qed simp

lemma roll_up_Max:
  "roll_up ps os = Max (insert SevNone (pd_severity ` set ps) \<union> (if os = [] then {} else {SevDrift}))"
  unfolding roll_up_def Let_def fold_sev_Max unfolding max_sev_max by (simp add: max.commute insert_commute)

subsection \<open>What the comparison lists\<close>

lemma classify_exact:
  "classify_position b e \<bar>b - e\<bar> tol = (if b = e then SevNone else if b * e \<le> 0 then SevCritical
     else if \<bar>b - e\<bar> \<le> position_qty_eps tol then SevSoft else SevDrift)"
  by (auto simp: classify_position_def Let_def mult_le_0_iff not_less)

text \<open>The quantity and the order that the rows of one side give: the last row of a symbol or id.\<close>

definition broker_qty :: "broker_snapshot \<Rightarrow> string \<Rightarrow> dec" where
  "broker_qty b symb = unwrap_zero (map_of (rev (map (\<lambda>p. (bp_symbol p, bp_net_qty p)) (bs_positions b))) symb)"

definition engine_qty :: "engine_snapshot \<Rightarrow> string \<Rightarrow> dec" where
  "engine_qty e symb = unwrap_zero (map_of (rev (map (\<lambda>p. (ep_symbol p, ep_net_qty p)) (es_positions e))) symb)"

definition broker_order :: "broker_snapshot \<Rightarrow> string \<Rightarrow> broker_open_order option" where
  "broker_order b = map_of (rev (map (\<lambda>x. (bo_client_order_id x, x)) (bs_open_orders b)))"

definition engine_order :: "engine_snapshot \<Rightarrow> string \<Rightarrow> engine_open_order option" where
  "engine_order e = map_of (rev (map (\<lambda>x. (eo_client_order_id x, x)) (es_open_orders e)))"

definition expected_drift :: "reconcile_tolerance \<Rightarrow> string \<Rightarrow> dec \<Rightarrow> dec \<Rightarrow> position_drift" where
  "expected_drift tol symb b e = \<lparr>pd_symbol = symb, pd_broker_qty = b, pd_engine_qty = e,
     pd_abs_delta = \<bar>b - e\<bar>, pd_severity = (if b * e \<le> 0 then SevCritical
       else if \<bar>b - e\<bar> \<le> position_qty_eps tol then SevSoft else SevDrift)\<rparr>"

definition snapshots_on_grid :: "rat \<Rightarrow> broker_snapshot \<Rightarrow> engine_snapshot \<Rightarrow> bool" where
  "snapshots_on_grid u b e \<longleftrightarrow> (\<forall>p \<in> set (bs_positions b). on_grid u (bp_net_qty p)) \<and>
     (\<forall>p \<in> set (es_positions e). on_grid u (ep_net_qty p))"

lemma quantities_on_grid:
  assumes "snapshots_on_grid u b e"
  shows "on_grid u (broker_qty b symb)" "on_grid u (engine_qty e symb)"
  using assms by (auto simp: snapshots_on_grid_def broker_qty_def engine_qty_def unwrap_zero_def
      dest!: map_of_SomeD split: option.splits)

lemma symbol_drift_exact:
  assumes "grid D u" "snapshots_on_grid u b e"
  shows "symbol_drift D tol (bt_collect (map (\<lambda>p. (bp_symbol p, bp_net_qty p)) (bs_positions b)))
      (bt_collect (map (\<lambda>p. (ep_symbol p, ep_net_qty p)) (es_positions e))) symb
    = (if broker_qty b symb = engine_qty e symb then None
       else Some (expected_drift tol symb (broker_qty b symb) (engine_qty e symb)))"
proof -
  have "symbol_drift D tol (bt_collect (map (\<lambda>p. (bp_symbol p, bp_net_qty p)) (bs_positions b)))
      (bt_collect (map (\<lambda>p. (ep_symbol p, ep_net_qty p)) (es_positions e))) symb =
    (let b = broker_qty b symb; e = engine_qty e symb; sev = classify_position b e \<bar>b - e\<bar> tol in
     if sev = SevNone then None else Some \<lparr>pd_symbol = symb, pd_broker_qty = b, pd_engine_qty = e,
       pd_abs_delta = \<bar>b - e\<bar>, pd_severity = sev\<rparr>)"
    using grid_sub [OF assms(1) quantities_on_grid [OF assms(2)], of symb symb]
    by (simp add: symbol_drift_def bt.get_collect broker_qty_def engine_qty_def Let_def)
  then show ?thesis by (simp add: classify_exact expected_drift_def Let_def)
qed

lemma differing_symbol_listed:
  assumes "broker_qty b symb \<noteq> engine_qty e symb"
  shows "symb \<in> bp_symbol ` set (bs_positions b) \<union> ep_symbol ` set (es_positions e)"
proof (rule ccontr)
  assume "\<not> ?thesis"
  then have "map_of (rev (map (\<lambda>p. (bp_symbol p, bp_net_qty p)) (bs_positions b))) symb = None"
    "map_of (rev (map (\<lambda>p. (ep_symbol p, ep_net_qty p)) (es_positions e))) symb = None"
    by (auto simp: map_of_eq_None_iff)
  with assms show False by (simp add: broker_qty_def engine_qty_def)
qed

lemma if_None_Some: "(if P then None else Some x) = Some y \<longleftrightarrow> \<not> P \<and> y = x"
  by auto

lemma Collect_bex: "(\<And>s. P s \<Longrightarrow> s \<in> S) \<Longrightarrow> {d. \<exists>s \<in> S. P s \<and> d = F s} = {F s | s. P s}"
  by blast

lemma diff_positions_set:
  assumes "grid D u" "snapshots_on_grid u b e"
  shows "set (diff_positions D (bs_positions b) (es_positions e) tol) =
    {expected_drift tol symb (broker_qty b symb) (engine_qty e symb) | symb. broker_qty b symb \<noteq> engine_qty e symb}"
proof -
  have "set (diff_positions D (bs_positions b) (es_positions e) tol) =
    {d. \<exists>symb \<in> bp_symbol ` set (bs_positions b) \<union> ep_symbol ` set (es_positions e).
       broker_qty b symb \<noteq> engine_qty e symb \<and>
       d = expected_drift tol symb (broker_qty b symb) (engine_qty e symb)}"
    unfolding diff_positions_def Let_def set_map_filter symbol_drift_exact [OF assms] bt_set_set set_append
      bt.keys_collect set_map image_image fst_conv if_None_Some by simp
  then show ?thesis by (simp only:) (rule Collect_bex, rule differing_symbol_listed)
qed

lemma map_filter_keys_sorted:
  assumes "sorted_wrt (<) xs" "\<And>x d. x \<in> set xs \<Longrightarrow> f x = Some d \<Longrightarrow> g d = x"
  shows "sorted_wrt (<) (map g (List.map_filter f xs))"
  using assms
proof (induction xs)
  case (Cons x xs)
  have "x < g d" if "d \<in> set (List.map_filter f xs)" for d
  proof -
    from that obtain y where "y \<in> set xs" "f y = Some d" by (auto simp: set_map_filter)
    with Cons.prems show ?thesis by auto
  qed
  moreover have "g d = x" if "f x = Some d" for d using Cons.prems(2) that by simp
  ultimately show ?case using Cons by (cases "f x") (simp_all add: List.map_filter_simps, blast)
qed (simp add: List.map_filter_simps)

lemma diff_positions_sorted:
  assumes "grid D u" "snapshots_on_grid u b e"
  shows "sorted_wrt (<) (map pd_symbol (diff_positions D (bs_positions b) (es_positions e) tol))"
  unfolding diff_positions_def Let_def
  by (rule map_filter_keys_sorted [OF bt_set_sorted])
    (auto simp: symbol_drift_exact [OF assms] expected_drift_def split: if_splits)

definition order_disagreement :: "broker_open_order option \<Rightarrow> engine_open_order option \<Rightarrow> order_drift_side option" where
  "order_disagreement b e = (case (b, e) of (None, None) \<Rightarrow> None | (Some _, None) \<Rightarrow> Some BrokerOnly
     | (None, Some _) \<Rightarrow> Some EngineOnly
     | (Some x, Some y) \<Rightarrow> if bo_remaining_qty x = eo_remaining_qty y then None else Some QuantityMismatch)"

lemma map_filter_entries:
  assumes "\<And>k x d. f (k, x) = Some d \<Longrightarrow> od_client_order_id d = k"
  shows "(\<exists>d \<in> set (List.map_filter f (bt_collect xs)). od_client_order_id d = oid \<and> P d) \<longleftrightarrow>
    (\<exists>x d. map_of (rev xs) oid = Some x \<and> f (oid, x) = Some d \<and> P d)"
proof
  assume "\<exists>d \<in> set (List.map_filter f (bt_collect xs)). od_client_order_id d = oid \<and> P d"
  then obtain d k x where d: "P d" "od_client_order_id d = oid" "f (k, x) = Some d" "(k, x) \<in> set (bt_collect xs)"
    by (auto simp: set_map_filter)
  with assms have "k = oid" by blast
  with d show "\<exists>x d. map_of (rev xs) oid = Some x \<and> f (oid, x) = Some d \<and> P d"
    by (auto simp: bt_entries_iff bt.get_collect)
next
  assume "\<exists>x d. map_of (rev xs) oid = Some x \<and> f (oid, x) = Some d \<and> P d"
  then obtain x d where d: "map_of (rev xs) oid = Some x" "f (oid, x) = Some d" "P d" by blast
  then have "(oid, x) \<in> set (bt_collect xs)" by (simp add: bt_entries_iff bt.get_collect)
  with d show "\<exists>d \<in> set (List.map_filter f (bt_collect xs)). od_client_order_id d = oid \<and> P d"
    by (auto simp: set_map_filter intro: assms)
qed

lemma order_drift_ids:
  "broker_order_drift E (k, x) = Some d \<Longrightarrow> od_client_order_id d = k"
  "engine_order_drift B (k, y) = Some d \<Longrightarrow> od_client_order_id d = k"
  by (auto simp: broker_order_drift_def engine_order_drift_def split: option.splits if_splits)

lemma broker_drift_entries:
  "(\<exists>d \<in> set (List.map_filter (broker_order_drift E) (bt_collect xs)). od_client_order_id d = oid \<and> od_side d = side)
    \<longleftrightarrow> (\<exists>x d. map_of (rev xs) oid = Some x \<and> broker_order_drift E (oid, x) = Some d \<and> od_side d = side)"
  by (rule map_filter_entries) (rule order_drift_ids)

lemma engine_drift_entries:
  "(\<exists>d \<in> set (List.map_filter (engine_order_drift B) (bt_collect xs)). od_client_order_id d = oid \<and> od_side d = side)
    \<longleftrightarrow> (\<exists>x d. map_of (rev xs) oid = Some x \<and> engine_order_drift B (oid, x) = Some d \<and> od_side d = side)"
  by (rule map_filter_entries) (rule order_drift_ids)

lemma diff_orders_sides:
  "(\<exists>d \<in> set (diff_orders (bs_open_orders b) (es_open_orders e)). od_client_order_id d = oid \<and> od_side d = side)
     \<longleftrightarrow> order_disagreement (broker_order b oid) (engine_order e oid) = Some side"
  unfolding diff_orders_def Let_def set_append bex_Un broker_drift_entries engine_drift_entries
  by (cases "broker_order b oid"; cases "engine_order e oid")
    (auto simp: broker_order_drift_def engine_order_drift_def broker_order_def engine_order_def
      order_disagreement_def bt.get_collect)

lemma diff_orders_empty:
  "diff_orders (bs_open_orders b) (es_open_orders e) = [] \<longleftrightarrow>
    (\<forall>oid. map_option bo_remaining_qty (broker_order b oid) = map_option eo_remaining_qty (engine_order e oid))"
proof -
  have "diff_orders (bs_open_orders b) (es_open_orders e) = [] \<longleftrightarrow>
    \<not> (\<exists>oid side. \<exists>d \<in> set (diff_orders (bs_open_orders b) (es_open_orders e)).
        od_client_order_id d = oid \<and> od_side d = side)"
    by (metis list.set_intros(1) neq_Nil_conv emptyE list.set(1))
  also have "\<dots> \<longleftrightarrow> (\<forall>oid. order_disagreement (broker_order b oid) (engine_order e oid) = None)"
    unfolding diff_orders_sides by (metis not_None_eq)
  also have "\<dots> \<longleftrightarrow> (\<forall>oid. map_option bo_remaining_qty (broker_order b oid) =
      map_option eo_remaining_qty (engine_order e oid))"
    by (rule all_cong1) (auto simp: order_disagreement_def split: option.splits)
  finally show ?thesis .
qed

text \<open>
  C0. What a reconciliation reports, for quantities on a grid the decimals represent, where the last
  row of a symbol or order id stands for it. A position drift is listed, in the order of the symbols,
  exactly for the symbols whose two quantities differ, critical when one of them is zero or the signs
  differ, soft within the tolerance; an order drift exactly for the ids that one side lacks or whose
  remaining quantities differ. The overall severity is the worst of the drifts, any order drift
  counting as a drift; the report is clean exactly when all quantities and open orders agree.
\<close>

theorem reconcile_exact:
  assumes "grid D u" "snapshots_on_grid u broker engine"
  shows "let r = reconcile D broker engine tol; b = broker_qty broker; e = engine_qty engine in
    set (rp_positions r) = {expected_drift tol symb (b symb) (e symb) | symb. b symb \<noteq> e symb} \<and>
    sorted_wrt (<) (map pd_symbol (rp_positions r)) \<and>
    (\<forall>oid side. (\<exists>d \<in> set (rp_orders r). od_client_order_id d = oid \<and> od_side d = side) \<longleftrightarrow>
       order_disagreement (broker_order broker oid) (engine_order engine oid) = Some side) \<and>
    rp_overall r = Max (insert SevNone (pd_severity ` set (rp_positions r))
       \<union> (if rp_orders r = [] then {} else {SevDrift})) \<and>
    (is_clean r \<longleftrightarrow> (\<forall>symb. b symb = e symb) \<and> (\<forall>oid. map_option bo_remaining_qty (broker_order broker oid) =
       map_option eo_remaining_qty (engine_order engine oid))) \<and>
    (rp_overall r = SevCritical \<longleftrightarrow> (\<exists>symb. b symb \<noteq> e symb \<and> b symb * e symb \<le> 0))"
proof -
  have n: "pd_severity (expected_drift tol symb b e) \<noteq> SevNone" for symb b e
    by (simp add: expected_drift_def)
  have c: "pd_severity (expected_drift tol symb b e) = SevCritical \<longleftrightarrow> b * e \<le> 0" for symb b e
    by (simp add: expected_drift_def)
  show ?thesis
    unfolding Let_def reconcile_def is_clean_def reconcile_report.select_convs
      diff_positions_set [OF assms] diff_orders_sides roll_up_extremes diff_orders_empty [symmetric]
    by (auto simp: n c diff_positions_sorted [OF assms] roll_up_Max diff_positions_set [OF assms])
qed

theorem reconcile_exact_witness:
  "let r = reconcile lib28
      \<lparr>bs_venue = ''sim'', bs_positions = [\<lparr>bp_symbol = ''BTC'', bp_net_qty = 2, bp_avg_entry = 100\<rparr>],
        bs_open_orders = []\<rparr>
      \<lparr>es_venue = ''sim'', es_positions = [\<lparr>ep_symbol = ''BTC'', ep_net_qty = -1, ep_avg_entry = 100\<rparr>],
        es_open_orders = []\<rparr> \<lparr>position_qty_eps = 1 / 100\<rparr>
    in rp_overall r = SevCritical \<and> \<not> is_clean r"
proof -
  let ?b = "\<lparr>bs_venue = ''sim'', bs_positions = [\<lparr>bp_symbol = ''BTC'', bp_net_qty = 2, bp_avg_entry = 100\<rparr>],
      bs_open_orders = []\<rparr>"
  let ?e = "\<lparr>es_venue = ''sim'', es_positions = [\<lparr>ep_symbol = ''BTC'', ep_net_qty = -1, ep_avg_entry = 100\<rparr>],
      es_open_orders = []\<rparr>"
  have g: "snapshots_on_grid 1 ?b ?e"
    using on_grid_one [of 2] on_grid_one [of "-1"] by (simp add: snapshots_on_grid_def)
  have q: "broker_qty ?b ''BTC'' = 2" "engine_qty ?e ''BTC'' = -1"
    by (simp_all add: broker_qty_def engine_qty_def unwrap_zero_def)
  have "broker_qty ?b ''BTC'' \<noteq> engine_qty ?e ''BTC'' \<and> broker_qty ?b ''BTC'' * engine_qty ?e ''BTC'' \<le> 0"
    by (simp add: q)
  then show ?thesis
    using reconcile_exact [OF grid_lib28_one g, of "\<lparr>position_qty_eps = 1 / 100\<rparr>"] unfolding Let_def by blast
qed

end
