(* ===== verification/Spec2Isabelle.thy ===== *)
theory Spec2Isabelle
  imports TickDispatcher Allocator DriftGuard RiskReconcile BacktestRun AuditChain BrokerReconcile
begin

text \<open>
  HEADER
\<close>

section \<open>The threshold strategy against the risk engine\<close>

text \<open>The risk engine as the approval closure of a backtest; \<open>account\<close> is what the caller reads of the account.\<close>

definition engine_approver ::
  "dlib \<Rightarrow> risk_engine \<Rightarrow> (uuid \<times> timestamp \<Rightarrow> trade_intent \<Rightarrow> account_state) \<Rightarrow> risk_approver"
where
  "engine_approver D eng account fresh i = (case approve D eng (fst fresh) (snd fresh) i (account fresh i) of
     Inr a \<Rightarrow> Some a | Inl e \<Rightarrow> None)"

lemma approve_needs_entry:
  assumes "ti_entry_price i = None"
  shows "\<exists>e. approve D eng new_id now i s = Err e"
  unfolding approve_def and_then_def ok_or_def by (auto simp: assms split: sum.splits option.splits)

lemma engine_approver_None: "ti_entry_price i = None \<Longrightarrow> engine_approver D eng account fresh i = None"
  using approve_needs_entry [of i D eng "fst fresh" "snd fresh" "account fresh i"]
  by (auto simp: engine_approver_def)

definition untouched :: "portfolio \<Rightarrow> 'w \<Rightarrow> 'w run_state \<Rightarrow> bool" where
  "untouched e w st \<longleftrightarrow> rs_portfolio st = e \<and> rs_world st = w \<and>
     bk_intents_approved (rs_summary st) = 0 \<and> bk_orders_filled (rs_summary st) = 0"

lemma mark_new:
  assumes "d_rnd D start = start"
  shows "portfolio_mark D y x (portfolio_new start now) = portfolio_new start now"
proof -
  have "mark_one D y x (portfolio_new start now) = portfolio_new start now"
    by (simp add: mark_one_def portfolio_new_def)
  then show ?thesis
    by (simp add: portfolio_mark_def refresh_peak_def equity_new [OF assms] Let_def) (simp add: portfolio_new_def)
qed

lemma run_intent_refused:
  "br_risk r (ce_fresh (env (rs_calls st))) i = None \<Longrightarrow> untouched e w st \<Longrightarrow> untouched e w (run_intent D env r i st)"
  by (simp add: run_intent_def untouched_def Let_def)

lemma run_intents_refused:
  assumes "\<And>i fresh. i \<in> set intents \<Longrightarrow> br_risk r fresh i = None" "untouched e w st"
  shows "untouched e w (run_intents D env r intents (st\<lparr>rs_calls := n\<rparr>))"
proof -
  have "untouched e w (foldl (\<lambda>s i. run_intent D env r i s) s intents)" if "untouched e w s" for s
    using that assms(1) by (induction intents arbitrary: s) (simp_all add: run_intent_refused)
  then show ?thesis using assms(2) by (simp add: run_intents_def untouched_def)
qed

lemma threshold_run_invariant:
  assumes "d_rnd D start = start" "br_strategy r = threshold_provider D num st" "br_risk r = engine_approver D eng account"
  shows "run_invariant D env r (\<lambda>i. ti_entry_price i = None) (untouched (portfolio_new start now) w)"
proof unfold_locales
  show "ti_entry_price i = None"
    if "sp_evaluate (br_strategy r) fresh sig mode = Inr intents" "i \<in> set intents" for fresh sig mode intents i
    using that threshold_intents(1) [of D num st fresh sig mode intents i] by (simp add: assms(2) threshold_provider_def)
  show "untouched (portfolio_new start now) w (mark_bar D b s)" if "untouched (portfolio_new start now) w s" for b s
    using that by (simp add: untouched_def mark_bar_def mark_new [OF assms(1)])
  show "untouched (portfolio_new start now) w (run_intents D env r intents (s\<lparr>rs_calls := n\<rparr>))"
    if "\<forall>i \<in> set intents. ti_entry_price i = None" "untouched (portfolio_new start now) w s" for intents n s
    by (rule run_intents_refused) (use that in \<open>auto simp: assms(3) engine_approver_None\<close>)
qed

lemma threshold_never_fails: "\<not> strategy_error_text (threshold_provider D num st) mode e"
  by (simp add: strategy_error_text_def threshold_provider_def threshold_evaluate_def Let_def)

text \<open>
  C0. The built-in strategy never trades through the risk engine. Whatever the bars, the detections, the
  account, the configuration, the checks, the sizers and the adapters are, a backtest that runs the
  confidence threshold strategy with the risk engine as its approval handles every bar, approves none of
  the intents it emits, places no order with any adapter and ends with the starting equity: the strategy
  leaves the entry price of every intent open and the engine refuses an intent without one.
\<close>

theorem threshold_strategy_never_trades:
  assumes "runner_new ctx start now (threshold_provider D num st) router (engine_approver D eng account) = Ok r"
    and "d_rnd D start = start"
  shows "\<exists>sm final. run D env r source bars q w = (Ok sm, final) \<and> bk_bars_processed sm = length bars \<and>
    bk_intents_approved sm = 0 \<and> bk_orders_filled sm = 0 \<and> bk_final_equity sm = start \<and>
    bk_peak_equity sm = start \<and> rs_world final = w \<and> rs_portfolio final = portfolio_new start now"
proof -
  let ?s = "\<lparr>rs_portfolio = br_portfolio r, rs_summary = summary_zero, rs_world = w, rs_calls = 0\<rparr>"
  from assms(1) have r: "br_portfolio r = portfolio_new start now" "br_strategy r = threshold_provider D num st"
      "br_risk r = engine_approver D eng account"
    by (auto simp: runner_new_def split: if_splits)
  obtain e final where b: "run_bars D env r source bars q ?s = (e, final)" by fastforce
  have e: "e = None"
    using run_bars_error [of D env r source bars q ?s] b by (cases e) (simp_all add: r(2) threshold_never_fails)
  have "untouched (portfolio_new start now) w (snd (run_bars D env r source bars q ?s))"
    by (rule run_invariant.bars_keep [OF threshold_run_invariant [OF assms(2) r(2,3)]])
      (simp add: untouched_def r(1) summary_zero_def)
  then have u: "untouched (portfolio_new start now) w final" by (simp add: b)
  have "bk_bars_processed (rs_summary final) = length bars"
    using run_bars_count [of D env r source bars q ?s] unfolding b e by (simp add: summary_zero_def)
  then show ?thesis
    using u by (simp add: run_def b e untouched_def Let_def portfolio_snapshot_def equity_new [OF assms(2)])
      (simp add: portfolio_new_def)
qed

section \<open>The portfolio against the risk engine\<close>

lemma drawdown_at_peak:
  assumes "exact D" "as_peak_equity s = p" "0 < p" "k * p \<le> p - as_equity s"
  shows "k \<le> drawdown D s"
proof -
  have "k \<le> (p - as_equity s) / p" using assms(3,4) by (simp add: pos_le_divide_eq)
  then show ?thesis using assms(2,3) by (auto simp: drawdown_def exact_simps [OF assms(1)] Let_def)
qed

lemma kill_switch_refuses:
  assumes "kill_switch_check D \<in> set (re_checks eng)" "rk_killswitch_drawdown (re_config eng) \<le> drawdown D s"
  shows "\<exists>rej. approve D eng new_id now intent s = Err rej"
proof -
  have n: "rc_evaluate (kill_switch_check D) intent s (re_config eng) \<noteq> None"
    using assms(2) by (simp add: kill_switch_check_def)
  have "\<not> (\<forall>c \<in> set (re_checks eng). rc_evaluate c intent s (re_config eng) = None)"
    using n assms(1) by auto
  then have "\<not> (\<exists>ns. walk_checks intent s (re_config eng) (re_checks eng) [] = Inr ns)"
    by (simp add: walk_checks_Ok)
  then obtain x where "walk_checks intent s (re_config eng) (re_checks eng) [] = Inl x"
    by (cases "walk_checks intent s (re_config eng) (re_checks eng) []") auto
  then show ?thesis by (simp add: approve_def)
qed

text \<open>
  C0. An approved long of sufficient size trips the kill switch by being filled. Take an account at its
  peak with no position in the instrument, and a long that the engine approves for at least the kill
  switch fraction of the equity. Filled at its entry price and marked there, without any loss but the
  fee, the next snapshot of the portfolio shows a drawdown of at least that fraction, so the engine
  refuses every further intent.
\<close>

theorem approved_long_trips_kill_switch:
  assumes "exact D" and "approve D eng new_id now intent (portfolio_snapshot D pf) = Ok a"
    and "ti_entry_price intent = Some price" and "0 < price" and "0 \<le> fee"
    and "y = in_symbol (ti_instrument intent)" and "portfolio_position pf y = None"
    and "equity D pf = pe_peak_equity pf" and "0 < equity D pf"
    and "kill_switch_check D \<in> set (re_checks eng)"
    and "rk_killswitch_drawdown (re_config eng) * equity D pf \<le> ap_notional a"
  shows "let s = portfolio_snapshot D (portfolio_mark D y price
      (portfolio_apply_fill D y Long (ap_quantity a) price fee pf)) in
    rk_killswitch_drawdown (re_config eng) \<le> drawdown D s \<and>
    (\<forall>id' now' intent'. \<exists>rej. approve D eng id' now' intent' s = Err rej)"
proof -
  define q where "q = ap_quantity a"
  define pf1 where "pf1 = portfolio_apply_fill D y Long q price fee pf"
  define pf2 where "pf2 = portfolio_mark D y price pf1"
  from approve_Ok [OF assms(2,3)] have q: "0 < q" "ap_notional a = q * price"
    by (auto simp: q_def exact_simps [OF assms(1)])
  have e1: "equity D pf1 = equity D pf - fee - q * price"
    using opening_equity(1) [OF assms(1,7) q(1), of Long price fee] by (simp add: pf1_def)
  have e2: "equity D pf2 = equity D pf - fee - q * price"
    using opening_equity(2) [OF assms(1,7) q(1), of price Long price fee] assms(4) by (simp add: pf2_def pf1_def)
  have pos: "0 \<le> q * price" using q(1) assms(4) by simp
  have "pe_peak_equity pf1 = pe_peak_equity pf"
  proof -
    have "pe_peak_equity pf1 = max (pe_peak_equity pf) (equity D pf1)"
      by (simp add: pf1_def portfolio_apply_fill_def Let_def split: prod.splits)
    then show ?thesis using e1 pos assms(5,8) by simp
  qed
  then have peak: "pe_peak_equity pf2 = pe_peak_equity pf"
    using e2 pos assms(5,8) by (simp add: pf2_def portfolio_mark_def)
  have "rk_killswitch_drawdown (re_config eng) \<le> drawdown D (portfolio_snapshot D pf2)"
    by (rule drawdown_at_peak [OF assms(1), of _ "pe_peak_equity pf"])
      (use assms(5,8,9,11) e2 q(2) peak in \<open>simp_all add: portfolio_snapshot_def Let_def\<close>)
  then show ?thesis
    using kill_switch_refuses [OF assms(10)] by (simp add: pf2_def pf1_def q_def Let_def)
qed

section \<open>Witnesses\<close>

definition silent_runner :: "(f64 option, sim_adapter) backtest_runner" where
  "silent_runner = \<lparr>br_ctx = sample_context Backtest, br_strategy = threshold_provider exact_lib id sample_threshold,
     br_router = sample_router, br_portfolio = portfolio_new 1000 0,
     br_risk = engine_approver exact_lib (default_engine exact_lib risk_config_defaults) (\<lambda>fresh i. sample_account)\<rparr>"

theorem threshold_strategy_never_trades_witness:
  "\<exists>sm final. run exact_lib sample_env silent_runner (\<lambda>t q. ([sample_detection (JObject [])], q))
      [sample_bar, sample_bar] () (sim_new 0 free_fees) = (Ok sm, final) \<and>
    bk_bars_processed sm = 2 \<and> bk_orders_filled sm = 0 \<and> bk_final_equity sm = 1000"
proof -
  have "runner_new (sample_context Backtest) 1000 0 (threshold_provider exact_lib id sample_threshold) sample_router
      (engine_approver exact_lib (default_engine exact_lib risk_config_defaults) (\<lambda>fresh i. sample_account))
    = Ok silent_runner"
    by (simp add: runner_new_def silent_runner_def sample_context_def)
  from threshold_strategy_never_trades [OF this, of sample_env "\<lambda>t q. ([sample_detection (JObject [])], q)"
      "[sample_bar, sample_bar]" "()" "sim_new 0 free_fees"]
  show ?thesis by auto
qed

text \<open>One percent of 1000 at risk over a stop of ten percent: the notional is a tenth of the equity.\<close>

theorem approved_long_trips_kill_switch_witness:
  "\<exists>rej. approve exact_lib (default_engine exact_lib risk_config_defaults) 8 6 (sample_intent Kelly)
     (portfolio_snapshot exact_lib (portfolio_mark exact_lib ''BTCUSDT'' 100
       (portfolio_apply_fill exact_lib ''BTCUSDT'' Long 1 100 0 (portfolio_new 1000 0)))) = Err rej"
proof -
  let ?pf = "portfolio_new 1000 0"
  have e: "equity exact_lib ?pf = 1000" by (rule equity_new) simp
  have s: "portfolio_snapshot exact_lib ?pf = sample_account"
    by (simp add: portfolio_snapshot_def Let_def e day_pnl_def open_position_count_def sample_account_def)
      (simp add: portfolio_new_def hm_values_def hm_empty_def d_sum_def)
  have a: "approve exact_lib (default_engine exact_lib risk_config_defaults) 7 5 (sample_intent (RiskPct (1 / 100)))
      (portfolio_snapshot exact_lib ?pf) = Ok (sample_approved (RiskPct (1 / 100)))"
    unfolding s by (rule sample_approve)
  have n: "portfolio_position ?pf ''BTCUSDT'' = None" "1000 = pe_peak_equity ?pf"
    by (simp_all add: portfolio_position_def portfolio_new_def)
  have q: "ap_quantity (sample_approved (RiskPct (1 / 100))) = 1"
      "ap_notional (sample_approved (RiskPct (1 / 100))) = 100"
    by (simp_all add: sample_approved_def)
  have c: "kill_switch_check exact_lib \<in> set (re_checks (default_engine exact_lib risk_config_defaults))"
      "rk_killswitch_drawdown (re_config (default_engine exact_lib risk_config_defaults)) = 8 / 100"
    by (simp_all add: default_engine_def default_checks_def risk_config_defaults_def)
  show ?thesis
    using approved_long_trips_kill_switch [OF exact_exact_lib a, of 100 0 "''BTCUSDT''"] n c(1)
    unfolding Let_def q c(2) e by (simp add: sample_instrument_def)
qed

end
